(* ===== verification/CF_Prelude.thy ===== *)
theory CF_Prelude
  imports Main "HOL-Library.Word" "HOL-Library.List_Lexorder" "HOL-Library.Product_Lexorder"
    "HOL-Library.Char_ord"
    "HOL-Library.Code_Target_Nat"
begin

text \<open>
  The shared vocabulary of the development: the machine integers of the Rust sources with their
  saturating operations, the identifier types, the ordered containers (\<open>BTreeMap\<close>,
  \<open>BTreeSet\<close>, \<open>VecDeque\<close>) as executable lists, and the generic lemmas on them.

  A \<open>BTreeMap<K, V>\<close> is an association list kept strictly ascending in its keys, which is
  the order the Rust iterators visit; the predicate \<^term>\<open>bwf\<close> says so. A
  \<open>BTreeSet<K>\<close> is a strictly ascending list (\<open>swf\<close>). A \<open>VecDeque\<close> is a list
  whose head is the front.
\<close>

section \<open>Collections of rewrite rules\<close>

named_theorems bmap_simps \<open>laws of the ordered maps\<close>
named_theorems bset_simps \<open>laws of the ordered sets\<close>
named_theorems sat_simps \<open>laws of the saturating operations\<close>

section \<open>Machine integers\<close>

type_synonym u64 = "64 word"
type_synonym u32 = "32 word"

text \<open>\<open>u64::saturating_add\<close>, \<open>u64::saturating_sub\<close>, \<open>u64::MAX\<close>.\<close>

definition u64_max :: u64 where
  "u64_max = - 1"

definition sat_add :: "u64 \<Rightarrow> u64 \<Rightarrow> u64" where
  "sat_add a b = (if unat a + unat b < 2 ^ 64 then a + b else u64_max)"

definition sat_sub :: "u64 \<Rightarrow> u64 \<Rightarrow> u64" where
  "sat_sub a b = (if b \<le> a then a - b else 0)"

text \<open>\<open>u32::try_from(n).unwrap_or(u32::MAX)\<close> for a length \<open>n\<close>.\<close>

definition u32_of_len :: "nat \<Rightarrow> u32" where
  "u32_of_len n = (if n < 2 ^ 32 then of_nat n else - 1)"

text \<open>\<open>u64::try_from(n).unwrap_or(u64::MAX)\<close> for a \<open>usize\<close> \<open>n\<close>.\<close>

definition u64_of_len :: "nat \<Rightarrow> u64" where
  "u64_of_len n = (if n < 2 ^ 64 then of_nat n else u64_max)"

lemma unat_u64_max: "unat u64_max = 2 ^ 64 - 1"
  by (simp add: u64_max_def unsigned_minus_1_eq_mask mask_eq_exp_minus_1)

lemma le_u64_max [simp]: "a \<le> u64_max"
  by (simp add: u64_max_def)

lemma unat_lt_2_64: "unat (a :: u64) < 2 ^ 64"
  using unsigned_less [of a] by simp

lemma unat_sat_add: "unat (sat_add a b) = min (unat a + unat b) (2 ^ 64 - 1)"
  using unat_lt_2_64 [of a] unat_lt_2_64 [of b]
  by (auto simp: sat_add_def unat_u64_max unat_word_ariths)

lemma unat_sat_sub: "unat (sat_sub a b) = unat a - unat b"
  by (auto simp: sat_sub_def unat_sub word_le_nat_alt)

lemma sat_add_ge1 [sat_simps]: "a \<le> sat_add a b"
  using unat_lt_2_64 [of a] by (auto simp: word_le_nat_alt unat_sat_add)

lemma sat_add_ge2 [sat_simps]: "b \<le> sat_add a b"
  using unat_lt_2_64 [of b] by (auto simp: word_le_nat_alt unat_sat_add)

lemma sat_add_mono: "a \<le> a' \<Longrightarrow> b \<le> b' \<Longrightarrow> sat_add a b \<le> sat_add a' b'"
  by (auto simp: word_le_nat_alt unat_sat_add)

lemma sat_add_zero [simp]: "sat_add a 0 = a"
  using unat_lt_2_64 [of a] by (auto simp: sat_add_def)

lemma sat_add_one_less: "sat_add n 1 \<noteq> u64_max \<Longrightarrow> n < sat_add n 1 \<and> n \<noteq> u64_max"
  using unat_lt_2_64 [of n]
  by (auto simp: word_less_nat_alt unat_sat_add word_unat_eq_iff unat_u64_max)

lemma sat_sub_le [sat_simps]: "sat_sub a b \<le> a"
  by (auto simp: word_le_nat_alt unat_sat_sub)

lemma sat_sub_zero [simp]: "sat_sub a 0 = a"
  by (simp add: sat_sub_def)

lemma unat_u64_of_len: "unat (u64_of_len n) = min n (2 ^ 64 - 1)"
  by (auto simp: u64_of_len_def unat_u64_max unat_of_nat)

text \<open>\<open>usize\<close> counts and lengths are \<open>nat\<close>; \<open>usize::MAX\<close> on the 64-bit targets.\<close>

definition usize_max :: nat where
  "usize_max = 2 ^ 64 - 1"

section \<open>Text\<close>

text \<open>Decimal rendering of an integer, as \<open>to_string\<close> and \<open>format!\<close> print it.\<close>

definition digit_char :: "nat \<Rightarrow> char" where
  "digit_char d = char_of (48 + d)"

fun nat_to_string :: "nat \<Rightarrow> string" where
  "nat_to_string n =
     (if n < 10 then [digit_char n] else nat_to_string (n div 10) @ [digit_char (n mod 10)])"

declare nat_to_string.simps [simp del]

definition u64_to_string :: "u64 \<Rightarrow> string" where
  "u64_to_string w = nat_to_string (unat w)"

text \<open>
  \<open>s.trim().is_empty()\<close>: every character of the UTF-8 text has the Unicode property
  \<open>White_Space\<close> (U+0009 to U+000D, U+0020, U+0085, U+00A0, U+1680, U+2000 to U+200A, U+2028,
  U+2029, U+202F, U+205F, U+3000).
\<close>

fun blank_bytes :: "nat list \<Rightarrow> bool" where
  "blank_bytes [] = True"
| "blank_bytes [a] = (a \<in> {9, 10, 11, 12, 13, 32})"
| "blank_bytes [a, b] =
     (if a \<in> {9, 10, 11, 12, 13, 32} then blank_bytes [b] else a = 194 \<and> b \<in> {133, 160})"
| "blank_bytes (a # b # c # bs) =
     (if a \<in> {9, 10, 11, 12, 13, 32} then blank_bytes (b # c # bs)
      else if a = 194 \<and> b \<in> {133, 160} then blank_bytes (c # bs)
      else ((a = 225 \<and> b = 154 \<and> c = 128)
          \<or> (a = 226 \<and> b = 128 \<and> (128 \<le> c \<and> c \<le> 138 \<or> c \<in> {168, 169, 175}))
          \<or> (a = 226 \<and> b = 129 \<and> c = 159)
          \<or> (a = 227 \<and> b = 128 \<and> c = 128)) \<and> blank_bytes bs)"

definition str_is_blank :: "string \<Rightarrow> bool" where
  "str_is_blank s = blank_bytes (map of_char s)"

section \<open>Identifiers\<close>

text \<open>
  The identifier newtypes of \<open>core/src/ids.rs\<close> and \<open>Digest\<close> wrap a \<open>String\<close> and
  derive its order; a string is a list of bytes and \<open>List_Lexorder\<close> over \<open>Char_ord\<close>
  is Rust's byte-wise order.
\<close>

type_synonym tenant_id = string
type_synonym project_id = string
type_synonym process_id = string
type_synonym node_id = string
type_synonym task_instance_id = string
type_synonym task_definition_id = string
type_synonym artifact_id = string
type_synonym agent_id = string
type_synonym user_id = string
type_synonym run_id = string
type_synonym digest = string

section \<open>Ordered maps\<close>

type_synonym ('k, 'v) bmap = "('k \<times> 'v) list"

definition bwf :: "('k::linorder, 'v) bmap \<Rightarrow> bool" where
  "bwf m \<longleftrightarrow> sorted_wrt (<) (map fst m)"

fun binsert :: "'k::linorder \<Rightarrow> 'v \<Rightarrow> ('k, 'v) bmap \<Rightarrow> ('k, 'v) bmap" where
  "binsert k v [] = [(k, v)]"
| "binsert k v ((k', v') # m) =
     (if k < k' then (k, v) # (k', v') # m
      else if k = k' then (k, v) # m
      else (k', v') # binsert k v m)"

definition bremove :: "'k \<Rightarrow> ('k, 'v) bmap \<Rightarrow> ('k, 'v) bmap" where
  "bremove k m = filter (\<lambda>e. fst e \<noteq> k) m"

definition bretain :: "('k \<Rightarrow> 'v \<Rightarrow> bool) \<Rightarrow> ('k, 'v) bmap \<Rightarrow> ('k, 'v) bmap" where
  "bretain p m = filter (\<lambda>e. p (fst e) (snd e)) m"

abbreviation bget :: "('k, 'v) bmap \<Rightarrow> 'k \<Rightarrow> 'v option" where
  "bget m k \<equiv> map_of m k"

definition bcontains :: "('k, 'v) bmap \<Rightarrow> 'k \<Rightarrow> bool" where
  "bcontains m k \<longleftrightarrow> k \<in> set (map fst m)"

text \<open>\<open>get_mut\<close> and a write through the reference; \<open>values_mut\<close> and a write to each.\<close>

definition bupdate :: "'k \<Rightarrow> ('v \<Rightarrow> 'v) \<Rightarrow> ('k, 'v) bmap \<Rightarrow> ('k, 'v) bmap" where
  "bupdate k f m = map (\<lambda>e. if fst e = k then (fst e, f (snd e)) else e) m"

definition bmap_values :: "('k \<Rightarrow> 'v \<Rightarrow> 'v) \<Rightarrow> ('k, 'v) bmap \<Rightarrow> ('k, 'v) bmap" where
  "bmap_values f m = map (\<lambda>e. (fst e, f (fst e) (snd e))) m"

text \<open>\<open>collect::<BTreeMap<_, _>>()\<close>: a later entry replaces an earlier one of the same key.\<close>

definition bcollect :: "('k::linorder \<times> 'v) list \<Rightarrow> ('k, 'v) bmap" where
  "bcollect kvs = fold (\<lambda>e m. binsert (fst e) (snd e) m) kvs []"

abbreviation bkeys :: "('k, 'v) bmap \<Rightarrow> 'k list" where
  "bkeys m \<equiv> map fst m"

abbreviation bvalues :: "('k, 'v) bmap \<Rightarrow> 'v list" where
  "bvalues m \<equiv> map snd m"

lemma bwf_Nil [simp]: "bwf []"
  by (simp add: bwf_def)

lemma bwf_distinct: "bwf m \<Longrightarrow> distinct (map fst m)"
  by (auto simp: bwf_def strict_sorted_iff)

lemma bget_binsert [bmap_simps]: "bget (binsert k v m) = (bget m)(k \<mapsto> v)"
  by (induction k v m rule: binsert.induct) (auto simp: fun_eq_iff)

lemma set_keys_binsert: "set (map fst (binsert k v m)) = insert k (set (map fst m))"
  by (induction k v m rule: binsert.induct) auto

lemma fst_image_binsert: "fst ` set (binsert k v m) = insert k (fst ` set m)"
  using set_keys_binsert [of k v m] by simp

lemma bget_filter_keys: "bget (filter (\<lambda>e. P (fst e)) m) k = (if P k then bget m k else None)"
  by (induction m) auto

lemma set_binsert_subset: "set (binsert k v m) \<subseteq> insert (k, v) (set m)"
  by (induction k v m rule: binsert.induct) auto

lemma bwf_binsert [simp]: "bwf m \<Longrightarrow> bwf (binsert k v m)"
  unfolding bwf_def
proof (induction k v m rule: binsert.induct)
  case (2 k v k' v' m)
  then show ?case
    using set_keys_binsert [of k v m] by auto
qed simp

lemma bwf_fold_binsert: "bwf m \<Longrightarrow> bwf (fold (\<lambda>e m. binsert (fst e) (snd e) m) kvs m)"
  by (induction kvs arbitrary: m) auto

lemma bwf_bcollect [simp]: "bwf (bcollect kvs)"
  by (simp add: bcollect_def bwf_fold_binsert)

lemma bget_bremove [bmap_simps]: "bget (bremove k m) = (bget m)(k := None)"
  unfolding bremove_def by (induction m) (auto simp: fun_eq_iff)

lemma bwf_filter: "bwf m \<Longrightarrow> bwf (filter p m)"
  unfolding bwf_def by (induction m) auto

lemma bwf_bremove [simp]: "bwf m \<Longrightarrow> bwf (bremove k m)"
  by (simp add: bremove_def bwf_filter)

lemma bwf_bretain [simp]: "bwf m \<Longrightarrow> bwf (bretain p m)"
  by (simp add: bretain_def bwf_filter)

lemma map_fst_bupdate [simp]: "map fst (bupdate k f m) = map fst m"
  by (simp add: bupdate_def)

lemma map_fst_bmap_values [simp]: "map fst (bmap_values f m) = map fst m"
  by (simp add: bmap_values_def)

lemma bwf_bupdate [simp]: "bwf (bupdate k f m) = bwf m"
  by (simp add: bwf_def)

lemma bwf_bmap_values [simp]: "bwf (bmap_values f m) = bwf m"
  by (simp add: bwf_def)

lemma bget_bupdate [bmap_simps]:
  "bget (bupdate k f m) k' = (if k' = k then map_option f (bget m k) else bget m k')"
  unfolding bupdate_def by (induction m) auto

lemma bget_bmap_values [bmap_simps]:
  "bget (bmap_values f m) k = map_option (f k) (bget m k)"
  unfolding bmap_values_def by (induction m) auto

lemma bget_filter:
  "bwf m \<Longrightarrow> bget (filter p m) k = (case bget m k of None \<Rightarrow> None | Some v \<Rightarrow> if p (k, v) then Some v else None)"
proof (induction m)
  case (Cons e m)
  obtain a b where e: "e = (a, b)" by (cases e)
  from Cons.prems have wf: "bwf m" and notin: "a \<notin> set (map fst m)"
    by (auto simp: bwf_def e)
  from notin have "bget m a = None"
    by (simp add: map_of_eq_None_iff)
  with Cons.IH [OF wf] show ?case by (auto simp: e)
qed simp

lemma bget_bretain [bmap_simps]:
  "bwf m \<Longrightarrow> bget (bretain p m) k =
     (case bget m k of None \<Rightarrow> None | Some v \<Rightarrow> if p k v then Some v else None)"
  by (auto simp: bretain_def bget_filter split: option.split)

lemma bget_Some_in: "bget m k = Some v \<Longrightarrow> (k, v) \<in> set m"
  by (rule map_of_SomeD)

lemma in_bget_Some: "bwf m \<Longrightarrow> (k, v) \<in> set m \<Longrightarrow> bget m k = Some v"
  by (simp add: bwf_distinct)

lemma bcontains_iff [bmap_simps]: "bcontains m k \<longleftrightarrow> bget m k \<noteq> None"
  by (auto simp: bcontains_def map_of_eq_None_iff)

lemma set_bremove: "set (bremove k m) = {e \<in> set m. fst e \<noteq> k}"
  by (auto simp: bremove_def)

lemma set_bretain: "set (bretain p m) = {e \<in> set m. p (fst e) (snd e)}"
  by (auto simp: bretain_def)

lemma length_bretain_le: "length (bretain p m) \<le> length m"
  by (simp add: bretain_def)

lemma length_bremove_le: "length (bremove k m) \<le> length m"
  by (simp add: bremove_def)

lemma length_bremove_less:
  assumes "k \<in> set (map fst m)"
  shows "length (bremove k m) < length m"
proof -
  from assms obtain e where "e \<in> set m" and "\<not> fst e \<noteq> k" by auto
  then show ?thesis
    unfolding bremove_def by (rule length_filter_less)
qed

lemma binsert_binsert: "binsert k v (binsert k v' m) = binsert k v m"
  by (induction k v' m rule: binsert.induct) auto

lemma length_binsert_le: "length (binsert k v m) \<le> Suc (length m)"
  by (induction k v m rule: binsert.induct) auto

lemma length_filter_binsert_le:
  "length (filter p (binsert k v m)) \<le> length (filter p m) + (if p (k, v) then 1 else 0)"
  by (induction k v m rule: binsert.induct) auto

lemma length_binsert_new: "k \<notin> set (map fst m) \<Longrightarrow> length (binsert k v m) = Suc (length m)"
  by (induction k v m rule: binsert.induct) auto

lemma length_binsert_old:
  "bwf m \<Longrightarrow> k \<in> set (map fst m) \<Longrightarrow> length (binsert k v m) = length m"
proof (induction k v m rule: binsert.induct)
  case (2 k v k' v' m)
  then show ?case by (auto simp: bwf_def)
qed simp

section \<open>The interface the registries use of an ordered map\<close>

text \<open>
  What the registries rely on: lookups after an insertion, a removal and a \<open>retain\<close>, and that
  each of them keeps the representation well formed. The lemmas proved from the laws are the
  two shapes every cleanup of the coordinator has: a sweep removes exactly the keys of one
  scope, and entries outside that scope are untouched.
\<close>

locale ordered_store =
  fixes wf :: "'m \<Rightarrow> bool"
    and look :: "'m \<Rightarrow> 'k \<Rightarrow> 'v option"
    and ins :: "'k \<Rightarrow> 'v \<Rightarrow> 'm \<Rightarrow> 'm"
    and del :: "'k \<Rightarrow> 'm \<Rightarrow> 'm"
    and keep :: "('k \<Rightarrow> 'v \<Rightarrow> bool) \<Rightarrow> 'm \<Rightarrow> 'm"
  assumes look_ins: "look (ins k v m) k' = (if k' = k then Some v else look m k')"
    and look_del: "look (del k m) k' = (if k' = k then None else look m k')"
    and look_keep: "wf m \<Longrightarrow> look (keep p m) k =
          (case look m k of None \<Rightarrow> None | Some v \<Rightarrow> if p k v then Some v else None)"
    and wf_ins: "wf m \<Longrightarrow> wf (ins k v m)"
    and wf_del: "wf m \<Longrightarrow> wf (del k m)"
    and wf_keep: "wf m \<Longrightarrow> wf (keep p m)"
begin

lemma sweep_removes:
  assumes "wf m" and "in_scope k"
  shows "look (keep (\<lambda>k _. \<not> in_scope k) m) k = None"
  using assms by (simp add: look_keep split: option.split)

lemma sweep_keeps:
  assumes "wf m" and "\<not> in_scope k"
  shows "look (keep (\<lambda>k _. \<not> in_scope k) m) k = look m k"
  using assms by (simp add: look_keep split: option.split)

lemma keep_cases:
  assumes "wf m" and "look (keep p m) k = Some v"
  shows "look m k = Some v" and "p k v"
  using assms by (auto simp: look_keep split: option.splits if_splits)

lemma ins_after_sweep:
  assumes "wf m" and "look (ins k0 v0 (keep p m)) k = Some v" and "k \<noteq> k0"
  shows "look m k = Some v \<and> p k v"
  using assms by (auto simp: look_ins dest: keep_cases)

end

interpretation bm: ordered_store bwf map_of binsert bremove bretain
  by unfold_locales (auto simp: bmap_simps split: option.split)

section \<open>Ordered sets\<close>

type_synonym 'a bset = "'a list"

definition swf :: "'a::linorder bset \<Rightarrow> bool" where
  "swf xs \<longleftrightarrow> sorted_wrt (<) xs"

fun sinsert :: "'a::linorder \<Rightarrow> 'a bset \<Rightarrow> 'a bset" where
  "sinsert x [] = [x]"
| "sinsert x (y # ys) =
     (if x < y then x # y # ys else if x = y then y # ys else y # sinsert x ys)"

definition sremove :: "'a \<Rightarrow> 'a bset \<Rightarrow> 'a bset" where
  "sremove x xs = filter (\<lambda>y. y \<noteq> x) xs"

text \<open>\<open>BTreeSet::extend\<close>.\<close>

definition sextend :: "'a::linorder list \<Rightarrow> 'a bset \<Rightarrow> 'a bset" where
  "sextend xs s = fold sinsert xs s"

lemma swf_Nil [simp]: "swf []"
  by (simp add: swf_def)

lemma swf_distinct: "swf xs \<Longrightarrow> distinct xs"
  by (auto simp: swf_def strict_sorted_iff)

lemma set_sinsert [bset_simps]: "set (sinsert x xs) = insert x (set xs)"
  by (induction x xs rule: sinsert.induct) auto

lemma swf_sinsert [simp]: "swf xs \<Longrightarrow> swf (sinsert x xs)"
  unfolding swf_def
  by (induction x xs rule: sinsert.induct) (auto simp: bset_simps)

lemma set_sremove [bset_simps]: "set (sremove x xs) = set xs - {x}"
  by (auto simp: sremove_def)

lemma swf_filter [simp]: "swf xs \<Longrightarrow> swf (filter p xs)"
  unfolding swf_def by (induction xs) auto

lemma swf_sremove [simp]: "swf xs \<Longrightarrow> swf (sremove x xs)"
  by (simp add: sremove_def)

lemma set_sextend [bset_simps]: "set (sextend xs s) = set xs \<union> set s"
  unfolding sextend_def by (induction xs arbitrary: s) (auto simp: bset_simps)

lemma swf_sextend [simp]: "swf s \<Longrightarrow> swf (sextend xs s)"
  unfolding sextend_def by (induction xs arbitrary: s) auto

lemma length_sinsert_le: "length (sinsert x xs) \<le> Suc (length xs)"
  by (induction x xs rule: sinsert.induct) auto

section \<open>Double-ended queues and bounded histories\<close>

text \<open>
  \<open>while deque.len() >= cap { deque.pop_front(); }\<close>. Every caller passes a positive constant;
  at capacity zero the Rust loop would not end, and the theorems below assume \<open>0 < cap\<close>.
\<close>

fun pop_while_ge :: "nat \<Rightarrow> 'a list \<Rightarrow> 'a list" where
  "pop_while_ge cap [] = []"
| "pop_while_ge cap (x # xs) =
     (if length (x # xs) \<ge> cap then pop_while_ge cap xs else x # xs)"

text \<open>\<open>deque.iter().position(p)\<close> followed by \<open>deque.remove(index)\<close>.\<close>

fun remove_first :: "('a \<Rightarrow> bool) \<Rightarrow> 'a list \<Rightarrow> 'a list" where
  "remove_first p [] = []"
| "remove_first p (x # xs) = (if p x then xs else x # remove_first p xs)"

lemma length_remove_first: "list_ex p xs \<Longrightarrow> Suc (length (remove_first p xs)) = length xs"
  by (induction xs) auto

text \<open>
  The eviction loop of the bounded histories: while the number \<open>retained\<close> of entries of one
  scope has reached the capacity, drop the oldest of them; \<open>break\<close> when there is none.
\<close>

function evict_while :: "('a \<Rightarrow> bool) \<Rightarrow> nat \<Rightarrow> nat \<Rightarrow> 'a list \<Rightarrow> 'a list" where
  "evict_while p cap retained xs =
     (if retained \<ge> cap \<and> list_ex p xs
      then evict_while p cap (retained - 1) (remove_first p xs) else xs)"
  by pat_completeness auto
termination
  by (relation "measure (\<lambda>(p, cap, retained, xs). length xs)")
     (auto dest: length_remove_first)

declare evict_while.simps [simp del]

lemma pop_while_ge_drop: "\<exists>n. pop_while_ge cap xs = drop n xs"
proof (induction cap xs rule: pop_while_ge.induct)
  case (2 cap x xs)
  show ?case
  proof (cases "cap \<le> length (x # xs)")
    case True
    with 2 obtain n where "pop_while_ge cap xs = drop n xs" by auto
    with True have "pop_while_ge cap (x # xs) = drop (Suc n) (x # xs)" by simp
    then show ?thesis ..
  next
    case False
    then have "pop_while_ge cap (x # xs) = drop 0 (x # xs)" by simp
    then show ?thesis ..
  qed
qed simp

lemma length_pop_while_ge: "0 < cap \<Longrightarrow> length (pop_while_ge cap xs) < cap"
  by (induction cap xs rule: pop_while_ge.induct) auto

lemma pop_while_ge_id: "length xs < cap \<Longrightarrow> pop_while_ge cap xs = xs"
  by (cases xs) auto

lemma set_pop_while_ge: "set (pop_while_ge cap xs) \<subseteq> set xs"
  by (metis pop_while_ge_drop set_drop_subset)

lemma filter_remove_first_same: "filter p (remove_first p xs) = tl (filter p xs)"
  by (induction xs) auto

lemma filter_remove_first_other:
  "(\<And>x. p x \<Longrightarrow> \<not> q x) \<Longrightarrow> filter q (remove_first p xs) = filter q xs"
  by (induction xs) auto

lemma filter_evict_other:
  "(\<And>x. p x \<Longrightarrow> \<not> q x) \<Longrightarrow> filter q (evict_while p cap n xs) = filter q xs"
proof (induction p cap n xs rule: evict_while.induct)
  case (1 p cap n xs)
  then show ?case
    by (subst evict_while.simps) (simp add: filter_remove_first_other)
qed

lemma filter_evict_same:
  "n = length (filter p xs) \<Longrightarrow>
     filter p (evict_while p cap n xs) = drop (Suc n - cap) (filter p xs)"
proof (induction p cap n xs rule: evict_while.induct)
  case (1 p cap n xs)
  show ?case
  proof (cases "cap \<le> n \<and> list_ex p xs")
    case True
    then have pos: "0 < n"
      using "1.prems" by (auto simp: list_ex_iff filter_empty_conv)
    have "n - 1 = length (filter p (remove_first p xs))"
      using "1.prems" by (simp add: filter_remove_first_same)
    from "1.IH" [OF True this] True pos show ?thesis
      by (subst evict_while.simps) (simp add: filter_remove_first_same drop_Suc [symmetric] Suc_diff_le)
  next
    case False
    then have "Suc n - cap = 0 \<or> filter p xs = []"
      by (auto simp: list_ex_iff filter_empty_conv)
    with False show ?thesis
      by (subst evict_while.simps) auto
  qed
qed

text \<open>The whole append: evict in the scope of the new entry, then globally, then push.\<close>

definition append_bounded ::
  "('e \<Rightarrow> 'e \<Rightarrow> bool) \<Rightarrow> nat \<Rightarrow> nat \<Rightarrow> 'e \<Rightarrow> 'e list \<Rightarrow> 'e list" where
  "append_bounded same scope_cap total_cap e xs =
     pop_while_ge total_cap
       (evict_while (\<lambda>r. same r e) scope_cap (length (filter (\<lambda>r. same r e) xs)) xs) @ [e]"

definition scope_bounded :: "('e \<Rightarrow> 'e \<Rightarrow> bool) \<Rightarrow> nat \<Rightarrow> 'e list \<Rightarrow> bool" where
  "scope_bounded same cap xs \<longleftrightarrow> (\<forall>e. length (filter (\<lambda>r. same r e) xs) \<le> cap)"

lemma length_filter_drop_le: "length (filter p (drop n xs)) \<le> length (filter p xs)"
proof -
  have "length (filter p (take n xs)) + length (filter p (drop n xs)) = length (filter p xs)"
    by (metis append_take_drop_id filter_append length_append)
  then show ?thesis by simp
qed

lemma length_filter_pop_while_ge_le:
  "length (filter p (pop_while_ge cap xs)) \<le> length (filter p xs)"
  by (metis length_filter_drop_le pop_while_ge_drop)

text \<open>
  The contract of a bounded history whose entries fall into scopes: \<open>same\<close> relates the entries
  of one process. Every append keeps the capacity of every scope and the total capacity,
  and the new entry is the last one.
\<close>

locale scoped_history =
  fixes same :: "'e \<Rightarrow> 'e \<Rightarrow> bool"
  assumes same_refl: "same e e"
    and same_sym: "same e e' \<Longrightarrow> same e' e"
    and same_trans: "same e e' \<Longrightarrow> same e' e'' \<Longrightarrow> same e e''"
begin

lemma append_total:
  "0 < total_cap \<Longrightarrow> length (append_bounded same scope_cap total_cap e xs) \<le> total_cap"
  by (simp add: append_bounded_def Suc_le_eq length_pop_while_ge)

lemma append_last: "last (append_bounded same scope_cap total_cap e xs) = e"
  by (simp add: append_bounded_def)

lemma append_scope:
  assumes cap: "0 < scope_cap" and bounded: "scope_bounded same scope_cap xs"
  shows "scope_bounded same scope_cap (append_bounded same scope_cap total_cap e xs)"
  unfolding scope_bounded_def
proof
  fix e'
  let ?n = "length (filter (\<lambda>r. same r e) xs)"
  let ?ev = "evict_while (\<lambda>r. same r e) scope_cap ?n xs"
  have le: "length (filter (\<lambda>r. same r e') (append_bounded same scope_cap total_cap e xs))
      \<le> length (filter (\<lambda>r. same r e') ?ev) + (if same e e' then 1 else 0)"
    using length_filter_pop_while_ge_le [of "\<lambda>r. same r e'" total_cap ?ev]
    by (simp add: append_bounded_def)
  show "length (filter (\<lambda>r. same r e') (append_bounded same scope_cap total_cap e xs)) \<le> scope_cap"
  proof (cases "same e e'")
    case True
    then have "(\<lambda>r. same r e') = (\<lambda>r. same r e)"
      by (auto intro: same_trans same_sym)
    moreover have "length (filter (\<lambda>r. same r e) ?ev) < scope_cap"
      using cap by (simp add: filter_evict_same)
    ultimately show ?thesis using le True by simp
  next
    case False
    then have "filter (\<lambda>r. same r e') ?ev = filter (\<lambda>r. same r e') xs"
      by (intro filter_evict_other) (blast intro: same_trans same_sym)
    with le False bounded show ?thesis
      by (auto simp: scope_bounded_def dest: spec [of _ e'])
  qed
qed

lemma append_keeps_other_scopes:
  assumes "length xs < total_cap" and "\<not> same e e'"
  shows "filter (\<lambda>r. same r e') (append_bounded same scope_cap total_cap e xs)
       = filter (\<lambda>r. same r e') xs"
proof -
  let ?ev = "evict_while (\<lambda>r. same r e) scope_cap (length (filter (\<lambda>r. same r e) xs)) xs"
  have "length ?ev \<le> length xs"
  proof -
    have "filter (\<lambda>r. \<not> same r e) ?ev = filter (\<lambda>r. \<not> same r e) xs"
      by (rule filter_evict_other) simp
    moreover have "length (filter (\<lambda>r. same r e) ?ev) \<le> length (filter (\<lambda>r. same r e) xs)"
      by (simp add: filter_evict_same)
    ultimately show ?thesis
      using sum_length_filter_compl [of "\<lambda>r. same r e" ?ev]
        sum_length_filter_compl [of "\<lambda>r. same r e" xs] by simp
  qed
  with assms(1) have "pop_while_ge total_cap ?ev = ?ev"
    by (simp add: pop_while_ge_id)
  moreover have "filter (\<lambda>r. same r e') ?ev = filter (\<lambda>r. same r e') xs"
    using assms(2) by (intro filter_evict_other) (blast intro: same_trans same_sym)
  ultimately show ?thesis
    using assms(2) by (simp add: append_bounded_def)
qed

end

section \<open>Searches\<close>

lemma find_append: "find P (xs @ ys) = (case find P xs of None \<Rightarrow> find P ys | Some x \<Rightarrow> Some x)"
  by (induction xs) auto

lemma find_last: "P x \<Longrightarrow> find P (rev (xs @ [x])) = Some x"
  by simp

end
