(* ===== verification/CF_Ids.thy ===== *)
theory CF_Ids
  imports CF_Prelude
begin

text \<open>
  Identifiers, digests and node scopes: validation of external identifiers
  (\<open>clusterflux-core/src/ids.rs\<close>), the digest newtype (\<open>clusterflux-core/src/digest.rs\<close>) and the
  node scope key with its credential subject (\<open>clusterflux-coordinator/src/durable.rs\<close>). The SHA-256
  function of the \<open>sha2\<close> and \<open>hex\<close> crates is the parameter \<open>sha256_hex\<close>: it takes the bytes
  hashed and gives the hexadecimal text of the hash.
\<close>

section \<open>Validation\<close>

definition max_external_id_bytes :: nat where
  "max_external_id_bytes = 255"

text \<open>\<open>char::is_control\<close>: U+0000 to U+001F and U+007F to U+009F, on the bytes of a UTF-8 string.\<close>

fun has_control :: "nat list \<Rightarrow> bool" where
  "has_control [] = False"
| "has_control (a # bs) =
     (a < 32 \<or> a = 127
      \<or> (a = 194 \<and> (case bs of [] \<Rightarrow> False | b # _ \<Rightarrow> 128 \<le> b \<and> b < 160))
      \<or> has_control bs)"

datatype opaque_token_error =
    EmptyToken
  | TokenTooLong nat
  | TokenControl

definition validate_opaque_token :: "string \<Rightarrow> nat \<Rightarrow> opaque_token_error + unit" where
  "validate_opaque_token value max_bytes =
     (if str_is_blank value then Inl EmptyToken
      else if length value > max_bytes then Inl (TokenTooLong max_bytes)
      else if has_control (map of_char value) then Inl TokenControl
      else Inr ())"

datatype id_parse_error = IdEmpty | IdTooLong | IdControl | IdCharacter

definition id_byte :: "nat \<Rightarrow> bool" where
  "id_byte b \<longleftrightarrow> (48 \<le> b \<and> b \<le> 57) \<or> (65 \<le> b \<and> b \<le> 90) \<or> (97 \<le> b \<and> b \<le> 122)
     \<or> b \<in> set (map of_char ''-_.:/@+'')"

definition validate_id :: "string \<Rightarrow> id_parse_error + unit" where
  "validate_id value =
     (if value = [] \<or> str_is_blank value then Inl IdEmpty
      else if length value > max_external_id_bytes then Inl IdTooLong
      else if has_control (map of_char value) then Inl IdControl
      else if \<not> list_all id_byte (map of_char value) then Inl IdCharacter
      else Inr ())"

section \<open>Digests\<close>

type_synonym sha256_fn = "string \<Rightarrow> string"

definition digest_sha256 :: "sha256_fn \<Rightarrow> string \<Rightarrow> digest" where
  "digest_sha256 sha256_hex bytes = ''sha256:'' @ sha256_hex bytes"

definition be_bytes :: "nat \<Rightarrow> string" where
  "be_bytes n = map (\<lambda>i. char_of (n div 256 ^ (7 - i) mod 256 :: nat)) [0..<8]"

definition digest_frame :: "string list \<Rightarrow> string" where
  "digest_frame parts = concat (map (\<lambda>p. be_bytes (length p) @ p) parts)"

definition digest_from_parts :: "sha256_fn \<Rightarrow> string list \<Rightarrow> digest" where
  "digest_from_parts sha256_hex parts = ''sha256:'' @ sha256_hex (digest_frame parts)"

definition lower_hex_digit :: "char \<Rightarrow> bool" where
  "lower_hex_digit c \<longleftrightarrow>
     (let b = of_char c :: nat in (48 \<le> b \<and> b \<le> 57) \<or> (97 \<le> b \<and> b \<le> 102))"

definition is_valid_sha256 :: "digest \<Rightarrow> bool" where
  "is_valid_sha256 d \<longleftrightarrow>
     take 7 d = ''sha256:'' \<and> length (drop 7 d) = 64 \<and> list_all lower_hex_digit (drop 7 d)"

definition from_sha256_hex :: "string \<Rightarrow> string + digest" where
  "from_sha256_hex hex_digest =
     (let digest = ''sha256:'' @ hex_digest
      in if is_valid_sha256 digest then Inr digest
         else Inl ''SHA-256 digest must contain exactly 64 lowercase hexadecimal characters'')"

section \<open>Node scopes\<close>

text \<open>The three fields in order: the tuple's lexicographic order is the derived order.\<close>

type_synonym node_scope_key = "tenant_id \<times> project_id \<times> node_id"

fun credential_subject :: "node_scope_key \<Rightarrow> string" where
  "credential_subject (tenant, project, node) =
     ''node:'' @ nat_to_string (length tenant) @ '':'' @ tenant @ '':''
       @ nat_to_string (length project) @ '':'' @ project @ '':''
       @ nat_to_string (length node) @ '':'' @ node"

section \<open>Decimal text is read back uniquely\<close>

fun digits_value :: "nat \<Rightarrow> string \<Rightarrow> nat" where
  "digits_value acc [] = acc"
| "digits_value acc (c # cs) = digits_value (10 * acc + (of_char c - 48)) cs"

lemma digits_value_append: "digits_value acc (xs @ ys) = digits_value (digits_value acc xs) ys"
  by (induction xs arbitrary: acc) auto

lemma of_digit_char: "d < 10 \<Longrightarrow> of_char (digit_char d) = 48 + d"
  by (simp add: digit_char_def)

lemma digits_value_nat_to_string: "digits_value 0 (nat_to_string n) = n"
proof (induction n rule: nat_to_string.induct)
  case (1 n)
  then show ?case
    by (subst nat_to_string.simps) (auto simp: of_digit_char digits_value_append)
qed

lemma nat_to_string_digits: "c \<in> set (nat_to_string n) \<Longrightarrow> 48 \<le> (of_char c :: nat) \<and> of_char c \<le> (57 :: nat)"
proof (induction n rule: nat_to_string.induct)
  case (1 n)
  from "1.prems" "1.IH" show ?case
    by (subst (asm) nat_to_string.simps) (auto simp: of_digit_char split: if_splits)
qed

lemma nat_to_string_no_colon: "CHR '':'' \<notin> set (nat_to_string n)"
  using nat_to_string_digits [of "CHR '':''" n] by auto

text \<open>A length-prefixed field followed by anything determines the field and the rest.\<close>

lemma split_at_colon:
  assumes "xs @ CHR '':'' # r = ys @ CHR '':'' # s"
    and "CHR '':'' \<notin> set xs" and "CHR '':'' \<notin> set ys"
  shows "xs = ys \<and> r = s"
  using assms
proof (induction xs arbitrary: ys)
  case Nil
  then show ?case by (cases ys) auto
next
  case (Cons x xs)
  then show ?case by (cases ys) auto
qed

lemma field_unique:
  assumes "nat_to_string (length a) @ '':'' @ a @ r = nat_to_string (length b) @ '':'' @ b @ s"
  shows "a = b \<and> r = s"
proof -
  have "nat_to_string (length a) = nat_to_string (length b) \<and> a @ r = b @ s"
    using split_at_colon [of "nat_to_string (length a)" "a @ r" "nat_to_string (length b)" "b @ s"] assms
    by (simp add: nat_to_string_no_colon)
  then have "length a = length b" and "a @ r = b @ s"
    using digits_value_nat_to_string by metis+
  then show ?thesis by simp
qed

text \<open>
  The credential subject of a node identifies its scope: two scopes with the same subject are
  the same tenant, project and node, although the identifiers may themselves contain colons.
\<close>

theorem credential_subject_injective:
  "credential_subject a = credential_subject b \<longleftrightarrow> a = b"
proof (cases a; cases b)
  fix t p n t' p' n'
  assume a: "a = (t, p, n)" and b: "b = (t', p', n')"
  have "t = t' \<and> p = p' \<and> n = n'" if eq: "credential_subject a = credential_subject b"
  proof -
    from eq a b have "t = t' \<and> '':'' @ nat_to_string (length p) @ '':'' @ p @ '':'' @ nat_to_string (length n) @ '':'' @ n
        = '':'' @ nat_to_string (length p') @ '':'' @ p' @ '':'' @ nat_to_string (length n') @ '':'' @ n'"
      by (intro field_unique) simp
    then have t: "t = t'" and "p = p' \<and> '':'' @ nat_to_string (length n) @ '':'' @ n
        = '':'' @ nat_to_string (length n') @ '':'' @ n'"
      by (simp, intro field_unique) simp
    then show ?thesis
      using field_unique [of n "[]" n' "[]"] by simp
  qed
  with a b show ?thesis by auto
qed

section \<open>The framing of digested parts\<close>

lemma length_be_bytes [simp]: "length (be_bytes n) = 8"
  by (simp add: be_bytes_def)

lemma be_bytes_inj:
  assumes "be_bytes m = be_bytes n" and "m < 2 ^ 64" and "n < 2 ^ 64"
  shows "m = n"
proof -
  define v where "v s = foldl (\<lambda>acc c. 256 * acc + (of_char c :: nat)) 0 s" for s :: string
  have val: "v (be_bytes k) = k" if "k < 2 ^ 64" for k
  proof -
    have ups: "[0..<8] = [0, 1, 2, 3, 4, 5, 6, 7 :: nat]" by (simp add: upt_rec)
    have step: "256 * (k div (d * 256)) + k div d mod 256 = k div d" for d :: nat
      by (simp add: div_mult2_eq)
    have "k div 256 ^ 7 mod 256 = k div 256 ^ 7"
      using that by (intro mod_less less_mult_imp_div_less) simp
    then show ?thesis
      using step [of 1] step [of 256] step [of "256 ^ 2"] step [of "256 ^ 3"] step [of "256 ^ 4"]
        step [of "256 ^ 5"] step [of "256 ^ 6"]
      by (simp add: v_def be_bytes_def ups)
  qed
  from assms val show ?thesis by metis
qed

lemma digest_frame_injective:
  assumes "digest_frame ps = digest_frame qs"
    and "\<forall>p\<in>set ps. length p < 2 ^ 64" and "\<forall>q\<in>set qs. length q < 2 ^ 64"
  shows "ps = qs"
  using assms
proof (induction ps arbitrary: qs)
  case Nil
  then show ?case
    by (cases qs) (auto simp: digest_frame_def dest: arg_cong [of _ _ length])
next
  case (Cons p ps)
  then obtain q qs' where qs: "qs = q # qs'"
    by (cases qs) (auto simp: digest_frame_def dest: arg_cong [of _ _ length])
  from Cons.prems(1) have eq: "be_bytes (length p) @ p @ digest_frame ps = be_bytes (length q) @ q @ digest_frame qs'"
    by (simp add: qs digest_frame_def)
  then have "be_bytes (length p) = be_bytes (length q)" and rest: "p @ digest_frame ps = q @ digest_frame qs'"
    by auto
  then have "length p = length q"
    using Cons.prems(2,3) by (intro be_bytes_inj) (auto simp: qs)
  with rest have "p = q" and "digest_frame ps = digest_frame qs'" by auto
  with Cons.IH [of qs'] Cons.prems(2,3) show ?case by (simp add: qs)
qed

end
