(* ===== verification/CF_Auth.thy ===== *)
theory CF_Auth
  imports CF_Ids
begin

text \<open>
  Request authentication (\<open>clusterflux-core/src/auth.rs\<close>): actors and contexts, the admin proof, and
  the signed node and agent requests with the messages their Ed25519 signatures cover. The
  \<open>base64\<close> and \<open>ed25519_dalek\<close> crates are the fields of the parameter \<open>ed25519_lib\<close>.
\<close>

section \<open>Actors, contexts and requests\<close>

datatype actor = User user_id | Agent agent_id | Node node_id | Task task_instance_id

datatype credential_kind =
  BrowserSession | CliDeviceSession | PublicKey | NodeCredential | TaskCredential

record auth_context =
  ac_tenant :: tenant_id
  ac_project :: project_id
  ac_actor :: actor

record auth_scope =
  as_tenant :: tenant_id
  as_project :: project_id
  as_process :: "process_id option"
  as_task :: "task_instance_id option"
  as_node :: "node_id option"
  as_artifact :: "artifact_id option"

record authorization =
  az_allowed :: bool
  az_reason :: string

definition authorization_allow :: "string \<Rightarrow> authorization" where
  "authorization_allow reason = \<lparr>az_allowed = True, az_reason = reason\<rparr>"

definition authorization_deny :: "string \<Rightarrow> authorization" where
  "authorization_deny reason = \<lparr>az_allowed = False, az_reason = reason\<rparr>"

definition same_tenant_project :: "auth_context \<Rightarrow> auth_scope \<Rightarrow> authorization" where
  "same_tenant_project context sc =
     (if ac_tenant context \<noteq> as_tenant sc then authorization_deny ''tenant mismatch''
      else if ac_project context \<noteq> as_project sc then authorization_deny ''project mismatch''
      else authorization_allow ''same tenant and project'')"

record assignment_authority =
  aa_assignment_id :: string
  aa_attempt_id :: string
  aa_offer_epoch :: u64

record agent_signed_request =
  asr_nonce :: string
  asr_issued_at :: u64
  asr_signature :: string

record node_signed_request =
  nsr_nonce :: string
  nsr_issued_at :: u64
  nsr_signature :: string
  nsr_assignment_authority :: "assignment_authority option"
  nsr_operation_id :: "string option"

record agent_workflow_scope =
  aws_tenant :: tenant_id
  aws_project :: project_id
  aws_agent :: agent_id
  aws_request_kind :: string
  aws_process :: process_id
  aws_task :: "task_instance_id option"

definition agent_workflow_request_scope_new ::
  "tenant_id \<Rightarrow> project_id \<Rightarrow> agent_id \<Rightarrow> string \<Rightarrow> process_id \<Rightarrow> task_instance_id option
     \<Rightarrow> string + agent_workflow_scope" where
  "agent_workflow_request_scope_new tenant project agent kind process task =
     (if kind = ''start_process'' \<and> task \<noteq> None
      then Inl ''start_process agent scope must not contain a task instance''
      else if kind = ''launch_task'' \<and> task = None
      then Inl ''launch_task agent scope requires a task instance''
      else if kind = ''start_process'' \<or> kind = ''launch_task''
      then Inr \<lparr>aws_tenant = tenant, aws_project = project, aws_agent = agent,
                aws_request_kind = kind, aws_process = process, aws_task = task\<rparr>
      else Inl (''request kind `'' @ kind @ ''` is not an agent workflow operation''))"

section \<open>Admin proof\<close>

definition admin_request_proof_from_token_digest ::
  "sha256_fn \<Rightarrow> digest \<Rightarrow> string \<Rightarrow> string \<Rightarrow> string \<Rightarrow> string \<Rightarrow> string \<Rightarrow> u64 \<Rightarrow> digest" where
  "admin_request_proof_from_token_digest sha256_hex token operation tenant actor_user target nonce issued_at =
     digest_from_parts sha256_hex
       [''clusterflux-admin-request-proof:v1'', token, operation, tenant, actor_user, target, nonce,
        u64_to_string issued_at]"

definition admin_request_proof ::
  "sha256_fn \<Rightarrow> string \<Rightarrow> string \<Rightarrow> string \<Rightarrow> string \<Rightarrow> string \<Rightarrow> string \<Rightarrow> u64 \<Rightarrow> digest" where
  "admin_request_proof sha256_hex admin_token =
     admin_request_proof_from_token_digest sha256_hex (digest_sha256 sha256_hex admin_token)"

section \<open>Enrollment grants\<close>

record enrollment_grant =
  eg_tenant :: tenant_id
  eg_project :: project_id
  eg_grant_id :: string
  eg_scope :: string
  eg_expires_at :: u64
  eg_consumed :: bool

record node_credential =
  nc_node :: node_id
  nc_tenant :: tenant_id
  nc_project :: project_id
  nc_public_key_fingerprint :: digest
  nc_scope :: string
  nc_capability_policy_digest :: digest
  nc_credential_kind :: credential_kind

datatype enrollment_error = Expired | AlreadyConsumed | WrongScope

definition node_capability_policy_digest ::
  "sha256_fn \<Rightarrow> tenant_id \<Rightarrow> project_id \<Rightarrow> string \<Rightarrow> digest" where
  "node_capability_policy_digest sha256_hex tenant project sc =
     digest_from_parts sha256_hex [''node-capability-policy:v1'', tenant, project, sc]"

definition exchange_for_node_identity ::
  "sha256_fn \<Rightarrow> enrollment_grant \<Rightarrow> node_id \<Rightarrow> string \<Rightarrow> string \<Rightarrow> u64
     \<Rightarrow> enrollment_grant \<times> (enrollment_error + node_credential)" where
  "exchange_for_node_identity sha256_hex g node public_key requested_scope now =
     (if eg_consumed g then (g, Inl AlreadyConsumed)
      else if now > eg_expires_at g then (g, Inl Expired)
      else if requested_scope \<noteq> eg_scope g then (g, Inl WrongScope)
      else (g\<lparr>eg_consumed := True\<rparr>,
        Inr \<lparr>nc_node = node, nc_tenant = eg_tenant g, nc_project = eg_project g,
             nc_public_key_fingerprint = digest_sha256 sha256_hex public_key,
             nc_scope = eg_scope g,
             nc_capability_policy_digest =
               node_capability_policy_digest sha256_hex (eg_tenant g) (eg_project g) (eg_scope g),
             nc_credential_kind = NodeCredential\<rparr>))"

section \<open>Signed messages\<close>

text \<open>Each part is written as its length, a colon, its bytes and a line feed.\<close>

definition line_feed :: char where
  "line_feed = char_of (10 :: nat)"

definition signature_parts :: "string list \<Rightarrow> string" where
  "signature_parts parts =
     concat (map (\<lambda>p. nat_to_string (length p) @ '':'' @ p @ [line_feed]) parts)"

definition agent_workflow_signature_message ::
  "agent_workflow_scope \<Rightarrow> digest \<Rightarrow> string \<Rightarrow> u64 \<Rightarrow> string" where
  "agent_workflow_signature_message sc payload nonce issued_at =
     signature_parts
       [''clusterflux-agent-workflow-signature:v2'', aws_tenant sc, aws_project sc, aws_agent sc,
        aws_request_kind sc, aws_process sc, (case aws_task sc of None \<Rightarrow> '''' | Some t \<Rightarrow> t),
        payload, nonce, u64_to_string issued_at]"

definition node_request_parts ::
  "node_id \<Rightarrow> string \<Rightarrow> digest \<Rightarrow> string \<Rightarrow> u64 \<Rightarrow> assignment_authority option \<Rightarrow> string option
     \<Rightarrow> string list" where
  "node_request_parts node kind payload nonce issued_at authority operation_id =
     [if operation_id \<noteq> None then ''clusterflux-node-request-signature:v4''
      else if authority \<noteq> None then ''clusterflux-node-request-signature:v3''
      else ''clusterflux-node-request-signature:v2'',
      node, kind, payload, nonce, u64_to_string issued_at]
     @ (case authority of None \<Rightarrow> []
        | Some a \<Rightarrow> [aa_assignment_id a, aa_attempt_id a, u64_to_string (aa_offer_epoch a)])
     @ (case operation_id of None \<Rightarrow> [] | Some op \<Rightarrow> [op])"

definition node_request_signature_message ::
  "node_id \<Rightarrow> string \<Rightarrow> digest \<Rightarrow> string \<Rightarrow> u64 \<Rightarrow> assignment_authority option \<Rightarrow> string option
     \<Rightarrow> string" where
  "node_request_signature_message node kind payload nonce issued_at authority operation_id =
     signature_parts (node_request_parts node kind payload nonce issued_at authority operation_id)"

section \<open>Signing and verifying\<close>

record ed25519_lib =
  ed_decode64 :: "string \<Rightarrow> string option"
  ed_encode64 :: "string \<Rightarrow> string"
  ed_key_ok :: "string \<Rightarrow> bool"
  ed_sign :: "string \<Rightarrow> string \<Rightarrow> string"
  ed_verify :: "string \<Rightarrow> string \<Rightarrow> string \<Rightarrow> bool"

definition decode_ed25519_key :: "ed25519_lib \<Rightarrow> string \<Rightarrow> nat \<Rightarrow> string \<Rightarrow> string + string" where
  "decode_ed25519_key ed value expected kind =
     (if take 8 value \<noteq> ''ed25519:'' then Inl (kind @ '' must use ed25519:<base64> encoding'')
      else (case ed_decode64 ed (drop 8 value) of
          None \<Rightarrow> Inl (kind @ '' is not valid base64'')
        | Some bytes \<Rightarrow>
            if length bytes \<noteq> expected
            then Inl (kind @ '' must be '' @ nat_to_string expected @ '' bytes'')
            else Inr bytes))"

definition verify_agent_workflow_signature ::
  "ed25519_lib \<Rightarrow> string \<Rightarrow> agent_workflow_scope \<Rightarrow> digest \<Rightarrow> agent_signed_request \<Rightarrow> string + unit" where
  "verify_agent_workflow_signature ed public_key sc payload req =
     (case decode_ed25519_key ed public_key 32 ''agent public key'' of Inl e \<Rightarrow> Inl e
      | Inr key \<Rightarrow>
        if \<not> ed_key_ok ed key then Inl ''agent public key is not a valid Ed25519 verifying key''
        else (case decode_ed25519_key ed (asr_signature req) 64 ''agent signature'' of Inl e \<Rightarrow> Inl e
          | Inr signature \<Rightarrow>
            if ed_verify ed key
                 (agent_workflow_signature_message sc payload (asr_nonce req) (asr_issued_at req)) signature
            then Inr ()
            else Inl ''agent signature does not verify against the registered public key''))"

definition sign_agent_workflow_request ::
  "ed25519_lib \<Rightarrow> string \<Rightarrow> agent_workflow_scope \<Rightarrow> digest \<Rightarrow> string \<Rightarrow> u64
     \<Rightarrow> string + agent_signed_request" where
  "sign_agent_workflow_request ed private_key sc payload nonce issued_at =
     (case decode_ed25519_key ed private_key 32 ''agent private key'' of Inl e \<Rightarrow> Inl e
      | Inr key \<Rightarrow>
        Inr \<lparr>asr_nonce = nonce, asr_issued_at = issued_at,
             asr_signature = ''ed25519:'' @ ed_encode64 ed (ed_sign ed key
               (agent_workflow_signature_message sc payload nonce issued_at))\<rparr>)"

definition sign_node_request_with_assignment ::
  "ed25519_lib \<Rightarrow> string \<Rightarrow> node_id \<Rightarrow> string \<Rightarrow> digest \<Rightarrow> string \<Rightarrow> u64
     \<Rightarrow> assignment_authority option \<Rightarrow> string option \<Rightarrow> string + node_signed_request" where
  "sign_node_request_with_assignment ed private_key node kind payload nonce issued_at authority operation_id =
     (case decode_ed25519_key ed private_key 32 ''node private key'' of Inl e \<Rightarrow> Inl e
      | Inr key \<Rightarrow>
        Inr \<lparr>nsr_nonce = nonce, nsr_issued_at = issued_at,
             nsr_signature = ''ed25519:'' @ ed_encode64 ed (ed_sign ed key
               (node_request_signature_message node kind payload nonce issued_at authority operation_id)),
             nsr_assignment_authority = authority, nsr_operation_id = operation_id\<rparr>)"

definition sign_node_request ::
  "ed25519_lib \<Rightarrow> string \<Rightarrow> node_id \<Rightarrow> string \<Rightarrow> digest \<Rightarrow> string \<Rightarrow> u64 \<Rightarrow> string + node_signed_request" where
  "sign_node_request ed private_key node kind payload nonce issued_at =
     sign_node_request_with_assignment ed private_key node kind payload nonce issued_at None None"

definition sign_node_assignment_request ::
  "ed25519_lib \<Rightarrow> string \<Rightarrow> node_id \<Rightarrow> string \<Rightarrow> digest \<Rightarrow> string \<Rightarrow> u64 \<Rightarrow> assignment_authority
     \<Rightarrow> string + node_signed_request" where
  "sign_node_assignment_request ed private_key node kind payload nonce issued_at authority =
     sign_node_request_with_assignment ed private_key node kind payload nonce issued_at (Some authority) None"

definition sign_node_assignment_operation_request ::
  "ed25519_lib \<Rightarrow> string \<Rightarrow> node_id \<Rightarrow> string \<Rightarrow> digest \<Rightarrow> string \<Rightarrow> u64 \<Rightarrow> assignment_authority
     \<Rightarrow> string \<Rightarrow> string + node_signed_request" where
  "sign_node_assignment_operation_request ed private_key node kind payload nonce issued_at authority op =
     sign_node_request_with_assignment ed private_key node kind payload nonce issued_at
       (Some authority) (Some op)"

definition verify_node_request_signature ::
  "ed25519_lib \<Rightarrow> string \<Rightarrow> node_id \<Rightarrow> string \<Rightarrow> digest \<Rightarrow> node_signed_request \<Rightarrow> string + unit" where
  "verify_node_request_signature ed public_key node kind payload req =
     (case decode_ed25519_key ed public_key 32 ''node public key'' of Inl e \<Rightarrow> Inl e
      | Inr key \<Rightarrow>
        if \<not> ed_key_ok ed key then Inl ''node public key is not a valid Ed25519 verifying key''
        else (case decode_ed25519_key ed (nsr_signature req) 64 ''node signature'' of Inl e \<Rightarrow> Inl e
          | Inr signature \<Rightarrow>
            if ed_verify ed key
                 (node_request_signature_message node kind payload (nsr_nonce req) (nsr_issued_at req)
                    (nsr_assignment_authority req) (nsr_operation_id req)) signature
            then Inr ()
            else Inl ''node signature does not verify against the enrolled public key''))"

section \<open>The messages are unambiguous\<close>

lemma signature_parts_Cons:
  "signature_parts (p # ps) = nat_to_string (length p) @ '':'' @ p @ (line_feed # signature_parts ps)"
  by (simp add: signature_parts_def)

lemma signature_parts_Nil [simp]: "signature_parts [] = []"
  by (simp add: signature_parts_def)

lemma signature_parts_injective: "signature_parts ps = signature_parts qs \<longleftrightarrow> ps = qs"
proof
  assume "signature_parts ps = signature_parts qs"
  then show "ps = qs"
  proof (induction ps arbitrary: qs)
    case Nil
    then show ?case by (cases qs) (auto simp: signature_parts_Cons)
  next
    case (Cons p ps)
    then obtain q qs' where qs: "qs = q # qs'"
      by (cases qs) (auto simp: signature_parts_Cons)
    from Cons.prems have "p = q \<and> line_feed # signature_parts ps = line_feed # signature_parts qs'"
      by (intro field_unique) (simp add: qs signature_parts_Cons)
    with Cons.IH [of qs'] show ?case by (simp add: qs)
  qed
qed simp

lemma u64_to_string_inj [simp]: "u64_to_string a = u64_to_string b \<longleftrightarrow> a = b"
proof
  assume "u64_to_string a = u64_to_string b"
  then have "unat a = unat b"
    unfolding u64_to_string_def by (metis digits_value_nat_to_string)
  then show "a = b" by (simp add: word_unat_eq_iff)
qed simp

text \<open>
  C12. A node's signature binds everything: two requests whose signed messages coincide have the
  same node, request kind, payload digest, nonce, timestamp, assignment authority and operation
  id. No field can be shifted into a neighbour, and the three message versions cannot be confused.
\<close>

theorem node_message_injective:
  "node_request_signature_message node kind payload nonce issued authority op
     = node_request_signature_message node' kind' payload' nonce' issued' authority' op'
   \<longleftrightarrow> (node, kind, payload, nonce, issued, authority, op)
       = (node', kind', payload', nonce', issued', authority', op')"
  unfolding node_request_signature_message_def signature_parts_injective
  by (auto simp: node_request_parts_def split: option.splits if_splits)

text \<open>
  C13. A request signed by a node verifies under the matching public key, whatever its contents,
  provided the Ed25519 and base64 libraries do what they document: decoding inverts encoding, a
  signature has 64 bytes, and it verifies under the public key of the signing key.
\<close>

theorem signed_node_request_verifies:
  assumes base64: "\<And>bytes. ed_decode64 ed (ed_encode64 ed bytes) = Some bytes"
    and signature_length: "\<And>key message. length (ed_sign ed key message) = 64"
    and key_pair: "\<And>message. ed_verify ed public message (ed_sign ed private message)"
    and keys: "length private = 32" "length public = 32" "ed_key_ok ed public"
  shows "\<exists>req. sign_node_request_with_assignment ed (''ed25519:'' @ ed_encode64 ed private)
             node kind payload nonce issued authority op = Inr req
     \<and> verify_node_request_signature ed (''ed25519:'' @ ed_encode64 ed public) node kind payload req = Inr ()
     \<and> nsr_assignment_authority req = authority \<and> nsr_operation_id req = op"
  using assms
  by (simp add: sign_node_request_with_assignment_def verify_node_request_signature_def
      decode_ed25519_key_def)

theorem signed_node_request_verifies_witness:
  "let ed = \<lparr>ed_decode64 = Some, ed_encode64 = (\<lambda>s. s), ed_key_ok = (\<lambda>k. k \<noteq> []),
             ed_sign = (\<lambda>_ m. take 64 (m @ replicate 64 (CHR ''s''))),
             ed_verify = (\<lambda>_ m s. s = take 64 (m @ replicate 64 (CHR ''s'')))\<rparr>
   in \<exists>req. sign_node_request_with_assignment ed (''ed25519:'' @ replicate 32 (CHR ''k''))
        ''n'' ''poll'' ''d'' ''x'' 7 None (Some ''op'') = Inr req
      \<and> verify_node_request_signature ed (''ed25519:'' @ replicate 32 (CHR ''k'')) ''n'' ''poll'' ''d'' req = Inr ()"
proof -
  define ed where "ed = \<lparr>ed_decode64 = Some, ed_encode64 = (\<lambda>s. s), ed_key_ok = (\<lambda>k. k \<noteq> []),
             ed_sign = (\<lambda>_ m. take 64 (m @ replicate 64 (CHR ''s''))),
             ed_verify = (\<lambda>_ m s. s = take 64 (m @ replicate 64 (CHR ''s'')))\<rparr>"
  have "ed_encode64 ed s = s" for s by (simp add: ed_def)
  moreover have "\<exists>req. sign_node_request_with_assignment ed
        (''ed25519:'' @ ed_encode64 ed (replicate 32 (CHR ''k''))) ''n'' ''poll'' ''d'' ''x'' 7 None (Some ''op'') = Inr req
      \<and> verify_node_request_signature ed (''ed25519:'' @ ed_encode64 ed (replicate 32 (CHR ''k'')))
          ''n'' ''poll'' ''d'' req = Inr ()
      \<and> nsr_assignment_authority req = None \<and> nsr_operation_id req = Some ''op''"
    by (rule signed_node_request_verifies) (simp_all add: ed_def)
  ultimately show ?thesis
    unfolding ed_def [symmetric] Let_def by auto
qed

end
