(* ===== verification/CF_Replay.thy ===== *)
theory CF_Replay
  imports CF_Auth
begin

text \<open>
  Replay protection of signed requests: the bounded, expiring nonce windows of
  \<open>clusterflux-coordinator/src/service/replay_registry.rs\<close> and the handlers that consult them for admin
  requests (\<open>service/admin.rs\<close>) and for agent workflow requests (\<open>service/processes.rs\<close> with the key
  directory of \<open>agents.rs\<close>). Node requests are in \<open>CF_Nodes\<close>. The clock is an argument \<open>now\<close>.
  The locale \<open>replay_window\<close> is what every authenticated handler promises of its window; the
  refusal of replays is proved once from it.
\<close>

section \<open>The registry\<close>

datatype replay_admission_error = Duplicate | Capacity

record replay_registry =
  rr_agent_nonces :: "(tenant_id \<times> project_id \<times> agent_id \<times> string, u64) bmap"
  rr_node_nonces :: "(node_scope_key \<times> string, u64) bmap"
  rr_admin_nonces :: "(string, u64) bmap"

definition replay_registry_default :: replay_registry where
  "replay_registry_default = \<lparr>rr_agent_nonces = [], rr_node_nonces = [], rr_admin_nonces = []\<rparr>"

definition admit_admin ::
  "replay_registry \<Rightarrow> string \<Rightarrow> u64 \<Rightarrow> u64 \<Rightarrow> u64 \<Rightarrow> nat
     \<Rightarrow> replay_registry \<times> (replay_admission_error + unit)" where
  "admit_admin r nonce issued_at now window capacity =
     (let r = r\<lparr>rr_admin_nonces := bretain (\<lambda>_ at. now \<le> sat_add at window) (rr_admin_nonces r)\<rparr>
      in if bcontains (rr_admin_nonces r) nonce then (r, Inl Duplicate)
         else if length (rr_admin_nonces r) \<ge> capacity then (r, Inl Capacity)
         else (r\<lparr>rr_admin_nonces := binsert nonce issued_at (rr_admin_nonces r)\<rparr>, Inr ()))"

definition prepare_agent ::
  "replay_registry \<Rightarrow> tenant_id \<Rightarrow> project_id \<Rightarrow> agent_id \<Rightarrow> string \<Rightarrow> u64 \<Rightarrow> u64
     \<Rightarrow> replay_registry \<times> (replay_admission_error + unit)" where
  "prepare_agent r tenant project agent nonce now window =
     (let r = r\<lparr>rr_agent_nonces := bretain (\<lambda>_ at. now \<le> sat_add at window) (rr_agent_nonces r)\<rparr>
      in if bcontains (rr_agent_nonces r) (tenant, project, agent, nonce) then (r, Inl Duplicate)
         else (r, Inr ()))"

definition commit_agent ::
  "replay_registry \<Rightarrow> tenant_id \<Rightarrow> project_id \<Rightarrow> agent_id \<Rightarrow> string \<Rightarrow> u64 \<Rightarrow> nat
     \<Rightarrow> replay_registry \<times> (replay_admission_error + unit)" where
  "commit_agent r tenant project agent nonce issued_at capacity =
     (let retained = length (filter (\<lambda>(t, p, a, _). t = tenant \<and> p = project \<and> a = agent)
                       (bkeys (rr_agent_nonces r)))
      in if retained \<ge> capacity then (r, Inl Capacity)
         else (r\<lparr>rr_agent_nonces := binsert (tenant, project, agent, nonce) issued_at
                   (rr_agent_nonces r)\<rparr>, Inr ()))"

definition prepare_node ::
  "replay_registry \<Rightarrow> node_scope_key \<Rightarrow> string \<Rightarrow> u64 \<Rightarrow> u64
     \<Rightarrow> replay_registry \<times> (replay_admission_error + unit)" where
  "prepare_node r scope nonce now window =
     (let r = r\<lparr>rr_node_nonces := bretain (\<lambda>_ at. now \<le> sat_add at window) (rr_node_nonces r)\<rparr>
      in if bcontains (rr_node_nonces r) (scope, nonce) then (r, Inl Duplicate) else (r, Inr ()))"

definition commit_node ::
  "replay_registry \<Rightarrow> node_scope_key \<Rightarrow> string \<Rightarrow> u64 \<Rightarrow> nat
     \<Rightarrow> replay_registry \<times> (replay_admission_error + unit)" where
  "commit_node r scope nonce accepted_at capacity =
     (let retained = length (filter (\<lambda>(s, _). s = scope) (bkeys (rr_node_nonces r)))
      in if retained \<ge> capacity then (r, Inl Capacity)
         else (r\<lparr>rr_node_nonces := binsert (scope, nonce) accepted_at (rr_node_nonces r)\<rparr>, Inr ()))"

definition replay_clear_node :: "replay_registry \<Rightarrow> node_scope_key \<Rightarrow> replay_registry" where
  "replay_clear_node r scope =
     r\<lparr>rr_node_nonces := bretain (\<lambda>(s, _) _. s \<noteq> scope) (rr_node_nonces r)\<rparr>"

section \<open>What an authenticated handler promises of its window\<close>

text \<open>
  \<open>handle q now s\<close> serves request \<open>q\<close> at clock \<open>now\<close> and tells whether it was accepted;
  \<open>retained\<close> is the window, \<open>nonce_of\<close> the key a request uses there and \<open>stamp\<close> the time
  recorded with it. A recorded nonce is live at \<open>now\<close> while \<open>now\<close> is at most its stamp plus the
  window length.
\<close>

locale replay_window =
  fixes retained :: "'s \<Rightarrow> ('k::linorder, u64) bmap"
    and handle :: "'q \<Rightarrow> u64 \<Rightarrow> 's \<Rightarrow> 's \<times> bool"
    and nonce_of :: "'q \<Rightarrow> 'k"
    and stamp :: "'q \<Rightarrow> u64 \<Rightarrow> u64"
    and window :: u64
  assumes keeps_order: "bwf (retained s) \<Longrightarrow> bwf (retained (fst (handle q now s)))"
    and accepted_recorded: "bwf (retained s) \<Longrightarrow> snd (handle q now s)
      \<Longrightarrow> bget (retained (fst (handle q now s))) (nonce_of q) = Some (stamp q now)"
    and duplicate_refused: "bwf (retained s) \<Longrightarrow> bget (retained s) (nonce_of q) = Some t
      \<Longrightarrow> now \<le> sat_add t window \<Longrightarrow> \<not> snd (handle q now s)"
    and live_kept: "bwf (retained s) \<Longrightarrow> bget (retained s) k = Some t \<Longrightarrow> now \<le> sat_add t window
      \<Longrightarrow> bget (retained (fst (handle q now s))) k = Some t"
begin

definition serve :: "('q \<times> u64) list \<Rightarrow> 's \<Rightarrow> 's" where
  "serve qs s = fold (\<lambda>(q, now) s. fst (handle q now s)) qs s"

lemma serve_order: "bwf (retained s) \<Longrightarrow> bwf (retained (serve qs s))"
  unfolding serve_def by (induction qs arbitrary: s) (auto simp: keeps_order)

lemma serve_live_kept:
  assumes "bwf (retained s)" and "bget (retained s) k = Some t"
    and "\<forall>(q, now)\<in>set qs. now \<le> sat_add t window"
  shows "bget (retained (serve qs s)) k = Some t"
  using assms
proof (induction qs arbitrary: s)
  case Nil
  then show ?case by (simp add: serve_def)
next
  case (Cons e qs)
  obtain q now where e: "e = (q, now)" by fastforce
  from Cons.prems have "bget (retained (fst (handle q now s))) k = Some t"
    by (intro live_kept) (auto simp: e)
  then have "bget (retained (serve qs (fst (handle q now s)))) k = Some t"
    using Cons.prems by (intro Cons.IH) (auto simp: keeps_order)
  then show ?case by (simp add: serve_def e)
qed

text \<open>Once accepted, a nonce is refused while its stamp is live, whatever is served between.\<close>

lemma replay_refused:
  assumes "bwf (retained s)" and "snd (handle q now s)"
    and "\<forall>(r, at)\<in>set qs. at \<le> sat_add (stamp q now) window"
    and "nonce_of q' = nonce_of q" and "now' \<le> sat_add (stamp q now) window"
  shows "\<not> snd (handle q' now' (serve qs (fst (handle q now s))))"
proof (rule duplicate_refused)
  show "bwf (retained (serve qs (fst (handle q now s))))"
    by (intro serve_order keeps_order assms)
  show "bget (retained (serve qs (fst (handle q now s)))) (nonce_of q') = Some (stamp q now)"
    using assms by (auto intro!: serve_live_kept accepted_recorded keeps_order)
qed (rule assms)

end

text \<open>
  How the handlers keep that promise: a request leaves the window alone, or drops the expired
  nonces, or drops them and records its own nonce, which was not there, and is accepted.
\<close>

definition window_prune :: "u64 \<Rightarrow> u64 \<Rightarrow> ('k::linorder, u64) bmap \<Rightarrow> ('k, u64) bmap" where
  "window_prune window now m = bretain (\<lambda>_ at. now \<le> sat_add at window) m"

lemma bwf_window_prune [simp]: "bwf m \<Longrightarrow> bwf (window_prune w now m)"
  by (simp add: window_prune_def)

lemma bget_window_prune:
  "bwf m \<Longrightarrow> bget (window_prune w now m) k
    = (case bget m k of None \<Rightarrow> None | Some at \<Rightarrow> if now \<le> sat_add at w then Some at else None)"
  by (simp add: window_prune_def bget_bretain split: option.split)

locale pruning_handler =
  fixes retained :: "'s \<Rightarrow> ('k::linorder, u64) bmap"
    and handle :: "'q \<Rightarrow> u64 \<Rightarrow> 's \<Rightarrow> 's \<times> bool"
    and nonce_of :: "'q \<Rightarrow> 'k"
    and stamp :: "'q \<Rightarrow> u64 \<Rightarrow> u64"
    and window :: u64
  assumes outcome:
    "(\<not> snd (handle q now s) \<and> retained (fst (handle q now s)) = retained s)
     \<or> (\<not> snd (handle q now s) \<and> retained (fst (handle q now s)) = window_prune window now (retained s))
     \<or> (snd (handle q now s)
        \<and> \<not> bcontains (window_prune window now (retained s)) (nonce_of q)
        \<and> retained (fst (handle q now s))
            = binsert (nonce_of q) (stamp q now) (window_prune window now (retained s)))"

sublocale pruning_handler \<subseteq> replay_window retained handle nonce_of stamp window
proof
  fix s q now
  assume wf: "bwf (retained s)"
  note simps = bget_window_prune [OF wf] bcontains_iff bmap_simps
  show "bwf (retained (fst (handle q now s)))"
    using wf outcome [of q now s] by auto
  show "snd (handle q now s) \<Longrightarrow> bget (retained (fst (handle q now s))) (nonce_of q) = Some (stamp q now)"
    using wf outcome [of q now s] by (auto simp: simps)
  show "\<not> snd (handle q now s)"
    if "bget (retained s) (nonce_of q) = Some t" "now \<le> sat_add t window" for t
    using that wf outcome [of q now s] by (auto simp: simps)
  show "bget (retained (fst (handle q now s))) k = Some t"
    if "bget (retained s) k = Some t" "now \<le> sat_add t window" for k t
    using that wf outcome [of q now s] by (auto simp: simps)
qed

section \<open>Admin requests\<close>

datatype coordinator_error =
    UnknownNode
  | Enrollment enrollment_error
  | StaleProcessEpoch (ce_stale_epoch: u64) (ce_current_epoch: u64)
  | Unauthorized string

definition abs_diff :: "u64 \<Rightarrow> u64 \<Rightarrow> u64" where
  "abs_diff a b = (if a \<le> b then b - a else a - b)"

definition admin_request_max_clock_skew_seconds :: u64 where
  "admin_request_max_clock_skew_seconds = 300"

definition max_replay_nonces_per_authority :: nat where
  "max_replay_nonces_per_authority = 1024"

record admin_request =
  ar_operation :: string
  ar_tenant :: string
  ar_actor_user :: string
  ar_target_tenant :: string
  ar_proof :: digest
  ar_nonce :: string
  ar_issued_at :: u64

definition verify_admin_request ::
  "sha256_fn \<Rightarrow> digest option \<Rightarrow> admin_request \<Rightarrow> u64 \<Rightarrow> replay_registry
     \<Rightarrow> replay_registry \<times> (coordinator_error + unit)" where
  "verify_admin_request sha256_hex admin_token_digest q now r =
     (case admin_token_digest of
        None \<Rightarrow> (r, Inl (Unauthorized ''self-hosted admin credential is not configured''))
      | Some expected \<Rightarrow>
        if str_is_blank (ar_nonce q) \<or> length (ar_nonce q) > 256
        then (r, Inl (Unauthorized ''admin request nonce is missing or invalid''))
        else if abs_diff now (ar_issued_at q) > admin_request_max_clock_skew_seconds
        then (r, Inl (Unauthorized
               ''admin request timestamp is outside the allowed 300-second window''))
        else if ar_proof q \<noteq> admin_request_proof_from_token_digest sha256_hex expected (ar_operation q)
               (ar_tenant q) (ar_actor_user q) (ar_target_tenant q) (ar_nonce q) (ar_issued_at q)
        then (r, Inl (Unauthorized ''admin request proof is invalid''))
        else (case admit_admin r (ar_nonce q) (ar_issued_at q) now
                 admin_request_max_clock_skew_seconds max_replay_nonces_per_authority of
            (r', Inr _) \<Rightarrow> (r', Inr ())
          | (r', Inl Duplicate) \<Rightarrow>
              (r', Inl (Unauthorized ''admin request nonce was already used''))
          | (r', Inl Capacity) \<Rightarrow>
              (r', Inl (Unauthorized ''admin request replay window is full; retry after the bounded signature window advances''))))"

definition admin_accepts ::
  "sha256_fn \<Rightarrow> digest option \<Rightarrow> admin_request \<Rightarrow> u64 \<Rightarrow> replay_registry \<Rightarrow> replay_registry \<times> bool" where
  "admin_accepts H d q now r = (let (r', res) = verify_admin_request H d q now r in (r', res = Inr ()))"

interpretation admin_window: pruning_handler rr_admin_nonces "admin_accepts H d" ar_nonce
    "\<lambda>q _. ar_issued_at q" admin_request_max_clock_skew_seconds for H d
  by unfold_locales
    (auto simp: admin_accepts_def verify_admin_request_def admit_admin_def window_prune_def Let_def
      split: option.split prod.split sum.split replay_admission_error.split)

lemma abs_diff_le_window: "abs_diff now t \<le> w \<Longrightarrow> now \<le> sat_add t w"
  using unat_lt_2_64 [of now]
  by (auto simp: abs_diff_def word_le_nat_alt unat_sat_add unat_sub split: if_splits)

lemma abs_diff_le_window': "abs_diff t now \<le> w \<Longrightarrow> now \<le> sat_add t w"
  using unat_lt_2_64 [of now]
  by (auto simp: abs_diff_def word_le_nat_alt unat_sat_add unat_sub split: if_splits)

lemma admin_accepts_fresh:
  "snd (admin_accepts H d q now r) \<Longrightarrow> abs_diff now (ar_issued_at q) \<le> admin_request_max_clock_skew_seconds"
  by (auto simp: admin_accepts_def verify_admin_request_def split: option.splits if_splits)

text \<open>A history of admin requests with the clock reading at which each is served.\<close>

definition admin_serve ::
  "sha256_fn \<Rightarrow> digest option \<Rightarrow> (admin_request \<times> u64) list \<Rightarrow> replay_registry \<Rightarrow> replay_registry" where
  "admin_serve H d qs r = fold (\<lambda>(q, now) r. fst (admin_accepts H d q now r)) qs r"

lemma admin_serve_eq: "admin_serve H d = admin_window.serve H d"
  by (intro ext) (simp add: admin_serve_def admin_window.serve_def)

text \<open>
  C3. An accepted admin request is never accepted again: after any history, and with any requests
  served in between, a second request with the same nonce and timestamp is refused at every later
  clock reading, as long as the clock does not run backwards.
\<close>

theorem admin_request_never_replayed:
  assumes "snd (admin_accepts H d q now (admin_serve H d before replay_registry_default))"
    and clock: "sorted (now # map snd between @ [now'])"
    and "ar_nonce q' = ar_nonce q" and "ar_issued_at q' = ar_issued_at q"
  shows "\<not> snd (admin_accepts H d q' now' (admin_serve H d between
           (fst (admin_accepts H d q now (admin_serve H d before replay_registry_default)))))"
proof
  let ?r = "admin_serve H d before replay_registry_default"
  assume acc: "snd (admin_accepts H d q' now' (admin_serve H d between (fst (admin_accepts H d q now ?r))))"
  have le: "now' \<le> sat_add (ar_issued_at q) admin_request_max_clock_skew_seconds"
    using admin_accepts_fresh [OF acc] assms(4) by (simp add: abs_diff_le_window)
  have "bwf (rr_admin_nonces ?r)"
    unfolding admin_serve_eq by (rule admin_window.serve_order) (simp add: replay_registry_default_def)
  moreover have "\<forall>(x, at)\<in>set between. at \<le> sat_add (ar_issued_at q) admin_request_max_clock_skew_seconds"
    using clock le by (force simp: sorted_append)
  ultimately show False
    using admin_window.replay_refused [of ?r H d q now between q' now'] assms(1,3) le acc
    by (simp add: admin_serve_eq)
qed

definition admin_example :: admin_request where
  "admin_example =
     \<lparr>ar_operation = ''admin_status'', ar_tenant = ''t'', ar_actor_user = ''u'', ar_target_tenant = ''t'',
      ar_proof = admin_request_proof_from_token_digest (\<lambda>s. s) ''d'' ''admin_status'' ''t'' ''u'' ''t'' ''n'' 100,
      ar_nonce = ''n'', ar_issued_at = 100\<rparr>"

theorem admin_request_never_replayed_witness:
  "snd (admin_accepts (\<lambda>s. s) (Some ''d'') admin_example 90 replay_registry_default)
   \<and> \<not> snd (admin_accepts (\<lambda>s. s) (Some ''d'') admin_example 390
        (admin_serve (\<lambda>s. s) (Some ''d'') [(admin_example\<lparr>ar_nonce := ''m''\<rparr>, 200)]
          (fst (admin_accepts (\<lambda>s. s) (Some ''d'') admin_example 90 replay_registry_default))))"
proof
  have run: "admin_serve (\<lambda>s. s) (Some ''d'') [] replay_registry_default = replay_registry_default"
    by (simp add: admin_serve_def)
  show acc: "snd (admin_accepts (\<lambda>s. s) (Some ''d'') admin_example 90 replay_registry_default)"
    by code_simp
  show "\<not> snd (admin_accepts (\<lambda>s. s) (Some ''d'') admin_example 390
        (admin_serve (\<lambda>s. s) (Some ''d'') [(admin_example\<lparr>ar_nonce := ''m''\<rparr>, 200)]
          (fst (admin_accepts (\<lambda>s. s) (Some ''d'') admin_example 90 replay_registry_default))))"
    using admin_request_never_replayed [of "\<lambda>s. s" "Some ''d''" admin_example 90 "[]"
        "[(admin_example\<lparr>ar_nonce := ''m''\<rparr>, 200)]" 390 admin_example] acc
    by (simp add: run)
qed

section \<open>The directory of agent keys\<close>

record agent_public_key_record =
  apk_tenant :: tenant_id
  apk_project :: project_id
  apk_user :: user_id
  apk_agent :: agent_id
  apk_public_key :: string
  apk_public_key_fingerprint :: digest
  apk_version :: u64
  apk_revoked :: bool
  apk_scopes :: "string list"
  apk_human_account_creation_privilege :: bool
  apk_browser_interaction_required_each_run :: bool

record credential_record =
  cr_subject :: string
  cr_tenant :: tenant_id
  cr_project :: "project_id option"
  cr_kind :: credential_kind
  cr_public_key_fingerprint :: "digest option"

record project_permission_record =
  pp_tenant :: tenant_id
  pp_project :: project_id
  pp_user :: user_id
  pp_can_debug :: bool

text \<open>The collections of the durable state that agents use.\<close>

record agent_directory =
  ad_agent_public_keys :: "(tenant_id \<times> project_id \<times> agent_id, agent_public_key_record) bmap"
  ad_credentials :: "(string, credential_record) bmap"
  ad_project_permissions :: "(tenant_id \<times> project_id \<times> user_id, project_permission_record) bmap"

definition grant_project_debug ::
  "agent_directory \<Rightarrow> tenant_id \<Rightarrow> project_id \<Rightarrow> user_id \<Rightarrow> agent_directory" where
  "grant_project_debug d tenant project user =
     d\<lparr>ad_project_permissions := binsert (tenant, project, user)
         \<lparr>pp_tenant = tenant, pp_project = project, pp_user = user, pp_can_debug = True\<rparr>
         (ad_project_permissions d)\<rparr>"

definition agent_subject :: "tenant_id \<Rightarrow> project_id \<Rightarrow> agent_id \<Rightarrow> string" where
  "agent_subject tenant project agent = ''agent:'' @ tenant @ '':'' @ project @ '':'' @ agent"

definition register_agent_public_key ::
  "sha256_fn \<Rightarrow> agent_directory \<Rightarrow> tenant_id \<Rightarrow> project_id \<Rightarrow> user_id \<Rightarrow> agent_id \<Rightarrow> string
     \<Rightarrow> agent_directory \<times> agent_public_key_record" where
  "register_agent_public_key sha256_hex d tenant project user agent public_key =
     (let key = (tenant, project, agent);
          version = (case bget (ad_agent_public_keys d) key of
              None \<Rightarrow> 1 | Some rec \<Rightarrow> sat_add (apk_version rec) 1);
          fingerprint = digest_sha256 sha256_hex public_key;
          rec = \<lparr>apk_tenant = tenant, apk_project = project, apk_user = user, apk_agent = agent,
                 apk_public_key = public_key, apk_public_key_fingerprint = fingerprint,
                 apk_version = version, apk_revoked = False,
                 apk_scopes = [''project:read'', ''project:run''],
                 apk_human_account_creation_privilege = False,
                 apk_browser_interaction_required_each_run = False\<rparr>;
          subject = agent_subject tenant project agent
      in (d\<lparr>ad_agent_public_keys := binsert key rec (ad_agent_public_keys d),
            ad_credentials := binsert subject
              \<lparr>cr_subject = subject, cr_tenant = tenant, cr_project = Some project,
               cr_kind = PublicKey, cr_public_key_fingerprint = Some fingerprint\<rparr>
              (ad_credentials d)\<rparr>, rec))"

definition list_agent_public_keys ::
  "agent_directory \<Rightarrow> auth_context \<Rightarrow> agent_public_key_record list" where
  "list_agent_public_keys d context =
     filter (\<lambda>rec. case ac_actor context of
          User user \<Rightarrow> apk_user rec = user
        | Agent agent \<Rightarrow> apk_agent rec = agent
        | Node _ \<Rightarrow> False
        | Task _ \<Rightarrow> False)
       (filter (\<lambda>rec. apk_tenant rec = ac_tenant context \<and> apk_project rec = ac_project context)
         (bvalues (ad_agent_public_keys d)))"

definition revoke_agent_public_key ::
  "agent_directory \<Rightarrow> auth_context \<Rightarrow> agent_id
     \<Rightarrow> coordinator_error + (agent_directory \<times> agent_public_key_record)" where
  "revoke_agent_public_key d context agent =
     (let key = (ac_tenant context, ac_project context, agent)
      in case bget (ad_agent_public_keys d) key of
           None \<Rightarrow> Inl (Unauthorized ''agent public key is not registered for this project'')
         | Some rec \<Rightarrow>
           (case ac_actor context of
              User user \<Rightarrow>
                if apk_user rec = user
                then (let rec' = rec\<lparr>apk_revoked := True\<rparr>
                      in Inr (d\<lparr>ad_agent_public_keys := binsert key rec' (ad_agent_public_keys d),
                                ad_credentials := bremove
                                  (agent_subject (ac_tenant context) (ac_project context) (apk_agent rec))
                                  (ad_credentials d)\<rparr>, rec'))
                else Inl (Unauthorized ''agent public key is outside the signed-in user scope'')
            | _ \<Rightarrow> Inl (Unauthorized ''agent public-key revocation requires a user identity'')))"

definition authorize_agent_project_run ::
  "ed25519_lib \<Rightarrow> agent_directory \<Rightarrow> agent_workflow_scope \<Rightarrow> digest option \<Rightarrow> digest
     \<Rightarrow> agent_signed_request \<Rightarrow> u64 \<Rightarrow> coordinator_error + agent_public_key_record" where
  "authorize_agent_project_run ed d sc fingerprint payload req now =
     (case bget (ad_agent_public_keys d) (aws_tenant sc, aws_project sc, aws_agent sc) of
        None \<Rightarrow> Inl (Unauthorized ''agent public key is not registered for this tenant/project'')
      | Some rec \<Rightarrow>
        if apk_revoked rec then Inl (Unauthorized ''agent public key has been revoked'')
        else if (case fingerprint of None \<Rightarrow> False | Some f \<Rightarrow> apk_public_key_fingerprint rec \<noteq> f)
        then Inl (Unauthorized ''agent public key fingerprint does not match the registered key'')
        else if abs_diff (asr_issued_at req) now > 300
        then Inl (Unauthorized ''agent signed request is expired or outside the allowed clock skew'')
        else if \<not> list_ex (\<lambda>s. s = ''project:run'') (apk_scopes rec)
        then Inl (Unauthorized ''agent public key is not scoped for project runs'')
        else (case verify_agent_workflow_signature ed (apk_public_key rec) sc payload req of
            Inl e \<Rightarrow> Inl (Unauthorized e)
          | Inr _ \<Rightarrow> Inr rec))"

text \<open>
  A finding of the model: unlike a node's, an agent's credential subject is not length-prefixed,
  and identifiers may contain colons, so two agents of different projects can share it.
\<close>

section \<open>Agent workflow requests\<close>

record workflow_actor_record =
  wa_kind :: string
  wa_user :: "user_id option"
  wa_agent :: "agent_id option"
  wa_credential_kind :: credential_kind
  wa_public_key_fingerprint :: "digest option"
  wa_authenticated_without_browser :: bool
  wa_scopes :: "string list"

record workflow_request =
  wq_tenant :: tenant_id
  wq_project :: project_id
  wq_actor_user :: "user_id option"
  wq_actor_agent :: "agent_id option"
  wq_fingerprint :: "digest option"
  wq_signature :: "agent_signed_request option"
  wq_payload_digest :: "digest option"
  wq_request_kind :: string
  wq_process :: process_id
  wq_task :: "task_instance_id option"

definition agent_signature_window_seconds :: u64 where
  "agent_signature_window_seconds = 300"

definition workflow_agent ::
  "ed25519_lib \<Rightarrow> agent_directory \<Rightarrow> workflow_request \<Rightarrow> agent_id \<Rightarrow> u64 \<Rightarrow> replay_registry
     \<Rightarrow> replay_registry \<times> (coordinator_error + workflow_actor_record)" where
  "workflow_agent ed d q agent now r =
     (case wq_signature q of
        None \<Rightarrow> (r, Inl (Unauthorized
          ''agent workflow dispatch requires a signed request proving private-key possession''))
      | Some signature \<Rightarrow>
     (case wq_payload_digest q of
        None \<Rightarrow> (r, Inl (Unauthorized
          ''agent workflow dispatch requires a canonical signed request payload''))
      | Some payload \<Rightarrow>
        if str_is_blank (asr_nonce signature) \<or> length (asr_nonce signature) > 256
        then (r, Inl (Unauthorized ''agent signed request nonce is missing or invalid''))
        else
     (case prepare_agent r (wq_tenant q) (wq_project q) agent (asr_nonce signature) now
             agent_signature_window_seconds of
        (r, Inl Duplicate) \<Rightarrow>
          (r, Inl (Unauthorized ''agent signed request nonce has already been used''))
      | (r, _) \<Rightarrow>
     (case agent_workflow_request_scope_new (wq_tenant q) (wq_project q) agent (wq_request_kind q)
             (wq_process q) (wq_task q) of
        Inl e \<Rightarrow> (r, Inl (Unauthorized e))
      | Inr sc \<Rightarrow>
     (case authorize_agent_project_run ed d sc (wq_fingerprint q) payload signature now of
        Inl e \<Rightarrow> (r, Inl e)
      | Inr rec \<Rightarrow>
     (case commit_agent r (wq_tenant q) (wq_project q) agent (asr_nonce signature)
             (asr_issued_at signature) max_replay_nonces_per_authority of
        (r, Inl Capacity) \<Rightarrow> (r, Inl (Unauthorized
          ''agent signed request replay window is full; retry after the bounded signature window advances''))
      | (r, _) \<Rightarrow>
          (r, Inr \<lparr>wa_kind = ''agent'', wa_user = Some (apk_user rec), wa_agent = Some agent,
                   wa_credential_kind = PublicKey,
                   wa_public_key_fingerprint = Some (apk_public_key_fingerprint rec),
                   wa_authenticated_without_browser = True, wa_scopes = apk_scopes rec\<rparr>)))))))"

definition workflow_actor ::
  "ed25519_lib \<Rightarrow> agent_directory \<Rightarrow> workflow_request \<Rightarrow> u64 \<Rightarrow> replay_registry
     \<Rightarrow> replay_registry \<times> (coordinator_error + workflow_actor_record)" where
  "workflow_actor ed d q now r =
     (case wq_actor_agent q of
        Some agent \<Rightarrow> workflow_agent ed d q agent now r
      | None \<Rightarrow>
          (r, Inr \<lparr>wa_kind = ''user'',
                   wa_user = Some (case wq_actor_user q of None \<Rightarrow> ''user'' | Some u \<Rightarrow> u),
                   wa_agent = None, wa_credential_kind = BrowserSession,
                   wa_public_key_fingerprint = None, wa_authenticated_without_browser = False,
                   wa_scopes = [''project:read'', ''project:run'']\<rparr>))"

text \<open>
  A served agent request: the key directory as it stands at that moment, the request and the
  agent it names.
\<close>

type_synonym agent_call = "agent_directory \<times> workflow_request \<times> agent_id"

definition agent_accepts ::
  "ed25519_lib \<Rightarrow> agent_call \<Rightarrow> u64 \<Rightarrow> replay_registry \<Rightarrow> replay_registry \<times> bool" where
  "agent_accepts ed c now r =
     (case c of (d, q, agent) \<Rightarrow>
        let (r', res) = workflow_agent ed d q agent now r
        in (r', case res of Inl _ \<Rightarrow> False | Inr _ \<Rightarrow> True))"

definition agent_call_nonce :: "agent_call \<Rightarrow> tenant_id \<times> project_id \<times> agent_id \<times> string" where
  "agent_call_nonce c = (case c of (d, q, agent) \<Rightarrow>
     (wq_tenant q, wq_project q, agent,
      case wq_signature q of None \<Rightarrow> [] | Some g \<Rightarrow> asr_nonce g))"

definition agent_call_issued :: "agent_call \<Rightarrow> u64" where
  "agent_call_issued c = (case c of (d, q, agent) \<Rightarrow>
     (case wq_signature q of None \<Rightarrow> 0 | Some g \<Rightarrow> asr_issued_at g))"

interpretation agent_window: pruning_handler rr_agent_nonces "agent_accepts ed" agent_call_nonce
    "\<lambda>c _. agent_call_issued c" agent_signature_window_seconds for ed
  by unfold_locales
    (auto simp: agent_accepts_def workflow_agent_def prepare_agent_def commit_agent_def
      window_prune_def agent_call_nonce_def agent_call_issued_def Let_def
      split: option.splits sum.splits if_splits)

definition agent_serve ::
  "ed25519_lib \<Rightarrow> (agent_call \<times> u64) list \<Rightarrow> replay_registry \<Rightarrow> replay_registry" where
  "agent_serve ed cs r = fold (\<lambda>(c, now) r. fst (agent_accepts ed c now r)) cs r"

lemma agent_serve_eq: "agent_serve ed = agent_window.serve ed"
  by (intro ext) (simp add: agent_serve_def agent_window.serve_def)

lemma agent_accepts_fresh:
  "snd (agent_accepts ed c now r) \<Longrightarrow> now \<le> sat_add (agent_call_issued c) agent_signature_window_seconds"
  by (cases c)
    (auto simp: agent_accepts_def workflow_agent_def prepare_agent_def authorize_agent_project_run_def
      agent_call_issued_def agent_signature_window_seconds_def Let_def not_less
      intro: abs_diff_le_window' split: option.splits sum.splits if_splits)

text \<open>
  C4. An accepted agent workflow request is never accepted again while the registry lives: whatever happens to
  the key directory and whatever other requests are served in between, a request of the same agent with the
  same nonce and timestamp is refused at every later clock reading. (The registry is kept in memory and starts
  empty after a restart.)
\<close>

theorem agent_request_never_replayed:
  assumes "snd (agent_accepts ed c now (agent_serve ed before replay_registry_default))"
    and clock: "sorted (now # map snd between @ [now'])"
    and "agent_call_nonce c' = agent_call_nonce c" and "agent_call_issued c' = agent_call_issued c"
  shows "\<not> snd (agent_accepts ed c' now' (agent_serve ed between
           (fst (agent_accepts ed c now (agent_serve ed before replay_registry_default)))))"
proof
  let ?r = "agent_serve ed before replay_registry_default"
  assume acc: "snd (agent_accepts ed c' now' (agent_serve ed between (fst (agent_accepts ed c now ?r))))"
  have le: "now' \<le> sat_add (agent_call_issued c) agent_signature_window_seconds"
    using agent_accepts_fresh [OF acc] assms(4) by simp
  have "bwf (rr_agent_nonces ?r)"
    unfolding agent_serve_eq by (rule agent_window.serve_order) (simp add: replay_registry_default_def)
  moreover have "\<forall>(x, at)\<in>set between. at \<le> sat_add (agent_call_issued c) agent_signature_window_seconds"
    using clock le by (force simp: sorted_append)
  ultimately show False
    using agent_window.replay_refused [of ?r ed c now between c' now'] assms(1,3) le acc
    by (simp add: agent_serve_eq)
qed

text \<open>A concrete instance: an accepting signature library, one registered key, one request.\<close>

definition example_ed25519 :: ed25519_lib where
  "example_ed25519 =
     \<lparr>ed_decode64 = Some, ed_encode64 = (\<lambda>s. s), ed_key_ok = (\<lambda>_. True),
      ed_sign = (\<lambda>_ m. take 64 (m @ replicate 64 (CHR ''s''))), ed_verify = (\<lambda>_ m s. s = take 64 (m @ replicate 64 (CHR ''s'')))\<rparr>"

definition example_directory :: agent_directory where
  "example_directory =
     fst (register_agent_public_key (\<lambda>s. s)
       \<lparr>ad_agent_public_keys = [], ad_credentials = [], ad_project_permissions = []\<rparr>
       ''t'' ''p'' ''u'' ''a'' (''ed25519:'' @ replicate 32 (CHR ''k'')))"

definition example_workflow_request :: workflow_request where
  "example_workflow_request =
     \<lparr>wq_tenant = ''t'', wq_project = ''p'', wq_actor_user = None, wq_actor_agent = Some ''a'',
      wq_fingerprint = None,
      wq_signature = (case sign_agent_workflow_request example_ed25519
            (''ed25519:'' @ replicate 32 (CHR ''k''))
            \<lparr>aws_tenant = ''t'', aws_project = ''p'', aws_agent = ''a'', aws_request_kind = ''start_process'',
             aws_process = ''v'', aws_task = None\<rparr> ''d'' ''n'' 100 of
          Inl _ \<Rightarrow> None | Inr g \<Rightarrow> Some g),
      wq_payload_digest = Some ''d'', wq_request_kind = ''start_process'', wq_process = ''v'', wq_task = None\<rparr>"

theorem agent_request_never_replayed_witness:
  "let c = (example_directory, example_workflow_request, ''a'');
       r = fst (agent_accepts example_ed25519 c 90 replay_registry_default)
   in snd (agent_accepts example_ed25519 c 90 replay_registry_default)
    \<and> \<not> snd (agent_accepts example_ed25519 c 391 r)"
proof -
  let ?c = "(example_directory, example_workflow_request, ''a'')"
  have acc: "snd (agent_accepts example_ed25519 ?c 90 replay_registry_default)"
    by code_simp
  then have "\<not> snd (agent_accepts example_ed25519 ?c 391
      (fst (agent_accepts example_ed25519 ?c 90 replay_registry_default)))"
    using agent_request_never_replayed [of example_ed25519 ?c 90 "[]" "[]" 391 ?c]
    by (simp add: agent_serve_def)
  with acc show ?thesis by (simp add: Let_def)
qed

text \<open>
  Agent credential subjects are ambiguous: the agent \<open>x:a\<close> of project \<open>p\<close> and the agent \<open>a\<close>
  of project \<open>p:x\<close> have the same subject, so revoking the key of one removes the credential record
  of the other, whose key stays registered and unrevoked.
\<close>

theorem agent_subject_collision:
  "let d = fst (register_agent_public_key H
             \<lparr>ad_agent_public_keys = [], ad_credentials = [], ad_project_permissions = []\<rparr>
             ''t'' ''p'' ''u'' ''x:a'' k);
       d = fst (register_agent_public_key H d ''t'' ''p:x'' ''v'' ''a'' k')
   in \<exists>d' rec key. revoke_agent_public_key d \<lparr>ac_tenant = ''t'', ac_project = ''p:x'', ac_actor = User ''v''\<rparr> ''a''
          = Inr (d', rec)
      \<and> bget (ad_agent_public_keys d') (''t'', ''p'', ''x:a'') = Some key \<and> \<not> apk_revoked key
      \<and> bget (ad_credentials d') (agent_subject ''t'' ''p'' ''x:a'') = None"
  by (auto simp: register_agent_public_key_def revoke_agent_public_key_def agent_subject_def Let_def
      bmap_simps)

end
