(* ===== verification/CF_Limits.thy ===== *)
theory CF_Limits
  imports CF_Prelude
begin

text \<open>
  Resource limits, meters, the bounded log buffer and the task-argument budget
  (\<open>clusterflux-core/src/limits.rs\<close>). Counters are 64-bit words: the addition in
  \<open>ResourceMeter::charge\<close> is the plain \<open>+\<close> of a release build, which wraps, while the check
  before it saturates.
\<close>

section \<open>Limits and meters\<close>

datatype limit_kind = ApiCall | Spawn | LogBytes | MetadataBytes | DebugReadBytes | UiEvent

text \<open>The derived order of the enum is the order of its variants.\<close>

fun limit_kind_index :: "limit_kind \<Rightarrow> nat" where
  "limit_kind_index ApiCall = 0"
| "limit_kind_index Spawn = 1"
| "limit_kind_index LogBytes = 2"
| "limit_kind_index MetadataBytes = 3"
| "limit_kind_index DebugReadBytes = 4"
| "limit_kind_index UiEvent = 5"

lemma limit_kind_index_inj: "limit_kind_index a = limit_kind_index b \<longleftrightarrow> a = b"
  by (cases a; cases b) simp_all

instantiation limit_kind :: linorder
begin

definition less_eq_limit_kind :: "limit_kind \<Rightarrow> limit_kind \<Rightarrow> bool" where
  "a \<le> b \<longleftrightarrow> limit_kind_index a \<le> limit_kind_index b"

definition less_limit_kind :: "limit_kind \<Rightarrow> limit_kind \<Rightarrow> bool" where
  "a < b \<longleftrightarrow> limit_kind_index a < limit_kind_index b"

instance
  by standard
    (auto simp: less_eq_limit_kind_def less_limit_kind_def limit_kind_index_inj [symmetric])

end

definition limit_kind_all :: "limit_kind list" where
  "limit_kind_all = [ApiCall, Spawn, LogBytes, MetadataBytes, DebugReadBytes, UiEvent]"

record resource_limits =
  rl_limits :: "(limit_kind, u64) bmap"

definition resource_limits_new :: "(limit_kind \<times> u64) list \<Rightarrow> resource_limits" where
  "resource_limits_new ls = \<lparr>rl_limits = bcollect ls\<rparr>"

definition resource_limits_unlimited :: resource_limits where
  "resource_limits_unlimited = resource_limits_new (map (\<lambda>k. (k, u64_max)) limit_kind_all)"

definition limit_of :: "resource_limits \<Rightarrow> limit_kind \<Rightarrow> u64" where
  "limit_of rl kind = (case bget (rl_limits rl) kind of None \<Rightarrow> 0 | Some l \<Rightarrow> l)"

datatype limit_error =
    Exceeded (le_kind: limit_kind) (le_requested: u64) (le_used: u64) (le_limit: u64)
  | LargeTaskArgument (le_size: u64) (le_max: u64)

record resource_meter =
  rm_used :: "(limit_kind, u64) bmap"

definition resource_meter_default :: resource_meter where
  "resource_meter_default = \<lparr>rm_used = []\<rparr>"

definition meter_used :: "resource_meter \<Rightarrow> limit_kind \<Rightarrow> u64" where
  "meter_used m kind = (case bget (rm_used m) kind of None \<Rightarrow> 0 | Some u \<Rightarrow> u)"

definition meter_can_charge ::
  "resource_meter \<Rightarrow> resource_limits \<Rightarrow> limit_kind \<Rightarrow> u64 \<Rightarrow> limit_error + unit" where
  "meter_can_charge m rl kind amount =
     (let used = (case bget (rm_used m) kind of None \<Rightarrow> 0 | Some u \<Rightarrow> u);
          limit = limit_of rl kind
      in if sat_add used amount > limit then Inl (Exceeded kind amount used limit) else Inr ())"

definition meter_charge ::
  "resource_meter \<Rightarrow> resource_limits \<Rightarrow> limit_kind \<Rightarrow> u64 \<Rightarrow> limit_error + resource_meter" where
  "meter_charge m rl kind amount =
     (case meter_can_charge m rl kind amount of
        Inl e \<Rightarrow> Inl e
      | Inr _ \<Rightarrow>
          (let used = (case bget (rm_used m) kind of None \<Rightarrow> 0 | Some u \<Rightarrow> u)
           in Inr (m\<lparr>rm_used := binsert kind (used + amount) (rm_used m)\<rparr>)))"

lemma meter_charge_Inr:
  "meter_charge m rl kind amount = Inr m' \<longleftrightarrow>
     sat_add (meter_used m kind) amount \<le> limit_of rl kind
     \<and> m' = m\<lparr>rm_used := binsert kind (meter_used m kind + amount) (rm_used m)\<rparr>"
  by (auto simp: meter_charge_def meter_can_charge_def meter_used_def Let_def not_less
      split: if_splits)

lemma meter_used_binsert:
  "meter_used (m\<lparr>rm_used := binsert k v (rm_used m)\<rparr>) k' = (if k' = k then v else meter_used m k')"
  by (simp add: meter_used_def bmap_simps)

text \<open>Where the saturating sum is not clipped, the wrapping sum is exact.\<close>

lemma add_no_wrap:
  assumes "sat_add a b \<le> l" and "l \<noteq> u64_max"
  shows "unat (a + b) = unat a + unat b" and "a + b = sat_add a b"
proof -
  from assms(1) have "unat (sat_add a b) \<le> unat l"
    by (simp add: word_le_nat_alt)
  moreover have "unat l \<noteq> 2 ^ 64 - 1"
    using assms(2) unat_u64_max by (metis word_unat_eq_iff)
  ultimately have lt: "unat a + unat b < 2 ^ 64"
    using unat_lt_2_64 [of l] by (simp add: unat_sat_add)
  then show "unat (a + b) = unat a + unat b"
    by (simp add: unat_word_ariths)
  from lt show "a + b = sat_add a b"
    by (simp add: sat_add_def)
qed

lemma meter_charge_within:
  assumes "meter_charge m rl kind amount = Inr m'"
  shows "meter_used m' kind \<le> limit_of rl kind"
proof (cases "limit_of rl kind = u64_max")
  case False
  from assms have le: "sat_add (meter_used m kind) amount \<le> limit_of rl kind"
    and m': "m' = m\<lparr>rm_used := binsert kind (meter_used m kind + amount) (rm_used m)\<rparr>"
    by (simp_all add: meter_charge_Inr)
  from add_no_wrap(2) [OF le False] le show ?thesis
    by (simp add: m' meter_used_binsert)
qed simp

section \<open>Bounded log buffer and argument budget\<close>

record log_record =
  lr_task :: task_instance_id
  lr_bytes :: string
  lr_truncated :: bool

record log_buffer =
  lb_max_bytes :: nat
  lb_used_bytes :: nat
  lb_records :: "log_record list"
  lb_backpressured :: bool

definition log_buffer_new :: "nat \<Rightarrow> log_buffer" where
  "log_buffer_new max_bytes =
     \<lparr>lb_max_bytes = max_bytes, lb_used_bytes = 0, lb_records = [], lb_backpressured = False\<rparr>"

definition log_buffer_push :: "log_buffer \<Rightarrow> task_instance_id \<Rightarrow> string \<Rightarrow> log_buffer" where
  "log_buffer_push b task bytes =
     (let remaining = lb_max_bytes b - lb_used_bytes b;
          truncated = (length bytes > remaining);
          stored = take (min (length bytes) remaining) bytes
      in b\<lparr>lb_used_bytes := lb_used_bytes b + length stored,
           lb_backpressured := (if truncated then True else lb_backpressured b),
           lb_records := lb_records b @
             [\<lparr>lr_task = task, lr_bytes = stored, lr_truncated = truncated\<rparr>]\<rparr>)"

definition log_buffer_pushes :: "(task_instance_id \<times> string) list \<Rightarrow> log_buffer \<Rightarrow> log_buffer" where
  "log_buffer_pushes chunks b = fold (\<lambda>c b. log_buffer_push b (fst c) (snd c)) chunks b"

text \<open>What a buffer of a capacity holds of the chunks pushed so far.\<close>

definition log_buffer_holds :: "nat \<Rightarrow> (task_instance_id \<times> string) list \<Rightarrow> log_buffer \<Rightarrow> bool" where
  "log_buffer_holds max_bytes chunks b \<longleftrightarrow>
     (let pushed = concat (map snd chunks) in
      lb_max_bytes b = max_bytes
      \<and> concat (map lr_bytes (lb_records b)) = take max_bytes pushed
      \<and> lb_used_bytes b = min max_bytes (length pushed)
      \<and> list_all2 (\<lambda>(task, bytes) r. lr_task r = task \<and> lr_bytes r = take (length (lr_bytes r)) bytes
           \<and> (lr_truncated r \<longleftrightarrow> length (lr_bytes r) < length bytes)) chunks (lb_records b)
      \<and> (lb_backpressured b \<longleftrightarrow> length pushed > max_bytes))"

lemma log_buffer_holds_push:
  "log_buffer_holds max_bytes chunks b \<Longrightarrow> log_buffer_holds max_bytes (chunks @ [(task, bytes)]) (log_buffer_push b task bytes)"
  by (auto simp: log_buffer_holds_def log_buffer_push_def Let_def min_def not_less intro!: list_all2_appendI)

lemma log_buffer_holds_pushes: "log_buffer_holds max_bytes chunks (log_buffer_pushes chunks (log_buffer_new max_bytes))"
proof (induction chunks rule: rev_induct)
  case Nil
  show ?case by (simp add: log_buffer_holds_def log_buffer_pushes_def log_buffer_new_def)
next
  case (snoc c chunks)
  from log_buffer_holds_push [OF this, of "fst c" "snd c"] show ?case by (simp add: log_buffer_pushes_def)
qed

datatype large_argument_policy = AllowLarge | WarnLarge | RejectLarge

record task_argument_budget =
  tab_max_inline_bytes :: u64
  tab_policy :: large_argument_policy

definition budget_validate :: "task_argument_budget \<Rightarrow> u64 \<Rightarrow> limit_error + string option" where
  "budget_validate b sz =
     (if sz \<le> tab_max_inline_bytes b then Inr None
      else (case tab_policy b of
          AllowLarge \<Rightarrow> Inr None
        | WarnLarge \<Rightarrow> Inr (Some (''task argument is '' @ u64_to_string sz @
            '' bytes; prefer SourceSnapshot, Blob, Artifact, or VFS handles''))
        | RejectLarge \<Rightarrow> Inl (LargeTaskArgument sz (tab_max_inline_bytes b))))"

text \<open>
  C14. However many chunks are pushed, a log buffer created for \<open>max_bytes\<close> stores exactly the first
  \<open>max_bytes\<close> bytes of their concatenation and counts them exactly. There is one record for each chunk, with
  its task and a prefix of its bytes, marked truncated exactly when bytes of that chunk were lost; and
  back-pressure is reported exactly when the chunks together exceed the capacity.
\<close>

theorem log_buffer_bounded:
  "let b = log_buffer_pushes chunks (log_buffer_new max_bytes); pushed = concat (map snd chunks)
   in concat (map lr_bytes (lb_records b)) = take max_bytes pushed
    \<and> lb_used_bytes b = min max_bytes (length pushed)
    \<and> list_all2 (\<lambda>(task, bytes) r. lr_task r = task \<and> lr_bytes r = take (length (lr_bytes r)) bytes
         \<and> (lr_truncated r \<longleftrightarrow> length (lr_bytes r) < length bytes)) chunks (lb_records b)
    \<and> (lb_backpressured b \<longleftrightarrow> length pushed > max_bytes)"
  using log_buffer_holds_pushes [of max_bytes chunks] by (simp add: log_buffer_holds_def Let_def)

end
