(* ===== verification/CF_Quota.thy ===== *)
theory CF_Quota
  imports CF_Limits
begin

text \<open>
  The coordinator's quota (\<open>clusterflux-coordinator/src/service/quota.rs\<close>): admission limits per tenant and
  one resource meter per tenant, project, limit kind and time window. A charge first drops
  the meters of the same scope and kind that belong to other windows, then charges the
  meter of the current window; the pruning and the creation of the meter happen even when
  the charge is refused, so \<open>quota_charge\<close> returns the new state beside its result.
\<close>

section \<open>Configuration and admission\<close>

record admission_quota_limits =
  aql_max_projects :: u64
  aql_max_nodes :: u64
  aql_max_active_processes :: u64

record tenant_quota_override_values =
  tqo_max_projects :: "u64 option"
  tqo_max_nodes :: "u64 option"
  tqo_max_active_processes :: "u64 option"

record quota_configuration =
  qc_limits :: resource_limits
  qc_window_seconds :: "(limit_kind, u64) bmap"
  qc_policy_label :: "string option"
  qc_max_projects_per_tenant :: nat
  qc_max_nodes_per_tenant :: nat
  qc_max_active_processes_per_tenant :: nat

definition quota_configuration_new ::
  "resource_limits \<Rightarrow> (limit_kind \<times> u64) list \<Rightarrow> string + quota_configuration" where
  "quota_configuration_new rl windows =
     (let ws = bcollect windows
      in if list_ex (\<lambda>s. s = 0) (bvalues ws)
         then Inl ''quota windows must be at least one second''
         else Inr \<lparr>qc_limits = rl, qc_window_seconds = ws, qc_policy_label = None,
                   qc_max_projects_per_tenant = usize_max,
                   qc_max_nodes_per_tenant = usize_max,
                   qc_max_active_processes_per_tenant = usize_max\<rparr>)"

definition with_policy_label :: "quota_configuration \<Rightarrow> string \<Rightarrow> quota_configuration" where
  "with_policy_label c label =
     c\<lparr>qc_policy_label := (if \<not> str_is_blank label then Some label else None)\<rparr>"

definition with_admission_limits ::
  "quota_configuration \<Rightarrow> nat \<Rightarrow> nat \<Rightarrow> nat \<Rightarrow> quota_configuration" where
  "with_admission_limits c projects nodes processes =
     c\<lparr>qc_max_projects_per_tenant := projects, qc_max_nodes_per_tenant := nodes,
       qc_max_active_processes_per_tenant := processes\<rparr>"

definition quota_configuration_unlimited :: quota_configuration where
  "quota_configuration_unlimited =
     \<lparr>qc_limits = resource_limits_unlimited,
      qc_window_seconds = bcollect (map (\<lambda>k. (k, u64_max)) limit_kind_all),
      qc_policy_label = None,
      qc_max_projects_per_tenant = usize_max,
      qc_max_nodes_per_tenant = usize_max,
      qc_max_active_processes_per_tenant = usize_max\<rparr>"

definition window_seconds :: "quota_configuration \<Rightarrow> limit_kind \<Rightarrow> u64" where
  "window_seconds c kind =
     max (case bget (qc_window_seconds c) kind of None \<Rightarrow> u64_max | Some s \<Rightarrow> s) 1"

lemma window_seconds_pos: "0 < window_seconds c kind"
  by (simp add: window_seconds_def less_max_iff_disj)

type_synonym project_quota_scope = "tenant_id \<times> project_id"
type_synonym meter_key = "project_quota_scope \<times> limit_kind \<times> u64"

record coordinator_quota =
  cq_configuration :: quota_configuration
  cq_meters :: "(meter_key, resource_meter) bmap"

definition coordinator_quota_new :: "quota_configuration \<Rightarrow> coordinator_quota" where
  "coordinator_quota_new c = \<lparr>cq_configuration = c, cq_meters = []\<rparr>"

definition default_admission_limits :: "coordinator_quota \<Rightarrow> admission_quota_limits" where
  "default_admission_limits q =
     \<lparr>aql_max_projects = u64_of_len (qc_max_projects_per_tenant (cq_configuration q)),
      aql_max_nodes = u64_of_len (qc_max_nodes_per_tenant (cq_configuration q)),
      aql_max_active_processes =
        u64_of_len (qc_max_active_processes_per_tenant (cq_configuration q))\<rparr>"

definition effective_admission_limits ::
  "coordinator_quota \<Rightarrow> tenant_quota_override_values option \<Rightarrow> admission_quota_limits" where
  "effective_admission_limits q ov =
     (let d = default_admission_limits q
      in \<lparr>aql_max_projects =
            (case Option.bind ov tqo_max_projects of None \<Rightarrow> aql_max_projects d | Some n \<Rightarrow> n),
          aql_max_nodes =
            (case Option.bind ov tqo_max_nodes of None \<Rightarrow> aql_max_nodes d | Some n \<Rightarrow> n),
          aql_max_active_processes =
            (case Option.bind ov tqo_max_active_processes of
               None \<Rightarrow> aql_max_active_processes d | Some n \<Rightarrow> n)\<rparr>)"

datatype quota_error =
    ProjectQuota (qe_current: u64) (qe_maximum: u64)
  | NodeIdentityQuota (qe_current: u64) (qe_maximum: u64)
  | ActiveProcessQuota (qe_current: u64) (qe_maximum: u64)

definition ensure_project_admission ::
  "coordinator_quota \<Rightarrow> nat \<Rightarrow> tenant_quota_override_values option \<Rightarrow> quota_error + unit" where
  "ensure_project_admission q current ov =
     (let maximum = aql_max_projects (effective_admission_limits q ov)
      in if u64_of_len current \<ge> maximum
         then Inl (ProjectQuota (u64_of_len current) maximum) else Inr ())"

definition ensure_node_admission ::
  "coordinator_quota \<Rightarrow> nat \<Rightarrow> tenant_quota_override_values option \<Rightarrow> quota_error + unit" where
  "ensure_node_admission q current ov =
     (let maximum = aql_max_nodes (effective_admission_limits q ov)
      in if u64_of_len current \<ge> maximum
         then Inl (NodeIdentityQuota (u64_of_len current) maximum) else Inr ())"

definition ensure_process_admission ::
  "coordinator_quota \<Rightarrow> nat \<Rightarrow> tenant_quota_override_values option \<Rightarrow> quota_error + unit" where
  "ensure_process_admission q current ov =
     (let maximum = aql_max_active_processes (effective_admission_limits q ov)
      in if u64_of_len current \<ge> maximum
         then Inl (ActiveProcessQuota (u64_of_len current) maximum) else Inr ())"

section \<open>Windowed meters\<close>

definition quota_key ::
  "coordinator_quota \<Rightarrow> tenant_id \<Rightarrow> project_id \<Rightarrow> limit_kind \<Rightarrow> u64 \<Rightarrow> meter_key" where
  "quota_key q tenant project kind now =
     ((tenant, project), kind, now div window_seconds (cq_configuration q) kind)"

definition quota_meter ::
  "coordinator_quota \<Rightarrow> tenant_id \<Rightarrow> project_id \<Rightarrow> limit_kind \<Rightarrow> u64 \<Rightarrow> resource_meter option" where
  "quota_meter q tenant project kind now =
     bget (cq_meters q) (quota_key q tenant project kind now)"

text \<open>The state after \<open>meter_mut\<close>: stale windows dropped, the current meter present.\<close>

definition quota_meter_mut ::
  "coordinator_quota \<Rightarrow> tenant_id \<Rightarrow> project_id \<Rightarrow> limit_kind \<Rightarrow> u64
     \<Rightarrow> coordinator_quota \<times> resource_meter" where
  "quota_meter_mut q tenant project kind now =
     (let key = quota_key q tenant project kind now;
          ms = bretain (\<lambda>e _. fst e \<noteq> fst key \<or> fst (snd e) \<noteq> kind \<or> snd (snd e) = snd (snd key))
                 (cq_meters q);
          meter = (case bget ms key of None \<Rightarrow> resource_meter_default | Some m \<Rightarrow> m)
      in (q\<lparr>cq_meters := binsert key meter ms\<rparr>, meter))"

definition quota_can_charge ::
  "coordinator_quota \<Rightarrow> tenant_id \<Rightarrow> project_id \<Rightarrow> limit_kind \<Rightarrow> u64 \<Rightarrow> u64 \<Rightarrow> limit_error + unit" where
  "quota_can_charge q tenant project kind amount now =
     meter_can_charge
       (case quota_meter q tenant project kind now of
          None \<Rightarrow> resource_meter_default | Some m \<Rightarrow> m)
       (qc_limits (cq_configuration q)) kind amount"

definition quota_charge ::
  "coordinator_quota \<Rightarrow> tenant_id \<Rightarrow> project_id \<Rightarrow> limit_kind \<Rightarrow> u64 \<Rightarrow> u64
     \<Rightarrow> coordinator_quota \<times> (limit_error + u64)" where
  "quota_charge q tenant project kind amount now =
     (let rl = qc_limits (cq_configuration q);
          (q', meter) = quota_meter_mut q tenant project kind now
      in case meter_charge meter rl kind amount of
           Inl e \<Rightarrow> (q', Inl e)
         | Inr meter' \<Rightarrow>
             (q'\<lparr>cq_meters := binsert (quota_key q tenant project kind now) meter' (cq_meters q')\<rparr>,
              Inr (meter_used meter' kind)))"

definition quota_used ::
  "coordinator_quota \<Rightarrow> tenant_id \<Rightarrow> project_id \<Rightarrow> limit_kind \<Rightarrow> u64 \<Rightarrow> u64" where
  "quota_used q tenant project kind now =
     (case quota_meter q tenant project kind now of None \<Rightarrow> 0 | Some m \<Rightarrow> meter_used m kind)"

definition can_charge_workflow_spawn ::
  "coordinator_quota \<Rightarrow> tenant_id \<Rightarrow> project_id \<Rightarrow> u64 \<Rightarrow> limit_error + unit" where
  "can_charge_workflow_spawn q tenant project now = quota_can_charge q tenant project Spawn 1 now"

definition charge_api_call ::
  "coordinator_quota \<Rightarrow> tenant_id \<Rightarrow> project_id \<Rightarrow> u64 \<Rightarrow> coordinator_quota \<times> (limit_error + u64)" where
  "charge_api_call q tenant project now = quota_charge q tenant project ApiCall 1 now"

definition charge_log_bytes ::
  "coordinator_quota \<Rightarrow> tenant_id \<Rightarrow> project_id \<Rightarrow> u64 \<Rightarrow> u64 \<Rightarrow> coordinator_quota \<times> (limit_error + u64)" where
  "charge_log_bytes q tenant project bytes now = quota_charge q tenant project LogBytes bytes now"

definition charge_workflow_spawn ::
  "coordinator_quota \<Rightarrow> tenant_id \<Rightarrow> project_id \<Rightarrow> u64 \<Rightarrow> coordinator_quota \<times> (limit_error + u64)" where
  "charge_workflow_spawn q tenant project now = quota_charge q tenant project Spawn 1 now"

definition charge_debug_read ::
  "coordinator_quota \<Rightarrow> tenant_id \<Rightarrow> project_id \<Rightarrow> u64 \<Rightarrow> u64 \<Rightarrow> coordinator_quota \<times> (limit_error + u64)" where
  "charge_debug_read q tenant project bytes now =
     quota_charge q tenant project DebugReadBytes bytes now"

definition used_debug_read_bytes ::
  "coordinator_quota \<Rightarrow> tenant_id \<Rightarrow> project_id \<Rightarrow> u64 \<Rightarrow> u64" where
  "used_debug_read_bytes q tenant project now = quota_used q tenant project DebugReadBytes now"

record quota_status =
  qs_policy_label :: "string option"
  qs_limits :: resource_limits
  qs_window_seconds :: "(limit_kind, u64) bmap"
  qs_usage :: "(limit_kind, u64) bmap"
  qs_window_started_epoch_seconds :: "(limit_kind, u64) bmap"

definition sat_mul :: "u64 \<Rightarrow> u64 \<Rightarrow> u64" where
  "sat_mul a b = (if unat a * unat b < 2 ^ 64 then a * b else u64_max)"

definition project_status :: "coordinator_quota \<Rightarrow> tenant_id \<Rightarrow> project_id \<Rightarrow> u64 \<Rightarrow> quota_status" where
  "project_status q tenant project now =
     \<lparr>qs_policy_label = qc_policy_label (cq_configuration q),
      qs_limits = qc_limits (cq_configuration q),
      qs_window_seconds = qc_window_seconds (cq_configuration q),
      qs_usage = bcollect (map (\<lambda>k. (k, quota_used q tenant project k now)) limit_kind_all),
      qs_window_started_epoch_seconds =
        bcollect (map (\<lambda>k. (k, sat_mul (now div window_seconds (cq_configuration q) k)
                                 (window_seconds (cq_configuration q) k))) limit_kind_all)\<rparr>"

section \<open>Invariant of the meters\<close>

text \<open>
  Well formed: the map is ordered, and no meter of a kind has used more than that kind's
  limit. Every charge keeps it, whatever its result.
\<close>

definition quota_ok :: "coordinator_quota \<Rightarrow> bool" where
  "quota_ok q \<longleftrightarrow> bwf (cq_meters q) \<and>
     (\<forall>scope kind window meter. bget (cq_meters q) (scope, kind, window) = Some meter \<longrightarrow>
        meter_used meter kind \<le> limit_of (qc_limits (cq_configuration q)) kind)"

lemma quota_ok_new: "quota_ok (coordinator_quota_new c)"
  by (simp add: quota_ok_def coordinator_quota_new_def)

lemma meter_used_default [simp]: "meter_used resource_meter_default k = 0"
  by (simp add: meter_used_def resource_meter_default_def)

lemma quota_meter_mut_result:
  assumes "bwf (cq_meters q)"
  shows "snd (quota_meter_mut q t p k now)
    = (case quota_meter q t p k now of None \<Rightarrow> resource_meter_default | Some m \<Rightarrow> m)"
  using assms
  by (simp add: quota_meter_mut_def quota_meter_def Let_def bmap_simps quota_key_def
      split: option.split)

lemma quota_meter_mut_config [simp]:
  "cq_configuration (fst (quota_meter_mut q t p k now)) = cq_configuration q"
  by (simp add: quota_meter_mut_def Let_def)

lemma quota_meter_mut_lookup:
  assumes "bwf (cq_meters q)"
  shows "bget (cq_meters (fst (quota_meter_mut q t p k now))) ((t', p'), k', w) =
    (if (t', p') = (t, p) \<and> k' = k
     then if w = now div window_seconds (cq_configuration q) k
          then Some (snd (quota_meter_mut q t p k now)) else None
     else bget (cq_meters q) ((t', p'), k', w))"
  using assms
  by (auto simp: quota_meter_mut_def Let_def bmap_simps quota_key_def split: option.split)

lemma quota_ok_meter_mut:
  assumes ok: "quota_ok q"
  shows "quota_ok (fst (quota_meter_mut q t p k now))"
    and "meter_used (snd (quota_meter_mut q t p k now)) k \<le> limit_of (qc_limits (cq_configuration q)) k"
proof -
  from ok have wf: "bwf (cq_meters q)" by (simp add: quota_ok_def)
  show le: "meter_used (snd (quota_meter_mut q t p k now)) k \<le> limit_of (qc_limits (cq_configuration q)) k"
    using ok by (auto simp: quota_meter_mut_result [OF wf] quota_meter_def quota_key_def quota_ok_def
        split: option.split)
  have "bwf (cq_meters (fst (quota_meter_mut q t p k now)))"
    using wf by (simp add: quota_meter_mut_def Let_def)
  moreover have "meter_used meter kind \<le> limit_of (qc_limits (cq_configuration q)) kind"
    if "bget (cq_meters (fst (quota_meter_mut q t p k now))) (scope, kind, window) = Some meter"
    for scope kind window meter
    using that ok le
    by (cases scope) (auto simp: quota_meter_mut_lookup [OF wf] quota_ok_def split: if_splits)
  ultimately show "quota_ok (fst (quota_meter_mut q t p k now))"
    by (simp add: quota_ok_def)
qed

lemma quota_ok_binsert:
  assumes "quota_ok q" and "meter_used meter kind \<le> limit_of (qc_limits (cq_configuration q)) kind"
  shows "quota_ok (q\<lparr>cq_meters := binsert (scope, kind, window) meter (cq_meters q)\<rparr>)"
  using assms by (auto simp: quota_ok_def bmap_simps)

lemma quota_charge_config [simp]:
  "cq_configuration (fst (quota_charge q t p k a now)) = cq_configuration q"
  by (auto simp: quota_charge_def Let_def case_prod_unfold split: sum.split)

lemma quota_ok_charge:
  assumes ok: "quota_ok q"
  shows "quota_ok (fst (quota_charge q t p k a now))"
proof -
  obtain q' meter where mm: "quota_meter_mut q t p k now = (q', meter)" by fastforce
  from quota_ok_meter_mut(1) [OF ok, of t p k now] have ok': "quota_ok q'" by (simp add: mm)
  have cfg: "cq_configuration q' = cq_configuration q"
    using quota_meter_mut_config [of q t p k now] by (simp add: mm)
  show ?thesis
  proof (cases "meter_charge meter (qc_limits (cq_configuration q)) k a")
    case (Inl e)
    with ok' mm show ?thesis by (simp add: quota_charge_def)
  next
    case (Inr meter')
    then have "meter_used meter' k \<le> limit_of (qc_limits (cq_configuration q')) k"
      using meter_charge_within cfg by metis
    from quota_ok_binsert [OF ok' this] Inr mm show ?thesis
      by (simp add: quota_charge_def quota_key_def)
  qed
qed

text \<open>A history of charges: tenant, project, kind, amount and the clock at each.\<close>

type_synonym quota_event = "tenant_id \<times> project_id \<times> limit_kind \<times> u64 \<times> u64"

definition quota_run :: "quota_event list \<Rightarrow> coordinator_quota \<Rightarrow> coordinator_quota" where
  "quota_run es q = fold (\<lambda>(t, p, k, a, now) q. fst (quota_charge q t p k a now)) es q"

lemma quota_run_ok: "quota_ok q \<Longrightarrow> quota_ok (quota_run es q)"
  unfolding quota_run_def by (induction es arbitrary: q) (auto simp: quota_ok_charge)

lemma quota_run_config [simp]: "cq_configuration (quota_run es q) = cq_configuration q"
  unfolding quota_run_def by (induction es arbitrary: q) auto

lemma quota_used_le:
  "quota_ok q \<Longrightarrow> quota_used q t p k now \<le> limit_of (qc_limits (cq_configuration q)) k"
  by (auto simp: quota_used_def quota_meter_def quota_key_def quota_ok_def split: option.split)

text \<open>
  C10. After any history of charges, by any tenants and projects and at any clock readings, the
  usage the coordinator reports for a project, kind and instant never exceeds the
  configured limit of that kind.
\<close>

theorem quota_never_exceeded:
  "quota_used (quota_run es (coordinator_quota_new c)) tenant project kind now
     \<le> limit_of (qc_limits c) kind"
  using quota_used_le [OF quota_run_ok [OF quota_ok_new]]
  by (simp add: coordinator_quota_new_def)

lemma quota_charge_used:
  assumes wf: "bwf (cq_meters q)" and res: "snd (quota_charge q t p k a now) = Inr u"
  shows "u = quota_used q t p k now + a"
    and "limit_of (qc_limits (cq_configuration q)) k \<noteq> u64_max \<Longrightarrow> unat u = unat (quota_used q t p k now) + unat a"
    and "quota_used (fst (quota_charge q t p k a now)) t p k now = u"
proof -
  obtain q' meter where mm: "quota_meter_mut q t p k now = (q', meter)" by fastforce
  have meter: "meter = (case quota_meter q t p k now of None \<Rightarrow> resource_meter_default | Some m \<Rightarrow> m)"
    using quota_meter_mut_result [OF wf, of t p k now] by (simp add: mm)
  then have used: "meter_used meter k = quota_used q t p k now"
    by (simp add: quota_used_def split: option.split)
  from res mm obtain meter' where ch: "meter_charge meter (qc_limits (cq_configuration q)) k a = Inr meter'"
    and u: "u = meter_used meter' k"
    by (auto simp: quota_charge_def split: sum.splits)
  from ch have sat: "sat_add (meter_used meter k) a \<le> limit_of (qc_limits (cq_configuration q)) k"
    and m': "meter' = meter\<lparr>rm_used := binsert k (meter_used meter k + a) (rm_used meter)\<rparr>"
    by (simp_all add: meter_charge_Inr)
  show "u = quota_used q t p k now + a" by (simp add: u m' meter_used_binsert used)
  then show "unat u = unat (quota_used q t p k now) + unat a"
    if "limit_of (qc_limits (cq_configuration q)) k \<noteq> u64_max"
    using add_no_wrap(1) [OF sat that] by (simp add: used)
  show "quota_used (fst (quota_charge q t p k a now)) t p k now = u"
    using mm ch u quota_meter_mut_config [of q t p k now]
    by (simp add: quota_charge_def quota_used_def quota_meter_def quota_key_def bmap_simps)
qed

text \<open>A refused charge names what it would have exceeded and leaves the usage as it was.\<close>

lemma quota_charge_refused:
  assumes wf: "bwf (cq_meters q)" and res: "snd (quota_charge q t p k a now) = Inl e"
  shows "e = Exceeded k a (quota_used q t p k now) (limit_of (qc_limits (cq_configuration q)) k)"
    and "quota_used (fst (quota_charge q t p k a now)) t p k now = quota_used q t p k now"
proof -
  obtain q' meter where mm: "quota_meter_mut q t p k now = (q', meter)" by fastforce
  have meter: "meter = (case quota_meter q t p k now of None \<Rightarrow> resource_meter_default | Some m \<Rightarrow> m)"
    using quota_meter_mut_result [OF wf, of t p k now] by (simp add: mm)
  then have used: "meter_used meter k = quota_used q t p k now"
    by (simp add: quota_used_def split: option.split)
  from res mm have ch: "meter_charge meter (qc_limits (cq_configuration q)) k a = Inl e"
    by (auto simp: quota_charge_def split: sum.splits)
  then show "e = Exceeded k a (quota_used q t p k now) (limit_of (qc_limits (cq_configuration q)) k)"
    by (auto simp: meter_charge_def meter_can_charge_def used [symmetric] meter_used_def Let_def split: if_splits sum.splits)
  show "quota_used (fst (quota_charge q t p k a now)) t p k now = quota_used q t p k now"
    using mm ch used quota_meter_mut_config [of q t p k now]
      quota_meter_mut_lookup [OF wf, of t p k now t p k "now div window_seconds (cq_configuration q) k"]
    by (simp add: quota_charge_def quota_used_def quota_meter_def quota_key_def)
qed

lemma quota_charge_other:
  assumes wf: "bwf (cq_meters q)" and other: "(t', p', k') \<noteq> (t, p, k)"
  shows "quota_used (fst (quota_charge q t p k a now)) t' p' k' now' = quota_used q t' p' k' now'"
proof -
  obtain q' meter where mm: "quota_meter_mut q t p k now = (q', meter)" by fastforce
  have "bget (cq_meters (fst (quota_charge q t p k a now))) ((t', p'), k', w)
      = bget (cq_meters q) ((t', p'), k', w)" for w
    using other quota_meter_mut_lookup [OF wf, of t p k now t' p' k' w] mm
    by (auto simp: quota_charge_def quota_key_def bmap_simps split: sum.split)
  then show ?thesis
    by (simp add: quota_used_def quota_meter_def quota_key_def)
qed

lemma quota_charge_result:
  assumes "bwf (cq_meters q)"
  shows "(\<exists>u. snd (quota_charge q t p k a now) = Inr u) \<longleftrightarrow> quota_can_charge q t p k a now = Inr ()"
  using quota_meter_mut_result [OF assms, of t p k now]
  by (auto simp: quota_charge_def quota_can_charge_def meter_charge_def Let_def case_prod_unfold
      split: sum.splits)


text \<open>The unlimited configuration lets the usage wrap.\<close>

lemma unlimited_charge_wraps:
  "let q = fst (quota_charge (coordinator_quota_new quota_configuration_unlimited) ''t'' ''p'' Spawn u64_max 0)
   in quota_used q ''t'' ''p'' Spawn 0 = u64_max \<and> snd (quota_charge q ''t'' ''p'' Spawn 1 0) = Inr 0"
  by code_simp


end
