(* ===== verification/CF_Coordinator.thy ===== *)
theory CF_Coordinator
  imports CF_Replay CF_Quota
begin

text \<open>
  The coordinator proper (\<open>clusterflux-coordinator/src/lib.rs\<close>, \<open>sessions.rs\<close> and
  the records of \<open>durable.rs\<close>): tenants, users, projects, node identities, credentials,
  CLI sessions, account policy, quota overrides with their audit trail, and the virtual
  processes active in memory. The collections that agents use are the \<open>agent_directory\<close>
  of \<open>CF_Replay\<close>; the assignment authority is in \<open>CF_Assignments\<close>. The clock is an
  argument \<open>now\<close> of the operations that read it.
\<close>

section \<open>Records\<close>

record tenant_record =
  tn_id :: tenant_id

record user_record =
  us_id :: user_id
  us_tenant :: tenant_id
  us_credential_kind :: credential_kind

record project_record =
  pj_id :: project_id
  pj_tenant :: tenant_id
  pj_name :: string

record node_identity_record =
  ni_id :: node_id
  ni_tenant :: tenant_id
  ni_project :: project_id
  ni_public_key :: string
  ni_enrollment_scope :: string
  ni_last_seen :: "u64 option"

record cli_session_record =
  cs_session_digest :: digest
  cs_tenant :: tenant_id
  cs_project :: project_id
  cs_user :: user_id
  cs_credential_kind :: credential_kind
  cs_expires_at :: "u64 option"
  cs_revoked :: bool

datatype source_provider_kind = Filesystem | Git | CustomProvider string

fun provider_id :: "source_provider_kind \<Rightarrow> string" where
  "provider_id Filesystem = ''filesystem''"
| "provider_id Git = ''git''"
| "provider_id (CustomProvider p) = p"

record source_provider_config_record =
  sp_tenant :: tenant_id
  sp_project :: project_id
  sp_provider :: source_provider_kind
  sp_manifest_digest :: digest

record service_policy_record =
  sv_tenant :: tenant_id
  sv_name :: string
  sv_digest :: digest

record account_policy_state =
  ap_account_status :: string
  ap_suspended :: bool
  ap_disabled :: bool
  ap_deleted :: bool
  ap_manual_review :: bool
  ap_sanitized_reason :: "string option"
  ap_next_actions :: "string list"

record tenant_quota_override_record =
  qo_tenant :: tenant_id
  qo_values :: tenant_quota_override_values
  qo_updated_at :: u64
  qo_operator :: user_id

record hosted_admin_audit_record =
  au_sequence :: u64
  au_tenant :: tenant_id
  au_action :: string
  au_old_override :: "tenant_quota_override_values option"
  au_new_override :: "tenant_quota_override_values option"
  au_operator :: user_id
  au_occurred_at :: u64

record hosted_admin_state =
  ha_overrides :: "(tenant_id, tenant_quota_override_record) bmap"
  ha_audit :: "hosted_admin_audit_record list"
  ha_next_sequence :: u64

record active_process =
  ap_id :: process_id
  ap_launch_attempt :: "string option"
  ap_tenant :: tenant_id
  ap_project :: project_id
  ap_connected_nodes :: "node_id bset"
  ap_epoch :: u64

record durable_state =
  du_tenants :: "(tenant_id, tenant_record) bmap"
  du_users :: "(user_id, user_record) bmap"
  du_projects :: "(project_id, project_record) bmap"
  du_node_identities :: "(node_scope_key, node_identity_record) bmap"
  du_cli_sessions :: "(digest, cli_session_record) bmap"
  du_source_provider_configs :: "(tenant_id \<times> project_id \<times> string, source_provider_config_record) bmap"
  du_service_policy_records :: "(tenant_id \<times> string, service_policy_record) bmap"
  du_directory :: agent_directory
  du_hosted_admin :: hosted_admin_state

record coordinator =
  co_durable :: durable_state
  co_active_processes :: "(tenant_id \<times> project_id \<times> process_id, active_process) bmap"
  co_epoch :: u64

definition max_tenant_quota_overrides :: nat where
  "max_tenant_quota_overrides = 100000"

definition max_hosted_admin_audit_records :: nat where
  "max_hosted_admin_audit_records = 10000"

text \<open>\<open>Coordinator::boot\<close>: the durable state is loaded, no process is active.\<close>

definition boot :: "durable_state \<Rightarrow> u64 \<Rightarrow> coordinator" where
  "boot stored epoch = \<lparr>co_durable = stored, co_active_processes = [], co_epoch = epoch\<rparr>"

section \<open>Tenants, users, projects\<close>

abbreviation update_durable :: "(durable_state \<Rightarrow> durable_state) \<Rightarrow> coordinator \<Rightarrow> coordinator" where
  "update_durable f c \<equiv> c\<lparr>co_durable := f (co_durable c)\<rparr>"

definition upsert_tenant :: "coordinator \<Rightarrow> tenant_id \<Rightarrow> coordinator" where
  "upsert_tenant c tenant =
     update_durable (\<lambda>d. d\<lparr>du_tenants := binsert tenant \<lparr>tn_id = tenant\<rparr> (du_tenants d)\<rparr>) c"

definition upsert_user :: "coordinator \<Rightarrow> tenant_id \<Rightarrow> user_id \<Rightarrow> credential_kind \<Rightarrow> coordinator" where
  "upsert_user c tenant user kind =
     update_durable (\<lambda>d. d\<lparr>du_users := binsert user
        \<lparr>us_id = user, us_tenant = tenant, us_credential_kind = kind\<rparr> (du_users d)\<rparr>) c"

definition upsert_project :: "coordinator \<Rightarrow> tenant_id \<Rightarrow> project_id \<Rightarrow> string \<Rightarrow> coordinator" where
  "upsert_project c tenant project name =
     update_durable (\<lambda>d. d\<lparr>du_projects := binsert project
        \<lparr>pj_id = project, pj_tenant = tenant, pj_name = name\<rparr> (du_projects d)\<rparr>) c"

definition get_project :: "coordinator \<Rightarrow> project_id \<Rightarrow> project_record option" where
  "get_project c project = bget (du_projects (co_durable c)) project"

definition list_projects :: "coordinator \<Rightarrow> auth_context \<Rightarrow> project_record list" where
  "list_projects c context =
     filter (\<lambda>p. pj_tenant p = ac_tenant context) (bvalues (du_projects (co_durable c)))"

definition project_count_for_tenant :: "coordinator \<Rightarrow> tenant_id \<Rightarrow> nat" where
  "project_count_for_tenant c tenant =
     length (filter (\<lambda>p. pj_tenant p = tenant) (bvalues (du_projects (co_durable c))))"

definition co_grant_project_debug ::
  "coordinator \<Rightarrow> tenant_id \<Rightarrow> project_id \<Rightarrow> user_id \<Rightarrow> coordinator" where
  "co_grant_project_debug c tenant project user =
     update_durable (\<lambda>d. d\<lparr>du_directory := grant_project_debug (du_directory d) tenant project user\<rparr>) c"

text \<open>
  \<open>format!("{provider:?}")\<close>: the derived \<open>Debug\<close> of the provider kind. The text of a custom
  provider is quoted and its ASCII characters escaped as \<open>str\<close>'s \<open>Debug\<close> does; bytes of
  other characters are kept.
\<close>

definition hex_digits :: "nat \<Rightarrow> string" where
  "hex_digits n = (let h = (\<lambda>d. if d < 10 then digit_char d else char_of (87 + d))
                   in if n < 16 then [h n] else [h (n div 16), h (n mod 16)])"

definition debug_char :: "char \<Rightarrow> string" where
  "debug_char ch =
     (let n = of_char ch :: nat
      in if n = 0 then [char_of (92::nat), CHR ''0'']
         else if n = 9 then [char_of (92::nat), CHR ''t'']
         else if n = 10 then [char_of (92::nat), CHR ''n'']
         else if n = 13 then [char_of (92::nat), CHR ''r'']
         else if n = 34 \<or> n = 92 then [char_of (92::nat), ch]
         else if n < 32 \<or> n = 127 then char_of (92::nat) # ''u{'' @ hex_digits n @ ''}''
         else [ch])"

definition debug_str :: "string \<Rightarrow> string" where
  "debug_str s = char_of (34::nat) # concat (map debug_char s) @ [char_of (34::nat)]"

fun provider_debug :: "source_provider_kind \<Rightarrow> string" where
  "provider_debug Filesystem = ''Filesystem''"
| "provider_debug Git = ''Git''"
| "provider_debug (CustomProvider p) = ''Custom('' @ debug_str p @ '')''"

definition upsert_source_provider_config ::
  "coordinator \<Rightarrow> tenant_id \<Rightarrow> project_id \<Rightarrow> source_provider_kind \<Rightarrow> digest \<Rightarrow> coordinator" where
  "upsert_source_provider_config c tenant project provider manifest_digest =
     update_durable (\<lambda>d. d\<lparr>du_source_provider_configs :=
        binsert (tenant, project, provider_debug provider)
          \<lparr>sp_tenant = tenant, sp_project = project, sp_provider = provider,
           sp_manifest_digest = manifest_digest\<rparr> (du_source_provider_configs d)\<rparr>) c"

definition source_provider_config ::
  "coordinator \<Rightarrow> tenant_id \<Rightarrow> project_id \<Rightarrow> string \<Rightarrow> source_provider_config_record option" where
  "source_provider_config c tenant project provider =
     bget (du_source_provider_configs (co_durable c)) (tenant, project, provider)"

section \<open>Account policy\<close>

definition upsert_service_policy_record ::
  "coordinator \<Rightarrow> tenant_id \<Rightarrow> string \<Rightarrow> digest \<Rightarrow> coordinator" where
  "upsert_service_policy_record c tenant name dg =
     update_durable (\<lambda>d. d\<lparr>du_service_policy_records := binsert (tenant, name)
        \<lparr>sv_tenant = tenant, sv_name = name, sv_digest = dg\<rparr> (du_service_policy_records d)\<rparr>) c"

definition get_service_policy_record ::
  "coordinator \<Rightarrow> tenant_id \<Rightarrow> string \<Rightarrow> service_policy_record option" where
  "get_service_policy_record c tenant name =
     bget (du_service_policy_records (co_durable c)) (tenant, name)"

text \<open>\<open>suspend_tenant\<close> returns the record it has just inserted; \<open>None\<close> would be its \<open>expect\<close>.\<close>

definition suspend_tenant ::
  "sha256_fn \<Rightarrow> coordinator \<Rightarrow> tenant_id \<Rightarrow> user_id \<Rightarrow> coordinator \<times> service_policy_record option" where
  "suspend_tenant sha256_hex c tenant actor =
     (let c = upsert_tenant c tenant;
          name = ''tenant:suspended'';
          dg = digest_from_parts sha256_hex [''tenant-suspension:v1'', tenant, actor];
          c = upsert_service_policy_record c tenant name dg
      in (c, get_service_policy_record c tenant name))"

definition resume_tenant :: "coordinator \<Rightarrow> tenant_id \<Rightarrow> coordinator \<times> bool" where
  "resume_tenant c tenant =
     (update_durable (\<lambda>d. d\<lparr>du_service_policy_records :=
          bremove (tenant, ''tenant:suspended'') (du_service_policy_records d)\<rparr>) c,
      bcontains (du_service_policy_records (co_durable c)) (tenant, ''tenant:suspended''))"

definition tenant_suspended :: "coordinator \<Rightarrow> tenant_id \<Rightarrow> bool" where
  "tenant_suspended c tenant \<longleftrightarrow> get_service_policy_record c tenant ''tenant:suspended'' \<noteq> None"

definition tenant_disabled :: "coordinator \<Rightarrow> tenant_id \<Rightarrow> bool" where
  "tenant_disabled c tenant \<longleftrightarrow> get_service_policy_record c tenant ''tenant:disabled'' \<noteq> None"

definition tenant_deleted :: "coordinator \<Rightarrow> tenant_id \<Rightarrow> bool" where
  "tenant_deleted c tenant \<longleftrightarrow> get_service_policy_record c tenant ''tenant:deleted'' \<noteq> None"

definition tenant_manual_review :: "coordinator \<Rightarrow> tenant_id \<Rightarrow> bool" where
  "tenant_manual_review c tenant \<longleftrightarrow> get_service_policy_record c tenant ''tenant:manual_review'' \<noteq> None"

definition account_policy_state_of :: "coordinator \<Rightarrow> tenant_id \<Rightarrow> account_policy_state" where
  "account_policy_state_of c tenant =
     (let suspended = tenant_suspended c tenant;
          disabled = tenant_disabled c tenant;
          deleted = tenant_deleted c tenant;
          manual_review = tenant_manual_review c tenant;
          account_status =
            (if deleted then ''deleted'' else if disabled then ''disabled''
             else if suspended then ''suspended'' else if manual_review then ''manual_review''
             else ''active'')
      in \<lparr>ap_account_status = account_status, ap_suspended = suspended, ap_disabled = disabled,
          ap_deleted = deleted, ap_manual_review = manual_review,
          ap_sanitized_reason =
            (if account_status = ''deleted'' then Some ''account or tenant is no longer active''
             else if account_status = ''disabled'' then Some ''account or tenant is disabled by hosted policy''
             else if account_status = ''suspended'' then Some ''account or tenant is suspended by hosted policy''
             else if account_status = ''manual_review'' then Some ''account or tenant is pending hosted review''
             else None),
          ap_next_actions =
            (if account_status = ''active'' then []
             else [''clusterflux auth status --json'',
                   ''contact the hosted operator or use a self-hosted coordinator''])\<rparr>)"

definition ensure_tenant_active :: "coordinator \<Rightarrow> tenant_id \<Rightarrow> coordinator_error + unit" where
  "ensure_tenant_active c tenant =
     (let status = ap_account_status (account_policy_state_of c tenant)
      in if status \<noteq> ''active''
         then Inl (Unauthorized (''tenant is '' @ status @ '' by admin controls'')) else Inr ())"

section \<open>Hosted administration\<close>

definition override_values_empty :: "tenant_quota_override_values \<Rightarrow> bool" where
  "override_values_empty v \<longleftrightarrow>
     tqo_max_projects v = None \<and> tqo_max_nodes v = None \<and> tqo_max_active_processes v = None"

definition tenant_quota_override :: "coordinator \<Rightarrow> tenant_id \<Rightarrow> tenant_quota_override_record option" where
  "tenant_quota_override c tenant = bget (ha_overrides (du_hosted_admin (co_durable c))) tenant"

abbreviation update_hosted :: "(hosted_admin_state \<Rightarrow> hosted_admin_state) \<Rightarrow> coordinator \<Rightarrow> coordinator" where
  "update_hosted f c \<equiv> update_durable (\<lambda>d. d\<lparr>du_hosted_admin := f (du_hosted_admin d)\<rparr>) c"

definition record_hosted_admin_audit ::
  "coordinator \<Rightarrow> tenant_id \<Rightarrow> string \<Rightarrow> tenant_quota_override_values option
     \<Rightarrow> tenant_quota_override_values option \<Rightarrow> user_id \<Rightarrow> u64
     \<Rightarrow> coordinator \<times> hosted_admin_audit_record" where
  "record_hosted_admin_audit c tenant action old_override new_override operator occurred_at =
     (let sequence = ha_next_sequence (du_hosted_admin (co_durable c));
          rec = \<lparr>au_sequence = sequence, au_tenant = tenant, au_action = action,
                 au_old_override = old_override, au_new_override = new_override,
                 au_operator = operator, au_occurred_at = occurred_at\<rparr>
      in (update_hosted (\<lambda>h. h\<lparr>ha_next_sequence := sat_add sequence 1,
             ha_audit := pop_while_ge max_hosted_admin_audit_records (ha_audit h) @ [rec]\<rparr>) c, rec))"

definition replace_tenant_quota_override ::
  "coordinator \<Rightarrow> tenant_id \<Rightarrow> tenant_quota_override_values option \<Rightarrow> user_id \<Rightarrow> string \<Rightarrow> u64
     \<Rightarrow> string + (coordinator \<times> hosted_admin_audit_record)" where
  "replace_tenant_quota_override c tenant new_values operator action occurred_at =
     (let old = map_option qo_values (tenant_quota_override c tenant);
          new = (case new_values of None \<Rightarrow> None
                 | Some v \<Rightarrow> if \<not> override_values_empty v then Some v else None)
      in if new \<noteq> None \<and> old = None
            \<and> length (ha_overrides (du_hosted_admin (co_durable c))) \<ge> max_tenant_quota_overrides
         then Inl ''hosted tenant quota override capacity is full''
         else
           let c = (case new of
                 Some v \<Rightarrow>
                   update_hosted (\<lambda>h. h\<lparr>ha_overrides := binsert tenant
                      \<lparr>qo_tenant = tenant, qo_values = v, qo_updated_at = occurred_at,
                       qo_operator = operator\<rparr> (ha_overrides h)\<rparr>) (upsert_tenant c tenant)
               | None \<Rightarrow> update_hosted (\<lambda>h. h\<lparr>ha_overrides := bremove tenant (ha_overrides h)\<rparr>) c)
           in Inr (record_hosted_admin_audit c tenant action old new operator occurred_at))"

section \<open>Active processes\<close>

definition start_process_for_launch_attempt ::
  "coordinator \<Rightarrow> tenant_id \<Rightarrow> project_id \<Rightarrow> process_id \<Rightarrow> string option
     \<Rightarrow> coordinator \<times> active_process" where
  "start_process_for_launch_attempt c tenant project process launch_attempt =
     (let p = \<lparr>ap_id = process, ap_launch_attempt = launch_attempt, ap_tenant = tenant,
               ap_project = project, ap_connected_nodes = [], ap_epoch = co_epoch c\<rparr>
      in (c\<lparr>co_active_processes := binsert (tenant, project, process) p (co_active_processes c)\<rparr>, p))"

definition start_process ::
  "coordinator \<Rightarrow> tenant_id \<Rightarrow> project_id \<Rightarrow> process_id \<Rightarrow> coordinator \<times> active_process" where
  "start_process c tenant project process =
     start_process_for_launch_attempt c tenant project process None"

definition get_active_process ::
  "coordinator \<Rightarrow> tenant_id \<Rightarrow> project_id \<Rightarrow> process_id \<Rightarrow> active_process option" where
  "get_active_process c tenant project process = bget (co_active_processes c) (tenant, project, process)"

definition in_project :: "tenant_id \<Rightarrow> project_id \<Rightarrow> active_process \<Rightarrow> bool" where
  "in_project tenant project p \<longleftrightarrow> ap_tenant p = tenant \<and> ap_project p = project"

definition active_process_for_project ::
  "coordinator \<Rightarrow> tenant_id \<Rightarrow> project_id \<Rightarrow> active_process option" where
  "active_process_for_project c tenant project =
     find (in_project tenant project) (bvalues (co_active_processes c))"

definition active_processes_for_project ::
  "coordinator \<Rightarrow> tenant_id \<Rightarrow> project_id \<Rightarrow> active_process list" where
  "active_processes_for_project c tenant project =
     filter (in_project tenant project) (bvalues (co_active_processes c))"

definition active_process_exists_outside_scope ::
  "coordinator \<Rightarrow> tenant_id \<Rightarrow> project_id \<Rightarrow> process_id \<Rightarrow> bool" where
  "active_process_exists_outside_scope c tenant project process \<longleftrightarrow>
     list_ex (\<lambda>p. ap_id p = process \<and> (ap_tenant p \<noteq> tenant \<or> ap_project p \<noteq> project))
       (bvalues (co_active_processes c))"

definition co_abort_process ::
  "coordinator \<Rightarrow> tenant_id \<Rightarrow> project_id \<Rightarrow> process_id
     \<Rightarrow> coordinator_error + (coordinator \<times> active_process)" where
  "co_abort_process c tenant project process =
     (case get_active_process c tenant project process of
        None \<Rightarrow> Inl (Unauthorized ''process abort requires an active virtual process'')
      | Some p \<Rightarrow>
          Inr (c\<lparr>co_active_processes := bremove (tenant, project, process) (co_active_processes c)\<rparr>, p))"

definition abort_process_for_launch_attempt ::
  "coordinator \<Rightarrow> tenant_id \<Rightarrow> project_id \<Rightarrow> process_id \<Rightarrow> string
     \<Rightarrow> coordinator_error + (coordinator \<times> active_process)" where
  "abort_process_for_launch_attempt c tenant project process launch_attempt =
     (case get_active_process c tenant project process of
        None \<Rightarrow> Inl (Unauthorized ''launch rollback requires an active virtual process'')
      | Some p \<Rightarrow>
          if ap_launch_attempt p \<noteq> Some launch_attempt
          then Inl (Unauthorized (''launch rollback denied: attempt '' @ launch_attempt
                 @ '' does not own process '' @ process))
          else Inr (c\<lparr>co_active_processes :=
                  bremove (tenant, project, process) (co_active_processes c)\<rparr>, p))"

definition active_process_count_for_tenant :: "coordinator \<Rightarrow> tenant_id \<Rightarrow> nat" where
  "active_process_count_for_tenant c tenant =
     length (filter (\<lambda>p. ap_tenant p = tenant) (bvalues (co_active_processes c)))"

definition active_process_scopes_for_tenant ::
  "coordinator \<Rightarrow> tenant_id \<Rightarrow> (project_id \<times> process_id) list" where
  "active_process_scopes_for_tenant c tenant =
     map (\<lambda>p. (ap_project p, ap_id p))
       (filter (\<lambda>p. ap_tenant p = tenant) (bvalues (co_active_processes c)))"

definition authorize_debug_attach ::
  "coordinator \<Rightarrow> auth_context \<Rightarrow> process_id \<Rightarrow> authorization" where
  "authorize_debug_attach c context process =
     (case get_active_process c (ac_tenant context) (ac_project context) process of
        None \<Rightarrow> authorization_deny ''virtual process is not active in this tenant or project''
      | Some p \<Rightarrow>
        (case ac_actor context of
           User user \<Rightarrow>
             (case bget (ad_project_permissions (du_directory (co_durable c)))
                     (ap_tenant p, ap_project p, user) of
                None \<Rightarrow> authorization_deny ''debug attach requires explicit project permission''
              | Some permission \<Rightarrow>
                  if \<not> pp_can_debug permission
                  then authorization_deny ''debug attach requires explicit project permission''
                  else authorization_allow ''debug attach authorized for project'')
         | _ \<Rightarrow> authorization_deny ''debug attach requires a user identity''))"

section \<open>Node identities\<close>

definition enroll_node ::
  "coordinator \<Rightarrow> tenant_id \<Rightarrow> project_id \<Rightarrow> node_id \<Rightarrow> string \<Rightarrow> string \<Rightarrow> coordinator" where
  "enroll_node c tenant project node public_key enrollment_scope =
     update_durable (\<lambda>d. d\<lparr>du_node_identities := binsert (tenant, project, node)
        \<lparr>ni_id = node, ni_tenant = tenant, ni_project = project, ni_public_key = public_key,
         ni_enrollment_scope = enrollment_scope, ni_last_seen = None\<rparr> (du_node_identities d)\<rparr>) c"

definition create_node_enrollment_grant ::
  "tenant_id \<Rightarrow> project_id \<Rightarrow> string \<Rightarrow> string \<Rightarrow> u64 \<Rightarrow> enrollment_grant" where
  "create_node_enrollment_grant tenant project grant_id sc expires_at =
     \<lparr>eg_tenant = tenant, eg_project = project, eg_grant_id = grant_id, eg_scope = sc,
      eg_expires_at = expires_at, eg_consumed = False\<rparr>"

abbreviation update_credentials ::
  "((string, credential_record) bmap \<Rightarrow> (string, credential_record) bmap) \<Rightarrow> coordinator \<Rightarrow> coordinator" where
  "update_credentials f c \<equiv> update_durable (\<lambda>d. d\<lparr>du_directory :=
     (du_directory d)\<lparr>ad_credentials := f (ad_credentials (du_directory d))\<rparr>\<rparr>) c"

definition exchange_node_enrollment_grant ::
  "sha256_fn \<Rightarrow> coordinator \<Rightarrow> enrollment_grant \<Rightarrow> node_id \<Rightarrow> string \<Rightarrow> string \<Rightarrow> u64
     \<Rightarrow> enrollment_grant \<times> coordinator \<times> (coordinator_error + node_credential)" where
  "exchange_node_enrollment_grant sha256_hex c g node public_key requested_scope now =
     (case exchange_for_node_identity sha256_hex g node public_key requested_scope now of
        (g', Inl e) \<Rightarrow> (g', c, Inl (Enrollment e))
      | (g', Inr credential) \<Rightarrow>
        let c = enroll_node c (nc_tenant credential) (nc_project credential) node public_key
                  (nc_scope credential);
            subject = credential_subject (nc_tenant credential, nc_project credential, node)
        in (g', update_credentials (binsert subject
               \<lparr>cr_subject = subject, cr_tenant = nc_tenant credential,
                cr_project = Some (nc_project credential), cr_kind = nc_credential_kind credential,
                cr_public_key_fingerprint = Some (nc_public_key_fingerprint credential)\<rparr>) c,
            Inr credential))"

definition node_identity :: "coordinator \<Rightarrow> node_scope_key \<Rightarrow> node_identity_record option" where
  "node_identity c scope = bget (du_node_identities (co_durable c)) scope"

definition node_identity_count_for_tenant :: "coordinator \<Rightarrow> tenant_id \<Rightarrow> nat" where
  "node_identity_count_for_tenant c tenant =
     length (filter (\<lambda>n. ni_tenant n = tenant) (bvalues (du_node_identities (co_durable c))))"

definition mark_node_identity_seen :: "coordinator \<Rightarrow> node_scope_key \<Rightarrow> u64 \<Rightarrow> coordinator" where
  "mark_node_identity_seen c scope seen_at =
     update_durable (\<lambda>d. d\<lparr>du_node_identities := bupdate scope
        (\<lambda>n. n\<lparr>ni_last_seen := Some (max (case ni_last_seen n of None \<Rightarrow> 0 | Some t \<Rightarrow> t) seen_at)\<rparr>)
        (du_node_identities d)\<rparr>) c"

definition authorize_node_for_process ::
  "coordinator \<Rightarrow> node_id \<Rightarrow> tenant_id \<Rightarrow> project_id \<Rightarrow> process_id \<Rightarrow> coordinator_error + unit" where
  "authorize_node_for_process c node tenant project process =
     (if \<not> bcontains (du_node_identities (co_durable c)) (tenant, project, node) then Inl UnknownNode
      else if \<not> bcontains (co_active_processes c) (tenant, project, process)
      then Inl (Unauthorized ''virtual process is not active in coordinator memory'')
      else Inr ())"

definition reconnect_node ::
  "coordinator \<Rightarrow> tenant_id \<Rightarrow> project_id \<Rightarrow> node_id \<Rightarrow> (process_id \<times> u64) option
     \<Rightarrow> coordinator_error + coordinator" where
  "reconnect_node c tenant project node process =
     (if \<not> bcontains (du_node_identities (co_durable c)) (tenant, project, node) then Inl UnknownNode
      else case process of
        None \<Rightarrow> Inr c
      | Some (process_id, stale_epoch) \<Rightarrow>
          if stale_epoch \<noteq> co_epoch c then Inl (StaleProcessEpoch stale_epoch (co_epoch c))
          else Inr (c\<lparr>co_active_processes := bupdate (tenant, project, process_id)
                 (\<lambda>p. p\<lparr>ap_connected_nodes := sinsert node (ap_connected_nodes p)\<rparr>)
                 (co_active_processes c)\<rparr>))"

definition revoke_node_credential ::
  "coordinator \<Rightarrow> auth_context \<Rightarrow> node_id \<Rightarrow> coordinator_error + (coordinator \<times> node_identity_record)" where
  "revoke_node_credential c context node =
     (let key = (ac_tenant context, ac_project context, node)
      in case bget (du_node_identities (co_durable c)) key of
           None \<Rightarrow> Inl UnknownNode
         | Some identity \<Rightarrow>
           (case ac_actor context of
              User _ \<Rightarrow>
                let c = update_durable
                      (\<lambda>d. d\<lparr>du_node_identities := bremove key (du_node_identities d)\<rparr>) c;
                    c = update_credentials (bremove (credential_subject key)) c
                in Inr (c\<lparr>co_active_processes := bmap_values
                       (\<lambda>_ p. if in_project (ac_tenant context) (ac_project context) p
                              then p\<lparr>ap_connected_nodes := sremove node (ap_connected_nodes p)\<rparr> else p)
                       (co_active_processes c)\<rparr>, identity)
            | _ \<Rightarrow> Inl (Unauthorized ''node credential revocation requires a user identity'')))"

section \<open>CLI sessions\<close>

definition session_subject :: "digest \<Rightarrow> string" where
  "session_subject session_digest = ''cli-session:'' @ session_digest"

definition issue_cli_session ::
  "sha256_fn \<Rightarrow> coordinator \<Rightarrow> tenant_id \<Rightarrow> project_id \<Rightarrow> user_id \<Rightarrow> string \<Rightarrow> u64 option
     \<Rightarrow> coordinator \<times> cli_session_record" where
  "issue_cli_session sha256_hex c tenant project user session_secret expires_at =
     (let c = upsert_user (upsert_tenant c tenant) tenant user CliDeviceSession;
          session_digest = digest_sha256 sha256_hex session_secret;
          rec = \<lparr>cs_session_digest = session_digest, cs_tenant = tenant, cs_project = project,
                 cs_user = user, cs_credential_kind = CliDeviceSession, cs_expires_at = expires_at,
                 cs_revoked = False\<rparr>;
          c = update_durable (\<lambda>d. d\<lparr>du_cli_sessions := binsert session_digest rec (du_cli_sessions d)\<rparr>) c;
          subject = session_subject session_digest
      in (update_credentials (binsert subject
            \<lparr>cr_subject = subject, cr_tenant = tenant, cr_project = Some project,
             cr_kind = CliDeviceSession, cr_public_key_fingerprint = None\<rparr>) c, rec))"

definition authenticate_cli_session_with_tenant_policy ::
  "sha256_fn \<Rightarrow> coordinator \<Rightarrow> string \<Rightarrow> u64 \<Rightarrow> bool \<Rightarrow> coordinator_error + auth_context" where
  "authenticate_cli_session_with_tenant_policy sha256_hex c session_secret now require_active_tenant =
     (if str_is_blank session_secret then Inl (Unauthorized ''CLI session credential is missing'')
      else case bget (du_cli_sessions (co_durable c)) (digest_sha256 sha256_hex session_secret) of
        None \<Rightarrow> Inl (Unauthorized ''CLI session credential is not recognized'')
      | Some rec \<Rightarrow>
        if cs_revoked rec then Inl (Unauthorized ''CLI session credential has been revoked'')
        else if (case cs_expires_at rec of None \<Rightarrow> False | Some expires_at \<Rightarrow> expires_at \<le> now)
        then Inl (Unauthorized ''CLI session credential has expired; run clusterflux login --browser again'')
        else if cs_credential_kind rec \<noteq> CliDeviceSession
        then Inl (Unauthorized ''credential is not a CLI session'')
        else (case (if require_active_tenant then ensure_tenant_active c (cs_tenant rec) else Inr ()) of
            Inl e \<Rightarrow> Inl e
          | Inr _ \<Rightarrow> Inr \<lparr>ac_tenant = cs_tenant rec, ac_project = cs_project rec,
                          ac_actor = User (cs_user rec)\<rparr>))"

definition authenticate_cli_session ::
  "sha256_fn \<Rightarrow> coordinator \<Rightarrow> string \<Rightarrow> u64 \<Rightarrow> coordinator_error + auth_context" where
  "authenticate_cli_session sha256_hex c session_secret now =
     authenticate_cli_session_with_tenant_policy sha256_hex c session_secret now True"

definition authenticate_cli_session_for_status ::
  "sha256_fn \<Rightarrow> coordinator \<Rightarrow> string \<Rightarrow> u64 \<Rightarrow> coordinator_error + auth_context" where
  "authenticate_cli_session_for_status sha256_hex c session_secret now =
     authenticate_cli_session_with_tenant_policy sha256_hex c session_secret now False"

text \<open>The result \<open>None\<close> stands for a panic of an \<open>expect\<close>.\<close>

definition revoke_cli_session ::
  "sha256_fn \<Rightarrow> coordinator \<Rightarrow> string \<Rightarrow> u64
     \<Rightarrow> (coordinator_error + (coordinator \<times> cli_session_record)) option" where
  "revoke_cli_session sha256_hex c session_secret now =
     (case authenticate_cli_session sha256_hex c session_secret now of
        Inl e \<Rightarrow> Some (Inl e)
      | Inr _ \<Rightarrow>
        let session_digest = digest_sha256 sha256_hex session_secret
        in (case bget (du_cli_sessions (co_durable c)) session_digest of
              None \<Rightarrow> None
            | Some rec \<Rightarrow>
              let rec' = rec\<lparr>cs_revoked := True\<rparr>
              in Some (Inr (update_durable (\<lambda>d. d\<lparr>du_cli_sessions :=
                   binsert session_digest rec' (du_cli_sessions d)\<rparr>) c, rec'))))"

definition select_cli_session_project ::
  "sha256_fn \<Rightarrow> coordinator \<Rightarrow> string \<Rightarrow> project_id \<Rightarrow> u64
     \<Rightarrow> (coordinator_error + (coordinator \<times> cli_session_record)) option" where
  "select_cli_session_project sha256_hex c session_secret project now =
     (case authenticate_cli_session sha256_hex c session_secret now of
        Inl e \<Rightarrow> Some (Inl e)
      | Inr context \<Rightarrow>
        (case get_project c project of
           None \<Rightarrow> Some (Inl (Unauthorized ''project is not visible to the authenticated user''))
         | Some selected \<Rightarrow>
           if pj_tenant selected \<noteq> ac_tenant context
           then Some (Inl (Unauthorized ''project is outside the authenticated tenant scope''))
           else
             let session_digest = digest_sha256 sha256_hex session_secret;
                 subject = session_subject session_digest
             in (case bget (du_cli_sessions (co_durable c)) session_digest of
                   None \<Rightarrow> None
                 | Some rec \<Rightarrow>
                   let rec' = rec\<lparr>cs_project := project\<rparr>;
                       c = update_durable (\<lambda>d. d\<lparr>du_cli_sessions :=
                             binsert session_digest rec' (du_cli_sessions d)\<rparr>) c
                   in (case bget (ad_credentials (du_directory (co_durable c))) subject of
                         None \<Rightarrow> None
                       | Some credential \<Rightarrow>
                         Some (Inr (update_credentials
                           (binsert subject (credential\<lparr>cr_project := Some project\<rparr>)) c, rec'))))))"

definition revoke_cli_sessions_for_tenant :: "coordinator \<Rightarrow> tenant_id \<Rightarrow> coordinator \<times> nat" where
  "revoke_cli_sessions_for_tenant c tenant =
     (let hit = (\<lambda>rec. cs_tenant rec = tenant \<and> \<not> cs_revoked rec)
      in (update_durable (\<lambda>d. d\<lparr>du_cli_sessions := bmap_values
             (\<lambda>_ rec. if hit rec then rec\<lparr>cs_revoked := True\<rparr> else rec) (du_cli_sessions d)\<rparr>) c,
          length (filter hit (bvalues (du_cli_sessions (co_durable c))))))"

section \<open>The steps of a coordinator\<close>

text \<open>
  One step is one operation that returned, or a restart from the durable state. The label tells
  the steps that lift a suspension or issue a session from the others.
\<close>

datatype coordinator_label = Resumes tenant_id | Issues digest | Silent

definition with_directory :: "agent_directory \<Rightarrow> coordinator \<Rightarrow> coordinator" where
  "with_directory a c = update_durable (\<lambda>d. d\<lparr>du_directory := a\<rparr>) c"

inductive coordinator_step ::
  "sha256_fn \<Rightarrow> coordinator \<Rightarrow> coordinator_label \<Rightarrow> coordinator \<Rightarrow> bool" for H where
  Restart: "coordinator_step H c Silent (boot (co_durable c) epoch)"
| Upsert_Tenant: "coordinator_step H c Silent (upsert_tenant c t)"
| Upsert_User: "coordinator_step H c Silent (upsert_user c t u k)"
| Upsert_Project: "coordinator_step H c Silent (upsert_project c t p name)"
| Grant_Debug: "coordinator_step H c Silent (co_grant_project_debug c t p u)"
| Upsert_Provider: "coordinator_step H c Silent (upsert_source_provider_config c t p k dg)"
| Upsert_Policy: "coordinator_step H c Silent (upsert_service_policy_record c t name dg)"
| Suspend: "coordinator_step H c Silent (fst (suspend_tenant H c t u))"
| Resume: "coordinator_step H c (Resumes t) (fst (resume_tenant c t))"
| Audit: "coordinator_step H c Silent (fst (record_hosted_admin_audit c t action old new u now))"
| Override: "replace_tenant_quota_override c t v u action now = Inr (c', a)
     \<Longrightarrow> coordinator_step H c Silent c'"
| Start: "coordinator_step H c Silent (fst (start_process_for_launch_attempt c t p v attempt))"
| Abort: "co_abort_process c t p v = Inr (c', a) \<Longrightarrow> coordinator_step H c Silent c'"
| Rollback: "abort_process_for_launch_attempt c t p v attempt = Inr (c', a)
     \<Longrightarrow> coordinator_step H c Silent c'"
| Enroll: "coordinator_step H c Silent (enroll_node c t p n key sc)"
| Exchange: "coordinator_step H c Silent
     (fst (snd (exchange_node_enrollment_grant H c g n key sc now)))"
| Seen: "coordinator_step H c Silent (mark_node_identity_seen c s now)"
| Reconnect: "reconnect_node c t p n v = Inr c' \<Longrightarrow> coordinator_step H c Silent c'"
| Revoke_Node: "revoke_node_credential c ctx n = Inr (c', i) \<Longrightarrow> coordinator_step H c Silent c'"
| Register_Agent: "coordinator_step H c Silent
     (with_directory (fst (register_agent_public_key H (du_directory (co_durable c)) t p u a key)) c)"
| Revoke_Agent: "revoke_agent_public_key (du_directory (co_durable c)) ctx a = Inr (dir, k)
     \<Longrightarrow> coordinator_step H c Silent (with_directory dir c)"
| Issue: "coordinator_step H c (Issues (digest_sha256 H secret))
     (fst (issue_cli_session H c t p u secret expires))"
| Revoke_Session: "revoke_cli_session H c secret now = Some (Inr (c', r))
     \<Longrightarrow> coordinator_step H c Silent c'"
| Select: "select_cli_session_project H c secret p now = Some (Inr (c', r))
     \<Longrightarrow> coordinator_step H c Silent c'"
| Revoke_Sessions: "coordinator_step H c Silent (fst (revoke_cli_sessions_for_tenant c t))"

inductive coordinator_steps ::
  "sha256_fn \<Rightarrow> (coordinator_label \<Rightarrow> bool) \<Rightarrow> coordinator \<Rightarrow> coordinator \<Rightarrow> bool" for H P where
  Refl: "coordinator_steps H P c c"
| Step: "coordinator_steps H P c c' \<Longrightarrow> coordinator_step H c' l c'' \<Longrightarrow> P l \<Longrightarrow> coordinator_steps H P c c''"

section \<open>Invariant\<close>

definition keyed :: "('v \<Rightarrow> 'k) \<Rightarrow> ('k::linorder, 'v) bmap \<Rightarrow> bool" where
  "keyed key m \<longleftrightarrow> bwf m \<and> (\<forall>k v. bget m k = Some v \<longrightarrow> key v = k)"

definition session_backed :: "coordinator \<Rightarrow> cli_session_record \<Rightarrow> bool" where
  "session_backed c s \<longleftrightarrow> cs_credential_kind s = CliDeviceSession \<and>
     (\<exists>cr. bget (ad_credentials (du_directory (co_durable c))) (session_subject (cs_session_digest s)) = Some cr
        \<and> cr_kind cr = CliDeviceSession \<and> cr_tenant cr = cs_tenant s \<and> cr_project cr = Some (cs_project s))"

definition process_attached :: "coordinator \<Rightarrow> active_process \<Rightarrow> bool" where
  "process_attached c p \<longleftrightarrow> ap_epoch p = co_epoch c \<and>
     (\<forall>n \<in> set (ap_connected_nodes p).
        bget (du_node_identities (co_durable c)) (ap_tenant p, ap_project p, n) \<noteq> None)"

definition audit_ok :: "hosted_admin_state \<Rightarrow> bool" where
  "audit_ok h \<longleftrightarrow> bwf (ha_overrides h) \<and> length (ha_overrides h) \<le> max_tenant_quota_overrides
     \<and> length (ha_audit h) \<le> max_hosted_admin_audit_records
     \<and> sorted (map au_sequence (ha_audit h))
     \<and> (\<forall>a \<in> set (ha_audit h). au_sequence a \<le> ha_next_sequence h)"

definition coordinator_ok :: "coordinator \<Rightarrow> bool" where
  "coordinator_ok c \<longleftrightarrow>
     keyed pj_id (du_projects (co_durable c))
     \<and> keyed (\<lambda>n. (ni_tenant n, ni_project n, ni_id n)) (du_node_identities (co_durable c))
     \<and> keyed cs_session_digest (du_cli_sessions (co_durable c))
     \<and> keyed (\<lambda>p. (ap_tenant p, ap_project p, ap_id p)) (co_active_processes c)
     \<and> keyed cr_subject (ad_credentials (du_directory (co_durable c)))
     \<and> (\<forall>k s. bget (du_cli_sessions (co_durable c)) k = Some s \<longrightarrow> session_backed c s)
     \<and> (\<forall>k p. bget (co_active_processes c) k = Some p \<longrightarrow> process_attached c p)
     \<and> audit_ok (du_hosted_admin (co_durable c))"

lemma keyed_Nil [simp]: "keyed key []"
  by (simp add: keyed_def)

lemma keyed_binsert: "keyed key m \<Longrightarrow> key v = k \<Longrightarrow> keyed key (binsert k v m)"
  by (auto simp: keyed_def bmap_simps)

lemma keyed_bremove: "keyed key m \<Longrightarrow> keyed key (bremove k m)"
  by (auto simp: keyed_def bmap_simps)

lemma keyed_bmap_values: "keyed key m \<Longrightarrow> (\<And>k v. key (f k v) = key v) \<Longrightarrow> keyed key (bmap_values f m)"
  by (auto simp: keyed_def bmap_simps)

lemma keyed_bupdate: "keyed key m \<Longrightarrow> (\<And>v. key (f v) = key v) \<Longrightarrow> keyed key (bupdate k f m)"
  by (auto simp: keyed_def bmap_simps)

lemmas keyed_intros = keyed_binsert keyed_bremove keyed_bmap_values keyed_bupdate

lemma session_subject_distinct:
  "session_subject d \<noteq> credential_subject s" "session_subject d \<noteq> agent_subject t p a"
  "credential_subject s \<noteq> session_subject d" "agent_subject t p a \<noteq> session_subject d"
  by (cases s; simp add: session_subject_def agent_subject_def)+

declare credential_subject.simps [simp del]

lemma session_subject_inj [simp]: "session_subject d = session_subject d' \<longleftrightarrow> d = d'"
  by (simp add: session_subject_def)

lemma audit_ok_record:
  assumes "audit_ok h" and "au_sequence r = ha_next_sequence h"
  shows "audit_ok (h\<lparr>ha_next_sequence := sat_add (ha_next_sequence h) 1,
     ha_audit := pop_while_ge max_hosted_admin_audit_records (ha_audit h) @ [r]\<rparr>)"
proof -
  obtain n where n: "pop_while_ge max_hosted_admin_audit_records (ha_audit h) = drop n (ha_audit h)"
    using pop_while_ge_drop by blast
  have "length (drop n (ha_audit h)) < max_hosted_admin_audit_records"
    unfolding n [symmetric] by (rule length_pop_while_ge) (simp add: max_hosted_admin_audit_records_def)
  moreover have "au_sequence a \<le> sat_add (ha_next_sequence h) 1" if "a \<in> set (ha_audit h)" for a
    using assms(1) that sat_add_ge1 [of "ha_next_sequence h" 1] by (fastforce simp: audit_ok_def)
  ultimately show ?thesis
    using assms
    by (auto simp: audit_ok_def n sorted_append drop_map [symmetric] sat_add_ge1
        dest!: in_set_dropD)
qed

lemma length_binsert_known: "bwf m \<Longrightarrow> bget m k \<noteq> None \<Longrightarrow> length (binsert k v m) = length m"
  by (rule length_binsert_old) (simp_all add: map_of_eq_None_iff)

lemma audit_ok_override:
  "audit_ok h \<Longrightarrow> length (ha_overrides h) < max_tenant_quota_overrides \<or> bget (ha_overrides h) t \<noteq> None
     \<Longrightarrow> audit_ok (h\<lparr>ha_overrides := binsert t v (ha_overrides h)\<rparr>)"
  using length_binsert_le [of t v "ha_overrides h"] length_binsert_known [of "ha_overrides h" t v]
  by (auto simp: audit_ok_def)

lemma audit_ok_clear: "audit_ok h \<Longrightarrow> audit_ok (h\<lparr>ha_overrides := bremove t (ha_overrides h)\<rparr>)"
  using length_bremove_le [of t "ha_overrides h"] by (auto simp: audit_ok_def)

text \<open>The parts of the state on which the invariant depends.\<close>

lemma coordinator_ok_cong:
  assumes "coordinator_ok c"
    and "du_projects (co_durable c') = du_projects (co_durable c)"
    and "du_node_identities (co_durable c') = du_node_identities (co_durable c)"
    and "du_cli_sessions (co_durable c') = du_cli_sessions (co_durable c)"
    and "ad_credentials (du_directory (co_durable c')) = ad_credentials (du_directory (co_durable c))"
    and "co_active_processes c' = co_active_processes c" and "co_epoch c' = co_epoch c"
    and "audit_ok (du_hosted_admin (co_durable c'))"
  shows "coordinator_ok c'"
  using assms by (simp add: coordinator_ok_def session_backed_def process_attached_def)

lemma coordinator_ok_audit: "coordinator_ok c \<Longrightarrow> audit_ok (du_hosted_admin (co_durable c))"
  by (simp add: coordinator_ok_def)

lemma ok_boot: "coordinator_ok c \<Longrightarrow> coordinator_ok (boot (co_durable c) e)"
  by (simp add: coordinator_ok_def boot_def session_backed_def)

lemma ok_upsert_tenant: "coordinator_ok c \<Longrightarrow> coordinator_ok (upsert_tenant c t)"
  by (frule coordinator_ok_audit, erule coordinator_ok_cong) (simp_all add: upsert_tenant_def)

lemma ok_upsert_user: "coordinator_ok c \<Longrightarrow> coordinator_ok (upsert_user c t u k)"
  by (frule coordinator_ok_audit, erule coordinator_ok_cong) (simp_all add: upsert_user_def)

lemma ok_upsert_project: "coordinator_ok c \<Longrightarrow> coordinator_ok (upsert_project c t p name)"
  by (simp add: coordinator_ok_def upsert_project_def session_backed_def process_attached_def keyed_binsert)

lemma ok_grant: "coordinator_ok c \<Longrightarrow> coordinator_ok (co_grant_project_debug c t p u)"
  by (frule coordinator_ok_audit, erule coordinator_ok_cong)
    (simp_all add: co_grant_project_debug_def grant_project_debug_def)

lemma ok_provider: "coordinator_ok c \<Longrightarrow> coordinator_ok (upsert_source_provider_config c t p k dg)"
  by (frule coordinator_ok_audit, erule coordinator_ok_cong) (simp_all add: upsert_source_provider_config_def)

lemma ok_policy: "coordinator_ok c \<Longrightarrow> coordinator_ok (upsert_service_policy_record c t name dg)"
  by (frule coordinator_ok_audit, erule coordinator_ok_cong) (simp_all add: upsert_service_policy_record_def)

lemma ok_suspend: "coordinator_ok c \<Longrightarrow> coordinator_ok (fst (suspend_tenant H c t u))"
  by (simp add: suspend_tenant_def Let_def ok_policy ok_upsert_tenant)

lemma ok_resume: "coordinator_ok c \<Longrightarrow> coordinator_ok (fst (resume_tenant c t))"
  by (frule coordinator_ok_audit, erule coordinator_ok_cong) (simp_all add: resume_tenant_def)

lemma ok_audit: "coordinator_ok c \<Longrightarrow> coordinator_ok (fst (record_hosted_admin_audit c t a old new u now))"
  by (frule coordinator_ok_audit, erule coordinator_ok_cong)
    (simp_all add: record_hosted_admin_audit_def Let_def audit_ok_record)

lemma ok_override:
  assumes "coordinator_ok c" and "replace_tenant_quota_override c t v u action now = Inr (c', a)"
  shows "coordinator_ok c'"
proof -
  note ok = assms(1) coordinator_ok_audit [OF assms(1)]
  have ins: "coordinator_ok (update_hosted (\<lambda>h. h\<lparr>ha_overrides := binsert t w (ha_overrides h)\<rparr>) (upsert_tenant c t))"
    if "length (ha_overrides (du_hosted_admin (co_durable c))) < max_tenant_quota_overrides
        \<or> bget (ha_overrides (du_hosted_admin (co_durable c))) t \<noteq> None" for w
    by (rule coordinator_ok_cong [OF ok(1)])
      (use ok(2) that in \<open>simp_all add: upsert_tenant_def audit_ok_override\<close>)
  have del: "coordinator_ok (update_hosted (\<lambda>h. h\<lparr>ha_overrides := bremove t (ha_overrides h)\<rparr>) c)"
    by (rule coordinator_ok_cong [OF ok(1)]) (use ok(2) in \<open>simp_all add: audit_ok_clear\<close>)
  have "\<exists>c1 old new. coordinator_ok c1 \<and> record_hosted_admin_audit c1 t action old new u now = (c', a)"
    using assms(2) ins del
    by (auto simp: replace_tenant_quota_override_def Let_def tenant_quota_override_def
        not_le split: option.splits if_splits)
  then show ?thesis
    using ok_audit by (metis fst_conv)
qed

lemma ok_processes:
  assumes "coordinator_ok c"
    and "keyed (\<lambda>p. (ap_tenant p, ap_project p, ap_id p)) ps"
    and "\<And>k p. bget ps k = Some p \<Longrightarrow> process_attached c p"
  shows "coordinator_ok (c\<lparr>co_active_processes := ps\<rparr>)"
  using assms by (simp add: coordinator_ok_def session_backed_def process_attached_def)

lemma coordinator_okD:
  assumes "coordinator_ok c"
  shows "keyed (\<lambda>p. (ap_tenant p, ap_project p, ap_id p)) (co_active_processes c)"
    and "bget (co_active_processes c) k = Some p \<Longrightarrow> process_attached c p"
    and "keyed (\<lambda>n. (ni_tenant n, ni_project n, ni_id n)) (du_node_identities (co_durable c))"
    and "keyed cs_session_digest (du_cli_sessions (co_durable c))"
    and "keyed cr_subject (ad_credentials (du_directory (co_durable c)))"
    and "bget (du_cli_sessions (co_durable c)) dg = Some s \<Longrightarrow> session_backed c s"
  by (insert assms) (auto simp: coordinator_ok_def simp del: split_paired_All)

lemma ok_start: "coordinator_ok c \<Longrightarrow> coordinator_ok (fst (start_process_for_launch_attempt c t p v a))"
  unfolding start_process_for_launch_attempt_def Let_def fst_conv
  by (rule ok_processes)
    (auto simp: bmap_simps process_attached_def [of c "\<lparr>ap_id = v, ap_launch_attempt = a, ap_tenant = t, ap_project = p, ap_connected_nodes = [], ap_epoch = co_epoch c\<rparr>"]
      intro: keyed_binsert coordinator_okD split: if_splits)

lemma ok_remove_process:
  "coordinator_ok c \<Longrightarrow> coordinator_ok (c\<lparr>co_active_processes := bremove k (co_active_processes c)\<rparr>)"
  by (rule ok_processes) (auto simp: bmap_simps intro: keyed_bremove coordinator_okD split: if_splits)

lemma ok_abort: "coordinator_ok c \<Longrightarrow> co_abort_process c t p v = Inr (c', a) \<Longrightarrow> coordinator_ok c'"
  by (auto simp: co_abort_process_def ok_remove_process split: option.splits)

lemma ok_rollback:
  "coordinator_ok c \<Longrightarrow> abort_process_for_launch_attempt c t p v x = Inr (c', a) \<Longrightarrow> coordinator_ok c'"
  by (auto simp: abort_process_for_launch_attempt_def ok_remove_process split: option.splits if_splits)

lemma ok_reconnect:
  assumes "coordinator_ok c" and "reconnect_node c t p n v = Inr c'"
  shows "coordinator_ok c'"
proof (cases v)
  case None
  with assms show ?thesis by (auto simp: reconnect_node_def split: if_splits)
next
  case (Some pe)
  obtain q e where v: "v = Some (q, e)" using Some by (cases pe) auto
  from assms(2) have known: "bget (du_node_identities (co_durable c)) (t, p, n) \<noteq> None"
    and c': "c' = c\<lparr>co_active_processes := bupdate (t, p, q)
        (\<lambda>a. a\<lparr>ap_connected_nodes := sinsert n (ap_connected_nodes a)\<rparr>) (co_active_processes c)\<rparr>"
    by (auto simp: reconnect_node_def v bcontains_iff split: if_splits)
  note keyed = coordinator_okD(1) [OF assms(1)]
  show ?thesis
    unfolding c'
  proof (rule ok_processes [OF assms(1)])
    show "keyed (\<lambda>p. (ap_tenant p, ap_project p, ap_id p)) (bupdate (t, p, q)
        (\<lambda>a. a\<lparr>ap_connected_nodes := sinsert n (ap_connected_nodes a)\<rparr>) (co_active_processes c))"
      by (rule keyed_bupdate [OF keyed]) simp
  next
    fix k a'
    assume look: "bget (bupdate (t, p, q) (\<lambda>a. a\<lparr>ap_connected_nodes := sinsert n (ap_connected_nodes a)\<rparr>)
        (co_active_processes c)) k = Some a'"
    show "process_attached c a'"
    proof (cases "k = (t, p, q)")
      case True
      with look obtain a where a: "bget (co_active_processes c) k = Some a"
          "a' = a\<lparr>ap_connected_nodes := sinsert n (ap_connected_nodes a)\<rparr>"
        by (auto simp: bget_bupdate)
      from keyed a(1) True have "ap_tenant a = t \<and> ap_project a = p" by (auto simp: keyed_def)
      with coordinator_okD(2) [OF assms(1) a(1)] known show ?thesis
        by (auto simp: process_attached_def a(2) set_sinsert)
    next
      case False
      with look show ?thesis
        using coordinator_okD(2) [OF assms(1), of k a'] by (simp add: bget_bupdate)
    qed
  qed
qed

lemma ok_identities:
  assumes "coordinator_ok c"
    and "keyed (\<lambda>n. (ni_tenant n, ni_project n, ni_id n)) ns"
    and "\<And>k. bget (du_node_identities (co_durable c)) k \<noteq> None \<Longrightarrow> bget ns k \<noteq> None"
  shows "coordinator_ok (update_durable (\<lambda>d. d\<lparr>du_node_identities := ns\<rparr>) c)"
  using assms
  unfolding coordinator_ok_def session_backed_def process_attached_def
  by (simp del: split_paired_All)

lemma ok_enroll: "coordinator_ok c \<Longrightarrow> coordinator_ok (enroll_node c t p n key sc)"
  unfolding enroll_node_def
  by (rule ok_identities) (auto simp: bmap_simps intro: keyed_binsert dest: coordinator_okD)

lemma ok_seen: "coordinator_ok c \<Longrightarrow> coordinator_ok (mark_node_identity_seen c s now)"
  unfolding mark_node_identity_seen_def
  by (rule ok_identities) (auto simp: bmap_simps intro!: keyed_bupdate dest: coordinator_okD)

lemma ok_credentials:
  assumes "coordinator_ok c" and "keyed cr_subject (f (ad_credentials (du_directory (co_durable c))))"
    and "\<And>dg. bget (f (ad_credentials (du_directory (co_durable c)))) (session_subject dg)
        = bget (ad_credentials (du_directory (co_durable c))) (session_subject dg)"
  shows "coordinator_ok (update_credentials f c)"
  using assms by (simp add: coordinator_ok_def session_backed_def process_attached_def)

lemma ok_exchange: "coordinator_ok c \<Longrightarrow> coordinator_ok (fst (snd (exchange_node_enrollment_grant H c g n key sc now)))"
  unfolding exchange_node_enrollment_grant_def Let_def
  by (auto split: prod.split sum.split
      intro!: ok_credentials ok_enroll keyed_binsert
      simp: bmap_simps session_subject_distinct dest: coordinator_okD(5) [OF ok_enroll])

lemma revoke_node_eq:
  assumes "revoke_node_credential c ctx n = Inr (c', i)"
  shows "c' = c\<lparr>co_durable := (co_durable c)\<lparr>
        du_node_identities := bremove (ac_tenant ctx, ac_project ctx, n) (du_node_identities (co_durable c)),
        du_directory := (du_directory (co_durable c))\<lparr>ad_credentials :=
          bremove (credential_subject (ac_tenant ctx, ac_project ctx, n))
            (ad_credentials (du_directory (co_durable c)))\<rparr>\<rparr>,
      co_active_processes := bmap_values (\<lambda>_ p. if in_project (ac_tenant ctx) (ac_project ctx) p
        then p\<lparr>ap_connected_nodes := sremove n (ap_connected_nodes p)\<rparr> else p) (co_active_processes c)\<rparr>"
  using assms by (auto simp: revoke_node_credential_def Let_def split: option.splits actor.splits)

lemma ok_revoke_node:
  assumes "coordinator_ok c" and "revoke_node_credential c ctx n = Inr (c', i)"
  shows "coordinator_ok c'"
proof -
  let ?key = "(ac_tenant ctx, ac_project ctx, n)"
  let ?drop = "\<lambda>_ p. if in_project (ac_tenant ctx) (ac_project ctx) p
      then p\<lparr>ap_connected_nodes := sremove n (ap_connected_nodes p)\<rparr> else p"
  note c' = revoke_node_eq [OF assms(2)]
  have "keyed (\<lambda>p. (ap_tenant p, ap_project p, ap_id p)) (bmap_values ?drop (co_active_processes c))"
    by (rule keyed_bmap_values [OF coordinator_okD(1) [OF assms(1)]]) simp
  moreover have "keyed (\<lambda>n. (ni_tenant n, ni_project n, ni_id n)) (bremove ?key (du_node_identities (co_durable c)))"
    by (rule keyed_bremove [OF coordinator_okD(3) [OF assms(1)]])
  moreover have "keyed cr_subject (bremove (credential_subject ?key) (ad_credentials (du_directory (co_durable c))))"
    by (rule keyed_bremove [OF coordinator_okD(5) [OF assms(1)]])
  moreover have "process_attached c' p" if "bget (bmap_values ?drop (co_active_processes c)) k = Some p" for k p
  proof -
    from that obtain q where q: "bget (co_active_processes c) k = Some q" "p = ?drop k q"
      by (auto simp: bget_bmap_values)
    with coordinator_okD(2) [OF assms(1) q(1)] show ?thesis
      by (auto simp: process_attached_def c' bget_bremove in_project_def set_sremove split: if_splits)
  qed
  moreover have "session_backed c' s" if "bget (du_cli_sessions (co_durable c)) k = Some s" for k s
    using coordinator_okD(6) [OF assms(1) that]
    by (simp add: session_backed_def c' bget_bremove session_subject_distinct)
  ultimately show ?thesis
    using assms(1) unfolding coordinator_ok_def
    by (simp add: c' del: split_paired_All)
qed

lemma ok_directory:
  assumes "coordinator_ok c" and "keyed cr_subject (ad_credentials dir)"
    and "\<And>dg. bget (ad_credentials dir) (session_subject dg)
        = bget (ad_credentials (du_directory (co_durable c))) (session_subject dg)"
  shows "coordinator_ok (with_directory dir c)"
  using assms by (simp add: with_directory_def coordinator_ok_def session_backed_def process_attached_def)

lemma ok_register_agent:
  "coordinator_ok c \<Longrightarrow> coordinator_ok
     (with_directory (fst (register_agent_public_key H (du_directory (co_durable c)) t p u a key)) c)"
  by (rule ok_directory)
    (auto simp: register_agent_public_key_def Let_def bmap_simps session_subject_distinct
      intro: keyed_binsert coordinator_okD)

lemma ok_revoke_agent:
  "coordinator_ok c \<Longrightarrow> revoke_agent_public_key (du_directory (co_durable c)) ctx a = Inr (dir, k)
     \<Longrightarrow> coordinator_ok (with_directory dir c)"
  by (rule ok_directory)
    (auto simp: revoke_agent_public_key_def Let_def bmap_simps session_subject_distinct
      intro!: keyed_bremove coordinator_okD(5) split: option.splits actor.splits if_splits)

lemma ok_sessions:
  assumes "coordinator_ok c" and "cs_session_digest s = dg" and "session_subject dg = cr_subject cr"
    and "cs_credential_kind s = CliDeviceSession" and "cr_kind cr = CliDeviceSession"
    and "cr_tenant cr = cs_tenant s" and "cr_project cr = Some (cs_project s)"
  shows "coordinator_ok (update_credentials (binsert (session_subject dg) cr)
    (update_durable (\<lambda>d. d\<lparr>du_cli_sessions := binsert dg s (du_cli_sessions d)\<rparr>) c))"
    (is "coordinator_ok ?c'")
proof -
  have "keyed cs_session_digest (binsert dg s (du_cli_sessions (co_durable c)))"
    by (rule keyed_binsert [OF coordinator_okD(4) [OF assms(1)] assms(2)])
  moreover have "keyed cr_subject (binsert (session_subject dg) cr (ad_credentials (du_directory (co_durable c))))"
    by (rule keyed_binsert [OF coordinator_okD(5) [OF assms(1)] assms(3) [symmetric]])
  moreover have "session_backed ?c' s'" if "bget (binsert dg s (du_cli_sessions (co_durable c))) k = Some s'" for k s'
  proof (cases "k = dg")
    case True
    with that assms show ?thesis by (simp add: session_backed_def bget_binsert)
  next
    case False
    with that have old: "bget (du_cli_sessions (co_durable c)) k = Some s'" by (simp add: bget_binsert)
    from coordinator_okD(4) [OF assms(1)] old have "cs_session_digest s' = k"
      unfolding keyed_def by blast
    with False coordinator_okD(6) [OF assms(1) old] show ?thesis
      by (simp add: session_backed_def bget_binsert)
  qed
  ultimately show ?thesis
    using assms(1) unfolding coordinator_ok_def
    by (simp add: process_attached_def del: split_paired_All)
qed

lemma ok_session_update:
  assumes "coordinator_ok c" and "bget (du_cli_sessions (co_durable c)) dg = Some s"
    and "cs_session_digest s' = cs_session_digest s" and "cs_credential_kind s' = cs_credential_kind s"
    and "cs_tenant s' = cs_tenant s" and "cs_project s' = cs_project s"
  shows "coordinator_ok (update_durable (\<lambda>d. d\<lparr>du_cli_sessions := binsert dg s' (du_cli_sessions d)\<rparr>) c)"
proof -
  have "keyed cs_session_digest (binsert dg s' (du_cli_sessions (co_durable c)))"
    using coordinator_okD(4) [OF assms(1)] assms(2, 3)
    by (intro keyed_binsert) (auto simp: keyed_def)
  with assms(1) coordinator_okD(6) [OF assms(1) assms(2)] assms(3-) show ?thesis
    unfolding coordinator_ok_def session_backed_def process_attached_def
    by (simp add: bget_binsert del: split_paired_All)
qed

lemma ok_issue: "coordinator_ok c \<Longrightarrow> coordinator_ok (fst (issue_cli_session H c t p u secret expires))"
  unfolding issue_cli_session_def Let_def fst_conv
  by (rule ok_sessions) (simp_all add: ok_upsert_user ok_upsert_tenant)

lemma ok_revoke_session:
  "coordinator_ok c \<Longrightarrow> revoke_cli_session H c secret now = Some (Inr (c', r)) \<Longrightarrow> coordinator_ok c'"
  by (auto simp: revoke_cli_session_def Let_def split: sum.splits option.splits
      intro!: ok_session_update)

lemma ok_revoke_sessions: "coordinator_ok c \<Longrightarrow> coordinator_ok (fst (revoke_cli_sessions_for_tenant c t))"
  unfolding coordinator_ok_def session_backed_def process_attached_def revoke_cli_sessions_for_tenant_def
  by (auto simp: Let_def bget_bmap_values keyed_bmap_values simp del: split_paired_All split: if_splits)

lemma ok_select:
  assumes "coordinator_ok c" and "select_cli_session_project H c secret p now = Some (Inr (c', r))"
  shows "coordinator_ok c'"
proof -
  let ?dg = "digest_sha256 H secret"
  from assms(2) obtain s cr where
      s: "bget (du_cli_sessions (co_durable c)) ?dg = Some s"
    and cr: "bget (ad_credentials (du_directory (co_durable c))) (session_subject ?dg) = Some cr"
    and c': "c' = update_credentials (binsert (session_subject ?dg) (cr\<lparr>cr_project := Some p\<rparr>))
       (update_durable (\<lambda>d. d\<lparr>du_cli_sessions := binsert ?dg (s\<lparr>cs_project := p\<rparr>) (du_cli_sessions d)\<rparr>) c)"
    by (auto simp: select_cli_session_project_def Let_def split: sum.splits option.splits if_splits)
  from coordinator_okD(4) [OF assms(1)] s have "cs_session_digest s = ?dg" by (auto simp: keyed_def)
  moreover from coordinator_okD(5) [OF assms(1)] cr have "cr_subject cr = session_subject ?dg"
    by (auto simp: keyed_def)
  ultimately show ?thesis
    unfolding c' using coordinator_okD(6) [OF assms(1) s] cr
    by (intro ok_sessions [OF assms(1)]) (auto simp: session_backed_def)
qed

lemmas coordinator_ok_ops = ok_boot ok_upsert_tenant ok_upsert_user ok_upsert_project ok_grant ok_provider
  ok_policy ok_suspend ok_resume ok_audit ok_override ok_start ok_abort ok_rollback ok_enroll ok_exchange
  ok_seen ok_reconnect ok_revoke_node ok_register_agent ok_revoke_agent ok_issue ok_revoke_session
  ok_select ok_revoke_sessions

lemma coordinator_step_ok: "coordinator_step H c l c' \<Longrightarrow> coordinator_ok c \<Longrightarrow> coordinator_ok c'"
  by (induction rule: coordinator_step.induct) (auto intro: coordinator_ok_ops)

lemma coordinator_steps_ok: "coordinator_steps H P c c' \<Longrightarrow> coordinator_ok c \<Longrightarrow> coordinator_ok c'"
  by (induction rule: coordinator_steps.induct) (auto intro: coordinator_step_ok)

definition durable_state_default :: durable_state where
  "durable_state_default =
     \<lparr>du_tenants = [], du_users = [], du_projects = [], du_node_identities = [], du_cli_sessions = [],
      du_source_provider_configs = [], du_service_policy_records = [],
      du_directory = \<lparr>ad_agent_public_keys = [], ad_credentials = [], ad_project_permissions = []\<rparr>,
      du_hosted_admin = \<lparr>ha_overrides = [], ha_audit = [], ha_next_sequence = 0\<rparr>\<rparr>"

lemma coordinator_ok_default: "coordinator_ok (boot durable_state_default e)"
  by (simp add: coordinator_ok_def boot_def durable_state_default_def audit_ok_def)

section \<open>Properties\<close>

text \<open>
  C18. Every state a coordinator reaches from the empty durable state by its operations and by
  restarts is well formed: records sit under their own keys, every CLI session is backed by its
  credential record with the same tenant and project, every active process belongs to the current
  coordinator epoch and is connected only to enrolled nodes, and the quota overrides and the audit
  trail stay within their capacities with the audit sequence numbers ascending.
\<close>

theorem coordinator_invariant:
  assumes "coordinator_steps H P (boot durable_state_default e) c"
  shows "coordinator_ok c"
  using assms coordinator_ok_default by (rule coordinator_steps_ok)

lemma policy_frame:
  assumes "coordinator_step H c l c'" and "l \<noteq> Resumes t" and "tenant_suspended c t"
  shows "tenant_suspended c' t"
  using assms
  by (induction rule: coordinator_step.induct)
    (auto simp: tenant_suspended_def get_service_policy_record_def boot_def upsert_tenant_def upsert_user_def
      upsert_project_def co_grant_project_debug_def upsert_source_provider_config_def
      upsert_service_policy_record_def suspend_tenant_def resume_tenant_def record_hosted_admin_audit_def
      replace_tenant_quota_override_def start_process_for_launch_attempt_def co_abort_process_def
      abort_process_for_launch_attempt_def enroll_node_def exchange_node_enrollment_grant_def
      mark_node_identity_seen_def reconnect_node_def revoke_node_credential_def with_directory_def
      issue_cli_session_def revoke_cli_session_def select_cli_session_project_def
      revoke_cli_sessions_for_tenant_def Let_def bmap_simps
      split: option.splits sum.splits if_splits prod.splits actor.splits)

lemma suspended_not_active: "tenant_suspended c t \<Longrightarrow> \<exists>m. ensure_tenant_active c t = Inl (Unauthorized m)"
  by (auto simp: ensure_tenant_active_def account_policy_state_of_def Let_def)

lemma steps_keep_suspension:
  "coordinator_steps H (\<lambda>l. l \<noteq> Resumes t) c c' \<Longrightarrow> tenant_suspended c t \<Longrightarrow> tenant_suspended c' t"
  by (induction rule: coordinator_steps.induct) (auto intro: policy_frame)

text \<open>
  C15. Suspending a tenant locks it out: until the tenant is resumed, whatever else the
  coordinator does and across restarts, the tenant is not active and no CLI session secret
  authenticates as that tenant.
\<close>

theorem suspended_tenant_locked_out:
  assumes "coordinator_steps H (\<lambda>l. l \<noteq> Resumes t) (fst (suspend_tenant H c t u)) c'"
  shows "(\<exists>m. ensure_tenant_active c' t = Inl (Unauthorized m))
    \<and> (case authenticate_cli_session H c' secret now of Inl _ \<Rightarrow> True | Inr ctx \<Rightarrow> ac_tenant ctx \<noteq> t)"
proof -
  have "tenant_suspended (fst (suspend_tenant H c t u)) t"
    by (simp add: suspend_tenant_def tenant_suspended_def get_service_policy_record_def Let_def
        upsert_service_policy_record_def bget_binsert)
  with assms have "tenant_suspended c' t" by (rule steps_keep_suspension)
  then have no: "\<exists>m. ensure_tenant_active c' t = Inl (Unauthorized m)" by (rule suspended_not_active)
  then show ?thesis
    by (auto simp: authenticate_cli_session_def authenticate_cli_session_with_tenant_policy_def
        split: option.split sum.split if_splits)
qed

lemma authenticate_reprojected:
  assumes "bget (du_cli_sessions (co_durable c)) (digest_sha256 H secret) = Some s"
    and "authenticate_cli_session H c secret now = Inr ctx"
  shows "authenticate_cli_session H (update_credentials f (update_durable (\<lambda>d. d\<lparr>du_cli_sessions :=
      binsert (digest_sha256 H secret) (s\<lparr>cs_project := p\<rparr>) (du_cli_sessions d)\<rparr>) c)) secret now
    = Inr (ctx\<lparr>ac_project := p\<rparr>)"
  using assms
  by (auto simp: authenticate_cli_session_def authenticate_cli_session_with_tenant_policy_def
      ensure_tenant_active_def account_policy_state_of_def tenant_suspended_def tenant_disabled_def
      tenant_deleted_def tenant_manual_review_def get_service_policy_record_def bget_binsert Let_def
      split: option.splits if_splits)

text \<open>
  C17. The session operations do not panic: in every reachable state revoking a session and
  selecting a project return a value, so the two \<open>expect\<close> calls on the session and on its
  credential record never fail. A selection that succeeds names a project of the session's own
  tenant, and the session then authenticates into that project.
\<close>

theorem session_operations_total:
  assumes "coordinator_steps H P (boot durable_state_default e) c"
  shows "revoke_cli_session H c secret now \<noteq> None
    \<and> (case select_cli_session_project H c secret p now of
         None \<Rightarrow> False
       | Some (Inl _) \<Rightarrow> True
       | Some (Inr (c', s)) \<Rightarrow>
           (\<exists>pr. get_project c p = Some pr \<and> pj_tenant pr = cs_tenant s)
           \<and> authenticate_cli_session H c' secret now
               = Inr \<lparr>ac_tenant = cs_tenant s, ac_project = p, ac_actor = User (cs_user s)\<rparr>)"
proof -
  have ok: "coordinator_ok c"
    using assms coordinator_ok_default by (rule coordinator_steps_ok)
  have auth: "\<exists>s. bget (du_cli_sessions (co_durable c)) (digest_sha256 H secret) = Some s
      \<and> ctx = \<lparr>ac_tenant = cs_tenant s, ac_project = cs_project s, ac_actor = User (cs_user s)\<rparr>"
    if "authenticate_cli_session H c secret now = Inr ctx" for ctx
    using that by (auto simp: authenticate_cli_session_def authenticate_cli_session_with_tenant_policy_def
        split: option.splits if_splits sum.splits)
  have backed: "\<exists>cr. bget (ad_credentials (du_directory (co_durable c)))
      (session_subject (digest_sha256 H secret)) = Some cr"
    if "bget (du_cli_sessions (co_durable c)) (digest_sha256 H secret) = Some s" for s
    using coordinator_okD(4) [OF ok] coordinator_okD(6) [OF ok that] that
    by (auto simp: keyed_def session_backed_def)
  show ?thesis
  proof (cases "authenticate_cli_session H c secret now")
    case (Inl e)
    then show ?thesis by (simp add: revoke_cli_session_def select_cli_session_project_def)
  next
    case (Inr ctx)
    from auth [OF Inr] obtain s where s: "bget (du_cli_sessions (co_durable c)) (digest_sha256 H secret) = Some s"
      and ctx: "ctx = \<lparr>ac_tenant = cs_tenant s, ac_project = cs_project s, ac_actor = User (cs_user s)\<rparr>" by auto
    from backed [OF s] obtain cr where "bget (ad_credentials (du_directory (co_durable c)))
      (session_subject (digest_sha256 H secret)) = Some cr" by auto
    with s Inr ctx authenticate_reprojected [OF s Inr,
        of "binsert (session_subject (digest_sha256 H secret)) (cr\<lparr>cr_project := Some p\<rparr>)" p]
    show ?thesis
      by (auto simp: revoke_cli_session_def select_cli_session_project_def Let_def split: option.split)
  qed
qed

definition session_dead :: "coordinator \<Rightarrow> digest \<Rightarrow> bool" where
  "session_dead c dg \<longleftrightarrow> map_option cs_revoked (bget (du_cli_sessions (co_durable c)) dg) = Some True"

lemma dead_revoke_sessions:
  "session_dead c dg \<Longrightarrow> session_dead (fst (revoke_cli_sessions_for_tenant c t)) dg"
  by (auto simp: session_dead_def revoke_cli_sessions_for_tenant_def Let_def bget_bmap_values)

lemma dead_same:
  "session_dead c dg \<Longrightarrow> du_cli_sessions (co_durable c') = du_cli_sessions (co_durable c) \<Longrightarrow> session_dead c' dg"
  by (simp add: session_dead_def)

lemma dead_select:
  "select_cli_session_project H c secret p now = Some (Inr (c', r)) \<Longrightarrow> session_dead c' dg = session_dead c dg"
  by (auto simp: session_dead_def select_cli_session_project_def Let_def bget_binsert
      split: option.splits sum.splits if_splits)

lemma dead_revoke_session:
  "revoke_cli_session H c secret now = Some (Inr (c', r)) \<Longrightarrow> session_dead c dg \<Longrightarrow> session_dead c' dg"
  by (auto simp: session_dead_def revoke_cli_session_def Let_def bget_binsert
      split: option.splits sum.splits if_splits)

lemma dead_frame:
  assumes "coordinator_step H c l c'" and "l \<noteq> Issues dg" and "session_dead c dg"
  shows "session_dead c' dg"
  using assms
proof (induction rule: coordinator_step.induct)
  case (Issue c secret t p u expires)
  then show ?case
    by (simp add: session_dead_def issue_cli_session_def Let_def bget_binsert upsert_user_def upsert_tenant_def)
qed (simp_all add: dead_revoke_sessions dead_select dead_revoke_session,
    (erule dead_same, auto simp: boot_def upsert_tenant_def upsert_user_def
      upsert_project_def co_grant_project_debug_def upsert_source_provider_config_def
      upsert_service_policy_record_def suspend_tenant_def resume_tenant_def record_hosted_admin_audit_def
      replace_tenant_quota_override_def start_process_for_launch_attempt_def co_abort_process_def
      abort_process_for_launch_attempt_def enroll_node_def exchange_node_enrollment_grant_def
      mark_node_identity_seen_def reconnect_node_def revoke_node_credential_def with_directory_def
      Let_def split: option.splits sum.splits if_splits prod.splits actor.splits)+)

lemma steps_keep_dead:
  "coordinator_steps H (\<lambda>l. l \<noteq> Issues dg) c c' \<Longrightarrow> session_dead c dg \<Longrightarrow> session_dead c' dg"
  by (induction rule: coordinator_steps.induct) (auto intro: dead_frame)

text \<open>
  C16. A revoked CLI session stays revoked: after a successful revocation the secret is refused
  with the revocation message, even for a status query, at every clock reading and after every
  other operation and restart, unless a session is issued again for the same secret.
\<close>

theorem revoked_session_stays_revoked:
  assumes "revoke_cli_session H c secret now = Some (Inr (c1, r))"
    and "coordinator_steps H (\<lambda>l. l \<noteq> Issues (digest_sha256 H secret)) c1 c'"
  shows "authenticate_cli_session_for_status H c' secret now'
      = Inl (Unauthorized ''CLI session credential has been revoked'')
    \<and> authenticate_cli_session H c' secret now'
      = Inl (Unauthorized ''CLI session credential has been revoked'')"
proof -
  from assms(1) have dead: "session_dead c1 (digest_sha256 H secret)" and blank: "\<not> str_is_blank secret"
    by (auto simp: revoke_cli_session_def session_dead_def Let_def bget_binsert authenticate_cli_session_def
        authenticate_cli_session_with_tenant_policy_def split: sum.splits option.splits if_splits)
  from steps_keep_dead [OF assms(2) dead] blank show ?thesis
    by (auto simp: session_dead_def authenticate_cli_session_for_status_def authenticate_cli_session_def
        authenticate_cli_session_with_tenant_policy_def)
qed

text \<open>
  Revoking a node's credential removes exactly that node: it has no identity and no
  credential record afterwards, is authorized for no process and connected to none of its
  project; every other identity and every other node's connections are as before.
\<close>

theorem node_revocation_exact:
  assumes "coordinator_steps H P (boot durable_state_default e) c"
    and "revoke_node_credential c ctx n = Inr (c', i)"
  shows "node_identity c' (ac_tenant ctx, ac_project ctx, n) = None
    \<and> authorize_node_for_process c' n (ac_tenant ctx) (ac_project ctx) v = Inl UnknownNode
    \<and> (\<forall>a. get_active_process c' (ac_tenant ctx) (ac_project ctx) v = Some a \<longrightarrow> n \<notin> set (ap_connected_nodes a))
    \<and> (\<forall>s. s \<noteq> (ac_tenant ctx, ac_project ctx, n) \<longrightarrow> node_identity c' s = node_identity c s)
    \<and> (\<forall>t p m. (t, p, m) \<noteq> (ac_tenant ctx, ac_project ctx, n) \<longrightarrow>
         (\<exists>a. get_active_process c t p v = Some a \<and> m \<in> set (ap_connected_nodes a))
         \<longleftrightarrow> (\<exists>a. get_active_process c' t p v = Some a \<and> m \<in> set (ap_connected_nodes a)))"
proof -
  have keyed: "ap_tenant a = t \<and> ap_project a = p"
    if "bget (co_active_processes c) (t, p, v) = Some a" for t p a
    using coordinator_okD(1) [OF coordinator_steps_ok [OF assms(1) coordinator_ok_default]] that
    by (auto simp: keyed_def)
  note c' = revoke_node_eq [OF assms(2)]
  have look: "get_active_process c' t p v = map_option (\<lambda>a. if t = ac_tenant ctx \<and> p = ac_project ctx
      then a\<lparr>ap_connected_nodes := sremove n (ap_connected_nodes a)\<rparr> else a) (get_active_process c t p v)" for t p
    by (cases "bget (co_active_processes c) (t, p, v)")
      (auto simp: c' get_active_process_def bget_bmap_values in_project_def dest: keyed)
  have "node_identity c' s = (if s = (ac_tenant ctx, ac_project ctx, n) then None else node_identity c s)" for s
    by (simp add: c' node_identity_def bget_bremove)
  moreover have "authorize_node_for_process c' n (ac_tenant ctx) (ac_project ctx) v = Inl UnknownNode"
    by (simp add: c' authorize_node_for_process_def bmap_simps)
  moreover have "n \<notin> set (ap_connected_nodes a)"
    if "get_active_process c' (ac_tenant ctx) (ac_project ctx) v = Some a" for a
    using that by (auto simp: look set_sremove)
  moreover have "(\<exists>a. get_active_process c t p v = Some a \<and> m \<in> set (ap_connected_nodes a))
      \<longleftrightarrow> (\<exists>a. get_active_process c' t p v = Some a \<and> m \<in> set (ap_connected_nodes a))"
    if "(t, p, m) \<noteq> (ac_tenant ctx, ac_project ctx, n)" for t p m
    using that by (cases "get_active_process c t p v") (auto simp: look set_sremove)
  ultimately show ?thesis by simp
qed

section \<open>Witnesses\<close>

definition example_coordinator :: coordinator where
  "example_coordinator =
     (let H = (\<lambda>s. s);
          c = upsert_project (upsert_project (boot durable_state_default 1) ''t'' ''p'' ''one'') ''t'' ''q'' ''two'';
          c = fst (issue_cli_session H c ''t'' ''p'' ''u'' ''secret'' None);
          c = fst (start_process_for_launch_attempt (enroll_node c ''t'' ''p'' ''n'' ''key'' ''sc'') ''t'' ''p'' ''v'' None)
      in case reconnect_node c ''t'' ''p'' ''n'' (Some (''v'', 1)) of Inr c \<Rightarrow> c | Inl _ \<Rightarrow> c)"

lemma example_reachable:
  "coordinator_steps (\<lambda>s. s) (\<lambda>_. True) (boot durable_state_default 1) example_coordinator"
proof -
  let ?b = "boot durable_state_default 1"
  note one = Step [where P = "\<lambda>_. True", OF _ _ TrueI]
  note step1 = one [OF Refl Upsert_Project, of "\<lambda>s. s" ?b "''t''" "''p''" "''one''"]
  note step2 = one [OF step1 Upsert_Project, of "''t''" "''q''" "''two''"]
  note step3 = one [OF step2 Issue, of "''t''" "''p''" "''u''" "''secret''" None]
  note step4 = one [OF step3 Enroll, of "''t''" "''p''" "''n''" "''key''" "''sc''"]
  note step5 = one [OF step4 Start, of "''t''" "''p''" "''v''" None]
  show ?thesis
    unfolding example_coordinator_def Let_def
    using step5 by (auto split: sum.split intro: one [OF step5 Reconnect])
qed

theorem coordinator_invariant_witness:
  "coordinator_ok example_coordinator \<and> co_active_processes example_coordinator \<noteq> []"
proof
  show "coordinator_ok example_coordinator"
    using example_reachable by (rule coordinator_invariant)
  show "co_active_processes example_coordinator \<noteq> []"
    by code_simp
qed

theorem suspended_tenant_locked_out_witness:
  "let c = fst (suspend_tenant (\<lambda>s. s) example_coordinator ''t'' ''op'');
       c' = fst (issue_cli_session (\<lambda>s. s) c ''t'' ''p'' ''u'' ''later'' None)
   in (\<exists>m. ensure_tenant_active c' ''t'' = Inl (Unauthorized m))
    \<and> (\<exists>m. authenticate_cli_session (\<lambda>s. s) c' ''later'' 5 = Inl (Unauthorized m))"
proof -
  define c where "c = fst (suspend_tenant (\<lambda>s. s) example_coordinator ''t'' ''op'')"
  define c' where "c' = fst (issue_cli_session (\<lambda>s. s) c ''t'' ''p'' ''u'' ''later'' None)"
  have "coordinator_steps (\<lambda>s. s) (\<lambda>l. l \<noteq> Resumes ''t'') c c'"
    unfolding c'_def by (rule coordinator_steps.Step [OF coordinator_steps.Refl Issue]) simp
  from suspended_tenant_locked_out [OF this [unfolded c_def]]
  have "\<exists>m. ensure_tenant_active c' ''t'' = Inl (Unauthorized m)" by blast
  moreover have "authenticate_cli_session (\<lambda>s. s) c' ''later'' 5
      = Inl (Unauthorized ''tenant is suspended by admin controls'')"
    unfolding c'_def c_def by code_simp
  ultimately show ?thesis
    unfolding c_def [symmetric] Let_def c'_def [symmetric] by blast
qed

theorem session_operations_total_witness:
  "case select_cli_session_project (\<lambda>s. s) example_coordinator ''secret'' ''q'' 3 of
     Some (Inr (c', s)) \<Rightarrow> cs_tenant s = ''t'' \<and> cs_project s = ''q''
       \<and> authenticate_cli_session (\<lambda>s. s) c' ''secret'' 3
           = Inr \<lparr>ac_tenant = cs_tenant s, ac_project = ''q'', ac_actor = User (cs_user s)\<rparr>
   | _ \<Rightarrow> False"
proof -
  have "case select_cli_session_project (\<lambda>s. s) example_coordinator ''secret'' ''q'' 3 of
      Some (Inr (c', s)) \<Rightarrow> cs_tenant s = ''t'' \<and> cs_project s = ''q'' | _ \<Rightarrow> False"
    by code_simp
  then show ?thesis
    using session_operations_total [OF example_reachable, of "''secret''" 3 "''q''"]
    by (auto split: option.splits sum.splits)
qed

theorem revoked_session_stays_revoked_witness:
  "case revoke_cli_session (\<lambda>s. s) example_coordinator ''secret'' 3 of
     Some (Inr (c1, r)) \<Rightarrow>
       authenticate_cli_session_for_status (\<lambda>s. s) (boot (co_durable c1) 2) ''secret'' 9
         = Inl (Unauthorized ''CLI session credential has been revoked'')
   | _ \<Rightarrow> False"
proof -
  have "case revoke_cli_session (\<lambda>s. s) example_coordinator ''secret'' 3 of Some (Inr _) \<Rightarrow> True | _ \<Rightarrow> False"
    by code_simp
  then obtain c1 r where res: "revoke_cli_session (\<lambda>s. s) example_coordinator ''secret'' 3 = Some (Inr (c1, r))"
    by (auto split: option.splits sum.splits)
  have "coordinator_steps (\<lambda>s. s) (\<lambda>l. l \<noteq> Issues (digest_sha256 (\<lambda>s. s) ''secret'')) c1 (boot (co_durable c1) 2)"
    by (rule coordinator_steps.Step [OF coordinator_steps.Refl Restart]) simp
  from revoked_session_stays_revoked [OF res this, of 9] show ?thesis by (simp add: res)
qed

theorem node_revocation_exact_witness:
  "let ctx = \<lparr>ac_tenant = ''t'', ac_project = ''p'', ac_actor = User ''u''\<rparr>
   in case revoke_node_credential example_coordinator ctx ''n'' of
        Inr (c', i) \<Rightarrow> node_identity example_coordinator (''t'', ''p'', ''n'') = Some i
          \<and> node_identity c' (''t'', ''p'', ''n'') = None
      | Inl _ \<Rightarrow> False"
proof -
  define ctx where "ctx = \<lparr>ac_tenant = ''t'', ac_project = ''p'', ac_actor = User ''u''\<rparr>"
  have "case revoke_node_credential example_coordinator ctx ''n'' of
      Inr (c', i) \<Rightarrow> node_identity example_coordinator (''t'', ''p'', ''n'') = Some i | Inl _ \<Rightarrow> False"
    unfolding ctx_def by code_simp
  then obtain c' i where res: "revoke_node_credential example_coordinator ctx ''n'' = Inr (c', i)"
      "node_identity example_coordinator (''t'', ''p'', ''n'') = Some i"
    by (auto split: sum.splits)
  from node_revocation_exact [OF example_reachable res(1)]
  have "node_identity c' (ac_tenant ctx, ac_project ctx, ''n'') = None" by blast
  then have "node_identity c' (''t'', ''p'', ''n'') = None" by (simp add: ctx_def)
  then show ?thesis
    unfolding ctx_def [symmetric] Let_def by (simp add: res)
qed

end
