(* ===== verification/CF_Scheduler.thy ===== *)
theory CF_Scheduler
  imports CF_Coordinator
begin

text \<open>
  Node capabilities and placement (\<open>clusterflux-core/src/capability.rs\<close>, \<open>scheduler.rs\<close> and the
  connectivity facts of \<open>artifact_transfer.rs\<close>): the descriptors nodes report, the validation
  of a report, and the default scheduler, which rejects incompatible nodes with reasons and
  picks the best locality score among the others. The scores are \<open>i64\<close> in the code and
  \<open>int\<close> here; the bounds proved below keep them far from the ends of \<open>i64\<close>.
\<close>

section \<open>Capabilities\<close>

datatype capability =
    Command | Containers | RootlessPodman | ContainerdNerdctl | SourceFilesystem | SourceGit
  | HostFilesystem | Network | Secrets | InboundPorts | ArbitrarySyscalls | VfsArtifacts
  | ArtifactTransfer | WindowsCommandDev

text \<open>The derived \<open>Debug\<close> of a capability is its name.\<close>

fun capability_debug :: "capability \<Rightarrow> string" where
  "capability_debug Command = ''Command''"
| "capability_debug Containers = ''Containers''"
| "capability_debug RootlessPodman = ''RootlessPodman''"
| "capability_debug ContainerdNerdctl = ''ContainerdNerdctl''"
| "capability_debug SourceFilesystem = ''SourceFilesystem''"
| "capability_debug SourceGit = ''SourceGit''"
| "capability_debug HostFilesystem = ''HostFilesystem''"
| "capability_debug Network = ''Network''"
| "capability_debug Secrets = ''Secrets''"
| "capability_debug InboundPorts = ''InboundPorts''"
| "capability_debug ArbitrarySyscalls = ''ArbitrarySyscalls''"
| "capability_debug VfsArtifacts = ''VfsArtifacts''"
| "capability_debug ArtifactTransfer = ''ArtifactTransfer''"
| "capability_debug WindowsCommandDev = ''WindowsCommandDev''"

fun capability_index :: "capability \<Rightarrow> nat" where
  "capability_index Command = 0"
| "capability_index Containers = 1"
| "capability_index RootlessPodman = 2"
| "capability_index ContainerdNerdctl = 3"
| "capability_index SourceFilesystem = 4"
| "capability_index SourceGit = 5"
| "capability_index HostFilesystem = 6"
| "capability_index Network = 7"
| "capability_index Secrets = 8"
| "capability_index InboundPorts = 9"
| "capability_index ArbitrarySyscalls = 10"
| "capability_index VfsArtifacts = 11"
| "capability_index ArtifactTransfer = 12"
| "capability_index WindowsCommandDev = 13"

lemma capability_index_inj: "capability_index a = capability_index b \<longleftrightarrow> a = b"
  by (cases a; cases b) simp_all

instantiation capability :: linorder
begin

definition less_eq_capability :: "capability \<Rightarrow> capability \<Rightarrow> bool" where
  "a \<le> b \<longleftrightarrow> capability_index a \<le> capability_index b"

definition less_capability :: "capability \<Rightarrow> capability \<Rightarrow> bool" where
  "a < b \<longleftrightarrow> capability_index a < capability_index b"

instance
  by standard
    (auto simp: less_eq_capability_def less_capability_def capability_index_inj [symmetric])

end

datatype node_work_policy = NormalWork | ExecutionOnly | SystemTasksOnly

datatype system_task_sandbox = SandboxRootlessPodman | SandboxGvisor | SandboxDedicatedVm

record system_bundle_capability =
  sb_bundle_id :: string
  sb_bundle_digest :: digest
  sb_sdk_abi_version :: u32
  sb_wasm_target :: string
  sb_rust_toolchain :: string
  sb_environment_digest :: digest
  sb_sandbox :: system_task_sandbox
  sb_max_source_bytes :: nat
  sb_max_output_bytes :: nat
  sb_max_concurrent_assignments :: "16 word"

datatype environment_backend = BackendContainer | BackendNixFlake | BackendWindowsCommandDev

datatype os = Linux | Windows | Macos | OtherOs string

fun os_debug :: "os \<Rightarrow> string" where
  "os_debug Linux = ''Linux''"
| "os_debug Windows = ''Windows''"
| "os_debug Macos = ''Macos''"
| "os_debug (OtherOs s) = ''Other('' @ debug_str s @ '')''"

record node_capabilities =
  np_os :: os
  np_arch :: string
  np_capabilities :: "capability bset"
  np_environment_backends :: "environment_backend list"
  np_source_providers :: "string bset"
  np_work_policy :: node_work_policy
  np_system_bundles :: "system_bundle_capability list"

datatype capability_report_error =
    InvalidArchitecture string
  | InvalidOsLabel string
  | InvalidSourceProvider string
  | InvalidSystemBundle string

definition with_capability :: "node_capabilities \<Rightarrow> capability \<Rightarrow> node_capabilities" where
  "with_capability n capability = n\<lparr>np_capabilities := sinsert capability (np_capabilities n)\<rparr>"

definition has_all :: "node_capabilities \<Rightarrow> capability bset \<Rightarrow> bool" where
  "has_all n required = list_all (\<lambda>capability. capability \<in> set (np_capabilities n)) required"

definition ascii_lower :: "char \<Rightarrow> bool" where
  "ascii_lower ch = (let n = of_char ch :: nat in 97 \<le> n \<and> n \<le> 122)"

definition ascii_upper :: "char \<Rightarrow> bool" where
  "ascii_upper ch = (let n = of_char ch :: nat in 65 \<le> n \<and> n \<le> 90)"

definition ascii_digit :: "char \<Rightarrow> bool" where
  "ascii_digit ch = (let n = of_char ch :: nat in 48 \<le> n \<and> n \<le> 57)"

definition valid_capability_label :: "string \<Rightarrow> bool" where
  "valid_capability_label label \<longleftrightarrow> label \<noteq> [] \<and> length label \<le> 64
     \<and> list_all (\<lambda>b. ascii_lower b \<or> ascii_upper b \<or> ascii_digit b \<or> b \<in> set ''-_.'') label"

definition valid_source_provider_id :: "string \<Rightarrow> bool" where
  "valid_source_provider_id provider \<longleftrightarrow> provider \<noteq> [] \<and> length provider \<le> 64
     \<and> list_all (\<lambda>b. ascii_lower b \<or> ascii_digit b \<or> b \<in> set ''-_.'') provider"

definition invalid_system_bundle :: "system_bundle_capability \<Rightarrow> bool" where
  "invalid_system_bundle b \<longleftrightarrow>
     \<not> valid_capability_label (sb_bundle_id b) \<or> \<not> is_valid_sha256 (sb_bundle_digest b)
     \<or> sb_sdk_abi_version b = 0 \<or> sb_wasm_target b \<noteq> ''wasm32-unknown-unknown''
     \<or> str_is_blank (sb_rust_toolchain b) \<or> \<not> is_valid_sha256 (sb_environment_digest b)
     \<or> sb_max_source_bytes b = 0 \<or> sb_max_output_bytes b = 0 \<or> sb_max_concurrent_assignments b = 0"

definition validate_public_report :: "node_capabilities \<Rightarrow> capability_report_error + unit" where
  "validate_public_report n =
     (if \<not> valid_capability_label (np_arch n) then Inl (InvalidArchitecture (np_arch n))
      else case (case np_os n of
              OtherOs label \<Rightarrow> if \<not> valid_capability_label label then Some label else None
            | _ \<Rightarrow> None) of
        Some label \<Rightarrow> Inl (InvalidOsLabel label)
      | None \<Rightarrow>
        (case find (\<lambda>p. \<not> valid_source_provider_id p) (np_source_providers n) of
           Some provider \<Rightarrow> Inl (InvalidSourceProvider provider)
         | None \<Rightarrow>
           if list_ex invalid_system_bundle (np_system_bundles n)
           then Inl (InvalidSystemBundle ''metadata or limits are invalid'')
           else if length (remdups (map (\<lambda>b. (sb_bundle_id b, sb_bundle_digest b)) (np_system_bundles n)))
                  \<noteq> length (np_system_bundles n)
           then Inl (InvalidSystemBundle ''duplicate system bundle identity'')
           else Inr ()))"

section \<open>Descriptors and requests\<close>

datatype relay_policy = DirectRequired | RelayFallbackAllowed

datatype path_kind = PathLocal | PathDirect | PathRelayed | PathUnknown

record artifact_connectivity_facts =
  cf_endpoint_advertised :: bool
  cf_recent_path :: path_kind
  cf_recent_direct_failure :: bool
  cf_relay_policy :: relay_policy

definition artifact_connectivity_facts_default :: artifact_connectivity_facts where
  "artifact_connectivity_facts_default =
     \<lparr>cf_endpoint_advertised = False, cf_recent_path = PathUnknown, cf_recent_direct_failure = False,
      cf_relay_policy = DirectRequired\<rparr>"

record node_descriptor =
  nd_id :: node_id
  nd_tenant :: tenant_id
  nd_project :: project_id
  nd_capabilities :: node_capabilities
  nd_cached_environments :: "digest bset"
  nd_dependency_caches :: "digest bset"
  nd_source_snapshots :: "digest bset"
  nd_artifact_locations :: "artifact_id bset"
  nd_artifact_connectivity :: artifact_connectivity_facts
  nd_online :: bool

record environment_requirements =
  er_os :: "os option"
  er_arch :: "string option"
  er_capabilities :: "capability bset"
  er_secret_declarations :: "string bset"

record placement_request =
  pr_tenant :: tenant_id
  pr_project :: project_id
  pr_environment :: "environment_requirements option"
  pr_environment_digest :: "digest option"
  pr_environment_cache_required :: bool
  pr_required_capabilities :: "capability bset"
  pr_dependency_cache :: "digest option"
  pr_source_snapshot :: "digest option"
  pr_required_artifacts :: "artifact_id bset"
  pr_quota_available :: bool
  pr_policy_allowed :: bool
  pr_prefer_node :: "node_id option"

record placement =
  pl_node :: node_id
  pl_score :: int
  pl_reasons :: "string list"

section \<open>Compatibility\<close>

definition missing_artifacts :: "node_descriptor \<Rightarrow> placement_request \<Rightarrow> artifact_id list" where
  "missing_artifacts node request =
     filter (\<lambda>a. a \<notin> set (nd_artifact_locations node)) (pr_required_artifacts request)"

definition environment_reasons :: "node_capabilities \<Rightarrow> environment_requirements \<Rightarrow> string list" where
  "environment_reasons n env =
     (case er_os env of
        None \<Rightarrow> []
      | Some required \<Rightarrow>
          if np_os n \<noteq> required then [''environment requires os '' @ os_debug required] else [])
     @ (case er_arch env of
        None \<Rightarrow> []
      | Some required \<Rightarrow>
          if np_arch n \<noteq> required then [''environment requires arch '' @ required] else [])
     @ map (\<lambda>c. ''environment requires capability '' @ capability_debug c)
         (filter (\<lambda>c. c \<notin> set (np_capabilities n)) (er_capabilities env))"

definition rejection_reasons :: "node_descriptor \<Rightarrow> placement_request \<Rightarrow> string list" where
  "rejection_reasons node request =
     (if \<not> nd_online node then [''node offline''] else [])
     @ (if nd_tenant node \<noteq> pr_tenant request then [''tenant mismatch''] else [])
     @ (if nd_project node \<noteq> pr_project request then [''project mismatch''] else [])
     @ (if \<not> pr_quota_available request then [''quota unavailable for placement''] else [])
     @ (if \<not> pr_policy_allowed request then [''policy denied placement''] else [])
     @ (if np_work_policy (nd_capabilities node) = SystemTasksOnly
        then [''system-tasks-only node does not execute process tasks''] else [])
     @ map (\<lambda>c. ''missing capability '' @ capability_debug c)
         (filter (\<lambda>c. c \<notin> set (np_capabilities (nd_capabilities node))) (pr_required_capabilities request))
     @ (case pr_environment request of
          None \<Rightarrow> [] | Some env \<Rightarrow> environment_reasons (nd_capabilities node) env)
     @ (if pr_environment_cache_required request
        then (case pr_environment_digest request of
            Some d \<Rightarrow> if d \<notin> set (nd_cached_environments node)
                      then [''required named environment cache '' @ d @ '' is unavailable''] else []
          | None \<Rightarrow> [''required named environment cache digest is missing''])
        else [])
     @ (case pr_source_snapshot request of
          None \<Rightarrow> []
        | Some d \<Rightarrow> if d \<notin> set (nd_source_snapshots node)
                    then [''required source snapshot is not local to this node''] else [])
     @ (let missing = length (missing_artifacts node request)
        in if missing > 0 \<and> \<not> cf_endpoint_advertised (nd_artifact_connectivity node)
           then [nat_to_string missing
                  @ '' required artifact(s) unavailable and peer data-plane endpoint unavailable'']
           else [])"

definition compatibility :: "node_descriptor \<Rightarrow> placement_request \<Rightarrow> string list + placement" where
  "compatibility node request =
     (let reasons = rejection_reasons node request
      in if reasons = [] then Inr \<lparr>pl_node = nd_id node, pl_score = 0, pl_reasons = []\<rparr>
         else Inl reasons)"

section \<open>Locality\<close>

definition add_score :: "int \<Rightarrow> string \<Rightarrow> placement \<Rightarrow> placement" where
  "add_score points reason p =
     p\<lparr>pl_score := pl_score p + points, pl_reasons := pl_reasons p @ [reason]\<rparr>"

definition has_digest :: "digest option \<Rightarrow> digest bset \<Rightarrow> bool" where
  "has_digest wanted cached = (case wanted of None \<Rightarrow> False | Some d \<Rightarrow> d \<in> set cached)"

definition local_artifacts :: "node_descriptor \<Rightarrow> placement_request \<Rightarrow> artifact_id list" where
  "local_artifacts node request =
     filter (\<lambda>a. a \<in> set (nd_artifact_locations node)) (pr_required_artifacts request)"

definition connectivity_score :: "artifact_connectivity_facts \<Rightarrow> placement \<Rightarrow> placement" where
  "connectivity_score facts p =
     (let p = (case cf_recent_path facts of
              PathLocal \<Rightarrow> add_score 10 ''recent local artifact cache hit'' p
            | PathDirect \<Rightarrow> add_score 5 ''recent direct artifact path'' p
            | PathRelayed \<Rightarrow>
                if cf_relay_policy facts = RelayFallbackAllowed
                then add_score (- 10) ''artifact transfer may use configured self-hosted relay'' p else p
            | PathUnknown \<Rightarrow> p)
      in if cf_recent_direct_failure facts
         then add_score (- 20) ''recent direct artifact path failure'' p else p)"

definition locality_score :: "node_descriptor \<Rightarrow> placement_request \<Rightarrow> placement \<Rightarrow> placement" where
  "locality_score node request p =
     (let p = (if pr_prefer_node request = Some (nd_id node)
               then add_score 100 ''preferred node'' p else p);
          p = (if has_digest (pr_environment_digest request) (nd_cached_environments node)
               then add_score 50 ''warm environment cache'' p else p);
          p = (if has_digest (pr_source_snapshot request) (nd_source_snapshots node)
               then add_score 40 ''source snapshot already local'' p else p);
          p = (if has_digest (pr_dependency_cache request) (nd_dependency_caches node)
               then add_score 30 ''warm dependency cache'' p else p);
          artifact_hits = length (local_artifacts node request);
          p = (if artifact_hits > 0
               then add_score (10 * int artifact_hits)
                 (nat_to_string artifact_hits @ '' required artifact(s) already local'') p else p);
          missing = length (pr_required_artifacts request) - artifact_hits
      in if missing > 0 \<and> cf_endpoint_advertised (nd_artifact_connectivity node)
         then connectivity_score (nd_artifact_connectivity node) p else p)"

section \<open>Placement\<close>

text \<open>\<open>Iterator::max_by_key\<close> returns the last of the maximal elements.\<close>

fun last_max_by :: "('a \<Rightarrow> int) \<Rightarrow> 'a list \<Rightarrow> 'a option" where
  "last_max_by key [] = None"
| "last_max_by key (x # xs) =
     (case last_max_by key xs of
        None \<Rightarrow> Some x
      | Some y \<Rightarrow> if key x \<le> key y then Some y else Some x)"

definition count_reason :: "string \<Rightarrow> (string, nat) bmap \<Rightarrow> (string, nat) bmap" where
  "count_reason reason counts =
     binsert reason (Suc (case bget counts reason of None \<Rightarrow> 0 | Some n \<Rightarrow> n)) counts"

fun join_with :: "string \<Rightarrow> string list \<Rightarrow> string" where
  "join_with sep [] = []"
| "join_with sep [s] = s"
| "join_with sep (s # t # ss) = s @ sep @ join_with sep (t # ss)"

definition scan_node ::
  "placement_request \<Rightarrow> node_descriptor \<Rightarrow> placement list \<times> (string, nat) bmap
     \<Rightarrow> placement list \<times> (string, nat) bmap" where
  "scan_node request node acc =
     (case compatibility node request of
        Inr p \<Rightarrow> (fst acc @ [locality_score node request p], snd acc)
      | Inl reasons \<Rightarrow> (fst acc, fold count_reason reasons (snd acc)))"

definition rejection_message :: "(string, nat) bmap \<Rightarrow> string" where
  "rejection_message counts =
     join_with ''; '' (map (\<lambda>(reason, n). reason @ '' ('' @ nat_to_string n @ '' node(s))'') counts)"

definition place :: "node_descriptor list \<Rightarrow> placement_request \<Rightarrow> string + placement" where
  "place nodes request =
     (let (scored, counts) = fold (scan_node request) nodes ([], [])
      in case last_max_by pl_score scored of
           Some p \<Rightarrow> Inr p
         | None \<Rightarrow> Inl (rejection_message counts))"

section \<open>What placement promises\<close>

text \<open>The nodes on which a request may run, stated without reference to the reasons.\<close>

definition environment_satisfied :: "node_capabilities \<Rightarrow> environment_requirements \<Rightarrow> bool" where
  "environment_satisfied n env \<longleftrightarrow>
     (er_os env = None \<or> er_os env = Some (np_os n))
     \<and> (er_arch env = None \<or> er_arch env = Some (np_arch n))
     \<and> set (er_capabilities env) \<subseteq> set (np_capabilities n)"

definition eligible :: "node_descriptor \<Rightarrow> placement_request \<Rightarrow> bool" where
  "eligible node request \<longleftrightarrow>
     nd_online node \<and> nd_tenant node = pr_tenant request \<and> nd_project node = pr_project request
     \<and> pr_quota_available request \<and> pr_policy_allowed request
     \<and> np_work_policy (nd_capabilities node) \<noteq> SystemTasksOnly
     \<and> set (pr_required_capabilities request) \<subseteq> set (np_capabilities (nd_capabilities node))
     \<and> (\<forall>env. pr_environment request = Some env \<longrightarrow> environment_satisfied (nd_capabilities node) env)
     \<and> (pr_environment_cache_required request \<longrightarrow>
          has_digest (pr_environment_digest request) (nd_cached_environments node))
     \<and> (pr_source_snapshot request = None \<or> has_digest (pr_source_snapshot request) (nd_source_snapshots node))
     \<and> (set (pr_required_artifacts request) \<subseteq> set (nd_artifact_locations node)
        \<or> cf_endpoint_advertised (nd_artifact_connectivity node))"

definition placement_of :: "node_descriptor \<Rightarrow> placement_request \<Rightarrow> placement" where
  "placement_of node request =
     locality_score node request \<lparr>pl_node = nd_id node, pl_score = 0, pl_reasons = []\<rparr>"

lemma environment_reasons_empty: "environment_reasons n env = [] \<longleftrightarrow> environment_satisfied n env"
  by (auto simp: environment_reasons_def environment_satisfied_def filter_empty_conv split: option.split)

lemma rejection_reasons_empty: "rejection_reasons node request = [] \<longleftrightarrow> eligible node request"
  unfolding rejection_reasons_def eligible_def has_digest_def missing_artifacts_def Let_def
    append_is_Nil_conv
  by (auto simp: environment_reasons_empty filter_empty_conv split: option.split)

lemma compatibility_cases:
  "compatibility node request =
     (if eligible node request then Inr \<lparr>pl_node = nd_id node, pl_score = 0, pl_reasons = []\<rparr>
      else Inl (rejection_reasons node request))"
  by (simp add: compatibility_def Let_def rejection_reasons_empty)

lemma fold_scan_node:
  "fold (scan_node request) nodes (s, c) =
     (s @ map (\<lambda>n. placement_of n request) (filter (\<lambda>n. eligible n request) nodes),
      fold count_reason
        (concat (map (\<lambda>n. rejection_reasons n request) (filter (\<lambda>n. \<not> eligible n request) nodes))) c)"
  by (induction nodes arbitrary: s c) (auto simp: scan_node_def compatibility_cases placement_of_def)

lemma last_max_by_None: "last_max_by key xs = None \<longleftrightarrow> xs = []"
  by (induction xs) (auto split: option.split)

lemma last_max_by_Some:
  "last_max_by key xs = Some y \<Longrightarrow>
     \<exists>as bs. xs = as @ y # bs \<and> (\<forall>x \<in> set as. key x \<le> key y) \<and> (\<forall>x \<in> set bs. key x < key y)"
proof (induction xs)
  case (Cons x xs)
  show ?case
  proof (cases "last_max_by key xs")
    case None
    with Cons.prems have "x # xs = [] @ y # []" by (simp add: last_max_by_None)
    then show ?thesis by fastforce
  next
    case (Some z)
    from Cons.IH [unfolded Some] obtain as bs where
      z: "xs = as @ z # bs" "\<forall>x \<in> set as. key x \<le> key z" "\<forall>x \<in> set bs. key x < key z"
      if "z = y" using Some Cons.IH by fastforce
    show ?thesis
    proof (cases "key x \<le> key z")
      case True
      with Cons.prems Some have "z = y" by simp
      with z True have "x # xs = (x # as) @ y # bs" "\<forall>v \<in> set (x # as). key v \<le> key y"
        "\<forall>v \<in> set bs. key v < key y" by auto
      then show ?thesis by blast
    next
      case False
      with Cons.prems Some have "x = y" by simp
      have "\<forall>v \<in> set xs. key v \<le> key z"
        using Some
      proof (induction xs arbitrary: z)
        case (Cons w ws)
        then show ?case by (fastforce split: option.splits if_splits simp: last_max_by_None)
      qed simp
      with False \<open>x = y\<close> have "x # xs = [] @ y # xs" "\<forall>v \<in> set xs. key v < key y" by auto
      then show ?thesis by fastforce
    qed
  qed
qed simp

lemma fold_count_reason:
  "bget (fold count_reason rs c) r =
     (if r \<in> set rs then Some (count_list rs r + (case bget c r of None \<Rightarrow> 0 | Some n \<Rightarrow> n)) else bget c r)"
  by (induction rs arbitrary: c) (auto simp: count_reason_def bget_binsert split: option.split)

text \<open>
  The contract of the trait \<open>Scheduler\<close>, which the launch handlers rely on: a placement is on an
  eligible node that no other eligible node beats, and a refusal means that no node is eligible.
\<close>

locale scheduler =
  fixes place_on :: "node_descriptor list \<Rightarrow> placement_request \<Rightarrow> string + placement"
    and accepts :: "node_descriptor \<Rightarrow> placement_request \<Rightarrow> bool"
    and rating :: "node_descriptor \<Rightarrow> placement_request \<Rightarrow> int"
  assumes placed: "place_on nodes request = Inr p \<Longrightarrow>
      \<exists>n \<in> set nodes. accepts n request \<and> pl_node p = nd_id n \<and> pl_score p = rating n request
        \<and> (\<forall>m \<in> set nodes. accepts m request \<longrightarrow> rating m request \<le> rating n request)"
    and refused: "place_on nodes request = Inl message \<Longrightarrow> n \<in> set nodes \<Longrightarrow> \<not> accepts n request"
begin

lemma places_iff: "(\<exists>p. place_on nodes request = Inr p) \<longleftrightarrow> (\<exists>n \<in> set nodes. accepts n request)"
proof (cases "place_on nodes request")
  case (Inl message)
  then show ?thesis using refused by fastforce
next
  case (Inr p)
  then show ?thesis using placed by fastforce
qed

lemma placed_from:
  assumes "place_on (map f xs) request = Inr p"
  shows "\<exists>x \<in> set xs. accepts (f x) request \<and> pl_node p = nd_id (f x)"
  using placed [OF assms] by auto

lemma placed_best:
  assumes "place_on nodes request = Inr p" and "m \<in> set nodes" and "accepts m request"
  shows "rating m request \<le> pl_score p"
  using placed [OF assms(1)] assms(2, 3) by auto

end

lemma pl_node_connectivity [simp]: "pl_node (connectivity_score f p) = pl_node p"
  by (simp add: connectivity_score_def add_score_def Let_def split: path_kind.split)

lemma pl_node_placement_of [simp]: "pl_node (placement_of n request) = nd_id n"
  by (simp add: placement_of_def locality_score_def add_score_def Let_def)

lemma map_filter_split:
  assumes "map f (filter P xs) = as @ y # bs"
  shows "\<exists>us x vs. xs = us @ x # vs \<and> P x \<and> y = f x
    \<and> as = map f (filter P us) \<and> bs = map f (filter P vs)"
  using assms
proof (induction xs arbitrary: as)
  case (Cons x xs)
  show ?case
  proof (cases "P x \<and> as = []")
    case True
    with Cons.prems have "x # xs = [] @ x # xs \<and> P x \<and> y = f x \<and> as = map f (filter P [])
        \<and> bs = map f (filter P xs)" by simp
    then show ?thesis by blast
  next
    case False
    define as' where "as' = (if P x then tl as else as)"
    from False Cons.prems have "map f (filter P xs) = as' @ y # bs"
      by (auto simp: as'_def Cons_eq_append_conv split: if_splits)
    from Cons.IH [OF this] obtain us z vs where
      z: "xs = us @ z # vs" "P z" "y = f z" "as' = map f (filter P us)" "bs = map f (filter P vs)" by blast
    moreover from False Cons.prems z(4) have "as = map f (filter P (x # us))"
      by (auto simp: as'_def Cons_eq_append_conv split: if_splits)
    ultimately have "x # xs = (x # us) @ z # vs \<and> P z \<and> y = f z \<and> as = map f (filter P (x # us))
        \<and> bs = map f (filter P vs)" by simp
    then show ?thesis by blast
  qed
qed simp

lemma place_cases:
  "case place nodes request of
     Inr p \<Rightarrow> \<exists>before n after. nodes = before @ n # after \<and> eligible n request \<and> p = placement_of n request
        \<and> (\<forall>m \<in> set before. eligible m request \<longrightarrow> pl_score (placement_of m request) \<le> pl_score p)
        \<and> (\<forall>m \<in> set after. eligible m request \<longrightarrow> pl_score (placement_of m request) < pl_score p)
   | Inl message \<Rightarrow> (\<forall>n \<in> set nodes. \<not> eligible n request)
        \<and> message = rejection_message
            (fold count_reason (concat (map (\<lambda>n. rejection_reasons n request) nodes)) [])"
proof -
  let ?scored = "map (\<lambda>n. placement_of n request) (filter (\<lambda>n. eligible n request) nodes)"
  show ?thesis
  proof (cases "last_max_by pl_score ?scored")
    case None
    then have none: "\<forall>n \<in> set nodes. \<not> eligible n request"
      by (simp add: last_max_by_None filter_empty_conv)
    then have "filter (\<lambda>n. \<not> eligible n request) nodes = nodes" by (simp add: filter_id_conv)
    with None none show ?thesis by (simp add: place_def fold_scan_node)
  next
    case (Some p)
    from last_max_by_Some [OF this] obtain as bs where split: "?scored = as @ p # bs"
      and best: "\<forall>q \<in> set as. pl_score q \<le> pl_score p" "\<forall>q \<in> set bs. pl_score q < pl_score p" by blast
    from map_filter_split [OF split] obtain us n vs where
      "nodes = us @ n # vs" "eligible n request" "p = placement_of n request"
      "as = map (\<lambda>n. placement_of n request) (filter (\<lambda>n. eligible n request) us)"
      "bs = map (\<lambda>n. placement_of n request) (filter (\<lambda>n. eligible n request) vs)" by blast
    moreover have "place nodes request = Inr p"
      using Some by (simp add: place_def fold_scan_node)
    ultimately show ?thesis
      using best by (simp del: split_paired_Ex) blast
  qed
qed

interpretation default_scheduler: scheduler place eligible "\<lambda>n request. pl_score (placement_of n request)"
proof unfold_locales
  fix nodes request p
  assume "place nodes request = Inr p"
  with place_cases [of nodes request] obtain before n after where
    "nodes = before @ n # after" "eligible n request" "p = placement_of n request"
    "\<forall>m \<in> set before. eligible m request \<longrightarrow> pl_score (placement_of m request) \<le> pl_score p"
    "\<forall>m \<in> set after. eligible m request \<longrightarrow> pl_score (placement_of m request) < pl_score p" by auto
  then show "\<exists>n \<in> set nodes. eligible n request \<and> pl_node p = nd_id n
      \<and> pl_score p = pl_score (placement_of n request)
      \<and> (\<forall>m \<in> set nodes. eligible m request \<longrightarrow> pl_score (placement_of m request) \<le> pl_score (placement_of n request))"
    by (auto intro!: bexI [of _ n] dest: order_less_imp_le)
next
  fix nodes request message n
  assume "place nodes request = Inl message" and "n \<in> set nodes"
  then show "\<not> eligible n request" using place_cases [of nodes request] by auto
qed

lemma bwf_fold_count_reason: "bwf c \<Longrightarrow> bwf (fold count_reason rs c)"
  by (induction rs arbitrary: c) (simp_all add: count_reason_def)

lemma count_list_zero_iff: "count_list xs x = 0 \<longleftrightarrow> x \<notin> set xs"
  by (simp add: count_list_0_iff)

text \<open>
  C19. The default scheduler places a request exactly when some node is eligible for it: online,
  in the tenant and project, within quota and policy, willing to run process tasks, with every
  required capability, environment, cache, source snapshot and artifact or an endpoint to fetch
  it. The node chosen has the highest locality score among the eligible ones, the last such node
  on a tie. A refusal carries, for every reason a node was rejected for, how often it occurred.
\<close>

theorem placement_optimal:
  "case place nodes request of
     Inr p \<Rightarrow> \<exists>before n after. nodes = before @ n # after \<and> eligible n request \<and> p = placement_of n request
        \<and> (\<forall>m \<in> set before. eligible m request \<longrightarrow> pl_score (placement_of m request) \<le> pl_score p)
        \<and> (\<forall>m \<in> set after. eligible m request \<longrightarrow> pl_score (placement_of m request) < pl_score p)
   | Inl message \<Rightarrow> (\<forall>n \<in> set nodes. \<not> eligible n request)
        \<and> (\<exists>counts. bwf counts \<and> message = rejection_message counts
             \<and> (\<forall>r. bget counts r =
                   (let k = count_list (concat (map (\<lambda>n. rejection_reasons n request) nodes)) r
                    in if k = 0 then None else Some k)))"
proof (cases "place nodes request")
  case (Inl message)
  let ?rs = "concat (map (\<lambda>n. rejection_reasons n request) nodes)"
  have "bwf (fold count_reason ?rs [])" by (rule bwf_fold_count_reason) simp
  moreover have "bget (fold count_reason ?rs []) r =
      (let k = count_list ?rs r in if k = 0 then None else Some k)" for r
    by (simp add: fold_count_reason Let_def count_list_zero_iff del: set_concat)
  moreover have "(\<forall>n \<in> set nodes. \<not> eligible n request) \<and> message = rejection_message (fold count_reason ?rs [])"
    using place_cases [of nodes request] by (simp add: Inl)
  ultimately show ?thesis by (auto simp: Inl)
next
  case (Inr p)
  then show ?thesis using place_cases [of nodes request] by simp
qed

text \<open>
  A locality score stays between -30 and 230 plus ten per required artifact, so no sum the
  scheduler forms leaves the range of \<open>i64\<close>.
\<close>

theorem placement_score_bounds:
  "- 30 \<le> pl_score (placement_of node request)
   \<and> pl_score (placement_of node request) \<le> 230 + 10 * int (length (pr_required_artifacts request))"
proof -
  have hits: "length (local_artifacts node request) \<le> length (pr_required_artifacts request)"
    by (simp add: local_artifacts_def)
  have conn: "pl_score p - 30 \<le> pl_score (connectivity_score f p)"
    "pl_score (connectivity_score f p) \<le> pl_score p + 10" for f p
    by (auto simp: connectivity_score_def add_score_def Let_def split: path_kind.split)
  define base where "base = (\<lambda>p. let p = (if pr_prefer_node request = Some (nd_id node)
               then add_score 100 ''preferred node'' p else p);
          p = (if has_digest (pr_environment_digest request) (nd_cached_environments node)
               then add_score 50 ''warm environment cache'' p else p);
          p = (if has_digest (pr_source_snapshot request) (nd_source_snapshots node)
               then add_score 40 ''source snapshot already local'' p else p)
      in if has_digest (pr_dependency_cache request) (nd_dependency_caches node)
               then add_score 30 ''warm dependency cache'' p else p)"
  have base: "pl_score p \<le> pl_score (base p)" "pl_score (base p) \<le> pl_score p + 220" for p
    by (auto simp: base_def add_score_def Let_def)
  let ?p = "base \<lparr>pl_node = nd_id node, pl_score = 0, pl_reasons = []\<rparr>"
  let ?h = "length (local_artifacts node request)"
  let ?q = "if ?h > 0 then add_score (10 * int ?h) (nat_to_string ?h @ '' required artifact(s) already local'') ?p else ?p"
  have q: "0 \<le> pl_score ?q" "pl_score ?q \<le> 220 + 10 * int (length (pr_required_artifacts request))"
    using base [of "\<lparr>pl_node = nd_id node, pl_score = 0, pl_reasons = []\<rparr>"] hits
    by (auto simp: add_score_def)
  have "placement_of node request = (if length (pr_required_artifacts request) - ?h > 0
      \<and> cf_endpoint_advertised (nd_artifact_connectivity node)
      then connectivity_score (nd_artifact_connectivity node) ?q else ?q)"
    by (simp add: placement_of_def locality_score_def base_def Let_def)
  with q conn [where p = ?q and f = "nd_artifact_connectivity node"] show ?thesis
    by (auto simp del: of_nat_Suc)
qed

section \<open>Witness\<close>

definition example_node :: "node_id \<Rightarrow> bool \<Rightarrow> node_descriptor" where
  "example_node node online =
     \<lparr>nd_id = node, nd_tenant = ''t'', nd_project = ''p'',
      nd_capabilities = \<lparr>np_os = Linux, np_arch = ''x86_64'', np_capabilities = [Command, SourceGit],
        np_environment_backends = [BackendContainer], np_source_providers = [''git''],
        np_work_policy = NormalWork, np_system_bundles = []\<rparr>,
      nd_cached_environments = [''e''], nd_dependency_caches = [], nd_source_snapshots = [''s''],
      nd_artifact_locations = [''a''], nd_artifact_connectivity = artifact_connectivity_facts_default,
      nd_online = online\<rparr>"

definition example_request :: placement_request where
  "example_request =
     \<lparr>pr_tenant = ''t'', pr_project = ''p'', pr_environment = None, pr_environment_digest = Some ''e'',
      pr_environment_cache_required = True, pr_required_capabilities = [Command],
      pr_dependency_cache = None, pr_source_snapshot = Some ''s'', pr_required_artifacts = [''a''],
      pr_quota_available = True, pr_policy_allowed = True, pr_prefer_node = Some ''n1''\<rparr>"

theorem placement_optimal_witness:
  "let nodes = [example_node ''n1'' False, example_node ''n2'' True, example_node ''n3'' True]
   in case place nodes example_request of
        Inr p \<Rightarrow> pl_node p = ''n3'' \<and> pl_score p = 100
          \<and> (\<exists>n \<in> set nodes. eligible n example_request \<and> p = placement_of n example_request)
      | Inl _ \<Rightarrow> False"
proof -
  define nodes where "nodes = [example_node ''n1'' False, example_node ''n2'' True, example_node ''n3'' True]"
  have "case place nodes example_request of Inr p \<Rightarrow> pl_node p = ''n3'' \<and> pl_score p = 100 | Inl _ \<Rightarrow> False"
    unfolding nodes_def by code_simp
  then show ?thesis
    using placement_optimal [of nodes example_request]
    unfolding nodes_def [symmetric] Let_def by (cases "place nodes example_request") auto
qed

end
