(* ===== verification/CF_Artifacts.thy ===== *)
theory CF_Artifacts
  imports CF_Coordinator
begin

text \<open>
  The artifact registry (\<open>clusterflux-coordinator/src/service/artifact_registry.rs\<close> with the records of
  \<open>clusterflux-core/src/artifact.rs\<close>): artifact metadata per tenant and project, the holds that
  keep an artifact from being evicted, and the download links. The loop that enforces the
  metadata limit is a partial function, with the proof that it returns.
\<close>

section \<open>Records\<close>

datatype storage_location = RetainedNode node_id | ExplicitStore string

record download_policy =
  dp_max_bytes :: u64

record download_action =
  dn_artifact :: artifact_id
  dn_source :: storage_location
  dn_scoped_token_subject :: string

record download_link =
  dl_artifact :: artifact_id
  dl_artifact_digest :: digest
  dl_artifact_size :: u64
  dl_source :: storage_location
  dl_url_path :: string
  dl_scoped_token_digest :: digest
  dl_expires_at :: u64
  dl_tenant :: tenant_id
  dl_project :: project_id
  dl_process :: process_id
  dl_actor :: actor
  dl_max_bytes :: u64
  dl_policy_context_digest :: digest

record issued_download_link =
  il_link :: download_link
  il_revoked :: bool

datatype download_error =
    NotFound
  | Unavailable
  | DirectConnectivityUnavailable string
  | DownloadUnauthorized string
  | LimitExceeded (de_size: u64) (de_limit: u64)
  | InvalidToken
  | Usage string

record artifact_metadata =
  mt_id :: artifact_id
  mt_tenant :: tenant_id
  mt_project :: project_id
  mt_process :: process_id
  mt_producer_task :: task_instance_id
  mt_producer_node :: node_id
  mt_digest :: digest
  mt_size :: u64
  mt_flushed_epoch :: u64
  mt_retaining_nodes :: "node_id bset"
  mt_explicit_locations :: "string list"
  mt_coordinator_has_large_bytes :: bool

type_synonym artifact_scope_key = "tenant_id \<times> project_id \<times> artifact_id"

datatype artifact_hold_reason =
    ProcessRetention process_id
  | ConsumerTask process_id task_instance_id
  | ActiveTransfer string
  | RestartCheckpoint process_id task_instance_id
  | DownloadExport digest
  | ExplicitRetention string

text \<open>The derived order: the variants in the order of the enum, then their fields.\<close>

fun hold_reason_key :: "artifact_hold_reason \<Rightarrow> nat \<times> string \<times> string" where
  "hold_reason_key (ProcessRetention p) = (0, p, [])"
| "hold_reason_key (ConsumerTask p t) = (1, p, t)"
| "hold_reason_key (ActiveTransfer i) = (2, i, [])"
| "hold_reason_key (RestartCheckpoint p t) = (3, p, t)"
| "hold_reason_key (DownloadExport d) = (4, d, [])"
| "hold_reason_key (ExplicitRetention l) = (5, l, [])"

lemma hold_reason_key_inj: "hold_reason_key a = hold_reason_key b \<longleftrightarrow> a = b"
  by (cases a; cases b) auto

instantiation artifact_hold_reason :: linorder
begin

definition less_eq_artifact_hold_reason :: "artifact_hold_reason \<Rightarrow> artifact_hold_reason \<Rightarrow> bool" where
  "a \<le> b \<longleftrightarrow> hold_reason_key a \<le> hold_reason_key b"

definition less_artifact_hold_reason :: "artifact_hold_reason \<Rightarrow> artifact_hold_reason \<Rightarrow> bool" where
  "a < b \<longleftrightarrow> hold_reason_key a < hold_reason_key b"

instance
  by standard
    (auto simp: less_eq_artifact_hold_reason_def less_artifact_hold_reason_def hold_reason_key_inj [symmetric])

end

text \<open>A hold is its reason and its creation time, in this order.\<close>

type_synonym artifact_hold = "artifact_hold_reason \<times> u64"

record artifact_flush =
  fl_id :: artifact_id
  fl_tenant :: tenant_id
  fl_project :: project_id
  fl_process :: process_id
  fl_producer_task :: task_instance_id
  fl_retaining_node :: node_id
  fl_digest :: digest
  fl_size :: u64

record artifact_registry =
  ag_artifacts :: "(artifact_scope_key, artifact_metadata) bmap"
  ag_holds :: "(artifact_scope_key, artifact_hold bset) bmap"
  ag_links :: "(digest, issued_download_link) bmap"
  ag_next_epoch :: u64

definition artifact_registry_default :: artifact_registry where
  "artifact_registry_default = \<lparr>ag_artifacts = [], ag_holds = [], ag_links = [], ag_next_epoch = 0\<rparr>"

definition max_issued_download_links_per_artifact :: nat where
  "max_issued_download_links_per_artifact = 32"

definition download_link_tombstone_seconds :: u64 where
  "download_link_tombstone_seconds = 15 * 60"

definition max_artifact_metadata_per_project :: nat where
  "max_artifact_metadata_per_project = 1024"

abbreviation metadata_key :: "artifact_metadata \<Rightarrow> artifact_scope_key" where
  "metadata_key m \<equiv> (mt_tenant m, mt_project m, mt_id m)"

section \<open>Holds\<close>

definition add_hold ::
  "artifact_registry \<Rightarrow> artifact_scope_key \<Rightarrow> artifact_hold_reason \<Rightarrow> u64
     \<Rightarrow> artifact_registry \<times> bool option" where
  "add_hold r key reason created_at =
     (if \<not> bcontains (ag_artifacts r) key then (r, None)
      else
        let holds = (case bget (ag_holds r) key of None \<Rightarrow> [] | Some hs \<Rightarrow> hs);
            r = r\<lparr>ag_holds := binsert key holds (ag_holds r)\<rparr>
        in if list_ex (\<lambda>h. fst h = reason) holds then (r, Some False)
           else (r\<lparr>ag_holds := binsert key (sinsert (reason, created_at) holds) (ag_holds r)\<rparr>,
                 Some ((reason, created_at) \<notin> set holds)))"

definition remove_hold ::
  "artifact_registry \<Rightarrow> artifact_scope_key \<Rightarrow> artifact_hold_reason \<Rightarrow> artifact_registry \<times> bool" where
  "remove_hold r key reason =
     (case bget (ag_holds r) key of
        None \<Rightarrow> (r, False)
      | Some holds \<Rightarrow>
        let kept = filter (\<lambda>h. fst h \<noteq> reason) holds;
            removed = length holds \<noteq> length kept
        in (r\<lparr>ag_holds := (if kept = [] then bremove key (ag_holds r) else binsert key kept (ag_holds r))\<rparr>,
            removed))"

definition holds_of :: "artifact_registry \<Rightarrow> artifact_scope_key \<Rightarrow> artifact_hold list" where
  "holds_of r key = (case bget (ag_holds r) key of None \<Rightarrow> [] | Some hs \<Rightarrow> hs)"

definition release_process_hold ::
  "artifact_registry \<Rightarrow> tenant_id \<Rightarrow> project_id \<Rightarrow> process_id \<Rightarrow> artifact_id \<Rightarrow> artifact_registry \<times> bool" where
  "release_process_hold r tenant project process artifact =
     remove_hold r (tenant, project, artifact) (ProcessRetention process)"

text \<open>
  The three sweeps: \<open>holds.retain\<close> over all entries, dropping the holds \<open>gone\<close> selects in the
  project and then the entries left empty; the result counts the dropped holds.
\<close>

definition sweep_holds ::
  "(artifact_hold_reason \<Rightarrow> bool) \<Rightarrow> artifact_registry \<Rightarrow> tenant_id \<Rightarrow> project_id \<Rightarrow> artifact_registry \<times> nat" where
  "sweep_holds gone r tenant project =
     (let in_scope = (\<lambda>k. fst k = tenant \<and> fst (snd k) = project);
          swept = map (\<lambda>(k, hs). (k, if in_scope k then filter (\<lambda>h. \<not> gone (fst h)) hs else hs)) (ag_holds r)
      in (r\<lparr>ag_holds := filter (\<lambda>(k, hs). hs \<noteq> []) swept\<rparr>,
          sum_list (map (\<lambda>(k, hs). if in_scope k then length (filter (\<lambda>h. gone (fst h)) hs) else 0) (ag_holds r))))"

fun process_scoped_hold :: "process_id \<Rightarrow> artifact_hold_reason \<Rightarrow> bool" where
  "process_scoped_hold process (ProcessRetention p) = (p = process)"
| "process_scoped_hold process (ConsumerTask p _) = (p = process)"
| "process_scoped_hold process (RestartCheckpoint p _) = (p = process)"
| "process_scoped_hold process (ActiveTransfer _) = False"
| "process_scoped_hold process (DownloadExport _) = False"
| "process_scoped_hold process (ExplicitRetention _) = False"

definition release_process_holds ::
  "artifact_registry \<Rightarrow> tenant_id \<Rightarrow> project_id \<Rightarrow> process_id \<Rightarrow> artifact_registry \<times> nat" where
  "release_process_holds r tenant project process = sweep_holds (process_scoped_hold process) r tenant project"

definition release_task_holds ::
  "artifact_registry \<Rightarrow> tenant_id \<Rightarrow> project_id \<Rightarrow> process_id \<Rightarrow> task_instance_id \<Rightarrow> artifact_registry \<times> nat" where
  "release_task_holds r tenant project process task =
     sweep_holds (\<lambda>reason. reason = ConsumerTask process task) r tenant project"

definition release_restart_checkpoint_holds ::
  "artifact_registry \<Rightarrow> tenant_id \<Rightarrow> project_id \<Rightarrow> process_id \<Rightarrow> task_instance_id \<Rightarrow> artifact_registry \<times> nat" where
  "release_restart_checkpoint_holds r tenant project process task =
     sweep_holds (\<lambda>reason. reason = RestartCheckpoint process task) r tenant project"

section \<open>Metadata and eviction\<close>

definition project_metadata :: "artifact_registry \<Rightarrow> tenant_id \<Rightarrow> project_id \<Rightarrow> artifact_metadata list" where
  "project_metadata r tenant project =
     filter (\<lambda>m. mt_tenant m = tenant \<and> mt_project m = project) (bvalues (ag_artifacts r))"

definition live_link_for :: "artifact_registry \<Rightarrow> artifact_metadata \<Rightarrow> bool" where
  "live_link_for r m =
     list_ex (\<lambda>i. \<not> il_revoked i \<and> dl_tenant (il_link i) = mt_tenant m
               \<and> dl_project (il_link i) = mt_project m \<and> dl_artifact (il_link i) = mt_id m)
       (bvalues (ag_links r))"

definition evictable ::
  "artifact_registry \<Rightarrow> artifact_scope_key bset \<Rightarrow> process_id bset \<Rightarrow> artifact_metadata \<Rightarrow> bool" where
  "evictable r pinned protected_processes m \<longleftrightarrow>
     metadata_key m \<notin> set pinned \<and> mt_process m \<notin> set protected_processes
     \<and> (case bget (ag_holds r) (metadata_key m) of None \<Rightarrow> True | Some hs \<Rightarrow> hs = [])
     \<and> mt_explicit_locations m = [] \<and> \<not> live_link_for r m"

text \<open>\<open>Iterator::min_by_key\<close> returns the first of the minimal elements.\<close>

fun first_min_by :: "('a \<Rightarrow> 'k::linorder) \<Rightarrow> 'a list \<Rightarrow> 'a option" where
  "first_min_by key [] = None"
| "first_min_by key (x # xs) =
     (case first_min_by key xs of
        None \<Rightarrow> Some x
      | Some y \<Rightarrow> if key x \<le> key y then Some x else Some y)"

definition project_metadata_eviction_candidate ::
  "artifact_registry \<Rightarrow> tenant_id \<Rightarrow> project_id \<Rightarrow> artifact_scope_key bset \<Rightarrow> process_id bset
     \<Rightarrow> artifact_scope_key option" where
  "project_metadata_eviction_candidate r tenant project pinned protected_processes =
     map_option (\<lambda>m. metadata_key m)
       (first_min_by mt_flushed_epoch
         (filter (evictable r pinned protected_processes) (project_metadata r tenant project)))"

definition drop_artifact :: "artifact_registry \<Rightarrow> artifact_scope_key \<Rightarrow> artifact_registry" where
  "drop_artifact r key =
     r\<lparr>ag_artifacts := bremove key (ag_artifacts r), ag_holds := bremove key (ag_holds r)\<rparr>"

abbreviation flush_key :: "artifact_flush \<Rightarrow> artifact_scope_key" where
  "flush_key f \<equiv> (fl_tenant f, fl_project f, fl_id f)"

definition flushed_metadata :: "artifact_flush \<Rightarrow> u64 \<Rightarrow> artifact_metadata" where
  "flushed_metadata f epoch =
     \<lparr>mt_id = fl_id f, mt_tenant = fl_tenant f, mt_project = fl_project f,
      mt_process = fl_process f, mt_producer_task = fl_producer_task f,
      mt_producer_node = fl_retaining_node f, mt_digest = fl_digest f, mt_size = fl_size f,
      mt_flushed_epoch = epoch, mt_retaining_nodes = [fl_retaining_node f],
      mt_explicit_locations = [], mt_coordinator_has_large_bytes = False\<rparr>"

definition commit_flush ::
  "artifact_registry \<Rightarrow> artifact_flush \<Rightarrow> artifact_scope_key option \<Rightarrow> artifact_registry \<times> artifact_metadata" where
  "commit_flush r f eviction =
     (let epoch = sat_add (ag_next_epoch r) 1;
          m = flushed_metadata f epoch;
          r = r\<lparr>ag_next_epoch := epoch\<rparr>;
          r = (case eviction of None \<Rightarrow> r | Some e \<Rightarrow> drop_artifact r e);
          r = r\<lparr>ag_artifacts := binsert (flush_key f) m (ag_artifacts r)\<rparr>
      in (fst (add_hold r (flush_key f) (ProcessRetention (fl_process f)) epoch), m))"

definition flush_metadata_with_protected_processes ::
  "artifact_registry \<Rightarrow> artifact_flush \<Rightarrow> artifact_scope_key bset \<Rightarrow> process_id bset
     \<Rightarrow> artifact_registry \<times> (string + artifact_metadata)" where
  "flush_metadata_with_protected_processes r f pinned protected_processes =
     (let replacing = bcontains (ag_artifacts r) (flush_key f);
          retained = length (project_metadata r (fl_tenant f) (fl_project f))
      in if replacing \<or> retained < max_artifact_metadata_per_project then map_prod id Inr (commit_flush r f None)
         else (case project_metadata_eviction_candidate r (fl_tenant f) (fl_project f) pinned
                      (sinsert (fl_process f) protected_processes) of
             None \<Rightarrow> (r, Inl (''artifact metadata capacity of ''
                 @ nat_to_string max_artifact_metadata_per_project
                 @ '' is exhausted by active or retained artifacts''))
           | Some e \<Rightarrow> map_prod id Inr (commit_flush r f (Some e))))"

lemma first_min_by_None: "first_min_by key xs = None \<longleftrightarrow> xs = []"
  by (induction xs) (auto split: option.split)

lemma first_min_by_Some:
  "first_min_by key xs = Some x \<Longrightarrow> x \<in> set xs \<and> (\<forall>y \<in> set xs. key x \<le> key y)"
  by (induction xs arbitrary: x) (fastforce simp: first_min_by_None split: option.splits if_splits)+

lemma eviction_candidate_Some:
  assumes "project_metadata_eviction_candidate r t p pinned protected = Some e"
  shows "\<exists>m \<in> set (project_metadata r t p). e = metadata_key m \<and> evictable r pinned protected m
    \<and> (\<forall>m' \<in> set (project_metadata r t p). evictable r pinned protected m' \<longrightarrow> mt_flushed_epoch m \<le> mt_flushed_epoch m')"
proof -
  from assms obtain m where m: "first_min_by mt_flushed_epoch
      (filter (evictable r pinned protected) (project_metadata r t p)) = Some m" and e: "e = metadata_key m"
    by (auto simp: project_metadata_eviction_candidate_def)
  from first_min_by_Some [OF m] e show ?thesis by auto
qed

text \<open>
  The loop \<open>while count > MAX\<close>; \<open>None\<close> would be a loop that does not end. It could only spin on an
  entry filed under a key other than its own scope, which no reachable registry has.
\<close>

partial_function (option) enforce_loop ::
  "tenant_id \<Rightarrow> project_id \<Rightarrow> artifact_scope_key bset \<Rightarrow> process_id bset \<Rightarrow> artifact_registry \<Rightarrow> nat
     \<Rightarrow> (artifact_registry \<times> nat) option" where
  "enforce_loop tenant project pinned protected_processes r evicted =
     (if length (project_metadata r tenant project) > max_artifact_metadata_per_project
      then (case project_metadata_eviction_candidate r tenant project pinned protected_processes of
          None \<Rightarrow> Some (r, evicted)
        | Some e \<Rightarrow>
            enforce_loop tenant project pinned protected_processes (drop_artifact r e) (Suc evicted))
      else Some (r, evicted))"

declare enforce_loop.simps [code]

definition enforce_project_metadata_limit ::
  "artifact_registry \<Rightarrow> tenant_id \<Rightarrow> project_id \<Rightarrow> artifact_scope_key bset \<Rightarrow> process_id bset
     \<Rightarrow> (artifact_registry \<times> nat) option" where
  "enforce_project_metadata_limit r tenant project pinned protected_processes =
     enforce_loop tenant project pinned protected_processes r 0"

definition in_artifact_project :: "tenant_id \<Rightarrow> project_id \<Rightarrow> artifact_metadata \<Rightarrow> bool" where
  "in_artifact_project tenant project m \<longleftrightarrow> mt_tenant m = tenant \<and> mt_project m = project"

definition garbage_collect_node ::
  "artifact_registry \<Rightarrow> tenant_id \<Rightarrow> project_id \<Rightarrow> node_id \<Rightarrow> artifact_registry" where
  "garbage_collect_node r tenant project node =
     r\<lparr>ag_artifacts := bmap_values (\<lambda>_ m. if in_artifact_project tenant project m
          then m\<lparr>mt_retaining_nodes := sremove node (mt_retaining_nodes m)\<rparr> else m) (ag_artifacts r)\<rparr>"

definition remove_retaining_location ::
  "artifact_registry \<Rightarrow> artifact_scope_key \<Rightarrow> node_id \<Rightarrow> artifact_registry \<times> bool" where
  "remove_retaining_location r key node =
     (r\<lparr>ag_artifacts := bupdate key (\<lambda>m. m\<lparr>mt_retaining_nodes := sremove node (mt_retaining_nodes m)\<rparr>) (ag_artifacts r)\<rparr>,
      case bget (ag_artifacts r) key of None \<Rightarrow> False | Some m \<Rightarrow> node \<in> set (mt_retaining_nodes m))"

definition reconcile_node_retention ::
  "artifact_registry \<Rightarrow> tenant_id \<Rightarrow> project_id \<Rightarrow> node_id \<Rightarrow> artifact_id bset \<Rightarrow> artifact_registry" where
  "reconcile_node_retention r tenant project node retained =
     r\<lparr>ag_artifacts := bmap_values (\<lambda>(t, p, a) m.
          if t \<noteq> tenant \<or> p \<noteq> project then m
          else if a \<in> set retained then m\<lparr>mt_retaining_nodes := sinsert node (mt_retaining_nodes m)\<rparr>
          else m\<lparr>mt_retaining_nodes := sremove node (mt_retaining_nodes m)\<rparr>) (ag_artifacts r)\<rparr>"

text \<open>\<open>None\<close> is the error \<open>ArtifactUnavailable\<close>.\<close>

definition record_verified_retaining_location ::
  "artifact_registry \<Rightarrow> artifact_scope_key \<Rightarrow> node_id \<Rightarrow> digest \<Rightarrow> u64 \<Rightarrow> artifact_registry option" where
  "record_verified_retaining_location r key node dg sz =
     (case bget (ag_artifacts r) key of
        None \<Rightarrow> None
      | Some m \<Rightarrow>
          if mt_digest m \<noteq> dg \<or> mt_size m \<noteq> sz then None
          else Some (r\<lparr>ag_artifacts := binsert key
                 (m\<lparr>mt_retaining_nodes := sinsert node (mt_retaining_nodes m)\<rparr>) (ag_artifacts r)\<rparr>))"

definition artifact_metadata_of :: "artifact_registry \<Rightarrow> artifact_scope_key \<Rightarrow> artifact_metadata option" where
  "artifact_metadata_of r key = bget (ag_artifacts r) key"

definition held_artifacts_on_node ::
  "artifact_registry \<Rightarrow> tenant_id \<Rightarrow> project_id \<Rightarrow> node_id \<Rightarrow> (artifact_metadata \<times> artifact_hold list) list" where
  "held_artifacts_on_node r tenant project node =
     List.map_filter (\<lambda>m.
        if mt_tenant m \<noteq> tenant \<or> mt_project m \<noteq> project \<or> node \<notin> set (mt_retaining_nodes m) then None
        else let holds = holds_of r (tenant, project, mt_id m) in if holds = [] then None else Some (m, holds))
       (bvalues (ag_artifacts r))"

section \<open>Download links\<close>

definition download_action_for ::
  "artifact_registry \<Rightarrow> auth_context \<Rightarrow> artifact_id \<Rightarrow> download_policy \<Rightarrow> download_error + download_action" where
  "download_action_for r context artifact policy =
     (case bget (ag_artifacts r) (ac_tenant context, ac_project context, artifact) of
        None \<Rightarrow> Inl NotFound
      | Some m \<Rightarrow>
        let sc = \<lparr>as_tenant = mt_tenant m, as_project = mt_project m, as_process = Some (mt_process m),
                  as_task = Some (mt_producer_task m), as_node = None, as_artifact = Some (mt_id m)\<rparr>;
            authz = same_tenant_project context sc
        in if \<not> az_allowed authz then Inl (DownloadUnauthorized (az_reason authz))
           else if mt_size m > dp_max_bytes policy then Inl (LimitExceeded (mt_size m) (dp_max_bytes policy))
           else (case (case mt_retaining_nodes m of
                    node # _ \<Rightarrow> Some (RetainedNode node)
                  | [] \<Rightarrow> (case mt_explicit_locations m of l # _ \<Rightarrow> Some (ExplicitStore l) | [] \<Rightarrow> None)) of
               None \<Rightarrow> Inl Unavailable
             | Some source \<Rightarrow>
                 Inr \<lparr>dn_artifact = artifact, dn_source = source,
                      dn_scoped_token_subject =
                        mt_tenant m @ ''/'' @ mt_project m @ ''/'' @ mt_process m @ ''/'' @ mt_id m\<rparr>))"

definition downloadable_size ::
  "artifact_registry \<Rightarrow> auth_context \<Rightarrow> artifact_id \<Rightarrow> download_policy \<Rightarrow> download_error + u64" where
  "downloadable_size r context artifact policy =
     (case download_action_for r context artifact policy of
        Inl e \<Rightarrow> Inl e
      | Inr _ \<Rightarrow>
        (case bget (ag_artifacts r) (ac_tenant context, ac_project context, artifact) of
           None \<Rightarrow> Inl NotFound | Some m \<Rightarrow> Inr (mt_size m)))"

fun actor_subject :: "actor \<Rightarrow> string" where
  "actor_subject (User i) = ''user:'' @ i"
| "actor_subject (Agent i) = ''agent:'' @ i"
| "actor_subject (Node i) = ''node:'' @ i"
| "actor_subject (Task i) = ''task:'' @ i"

fun storage_location_key :: "storage_location \<Rightarrow> string" where
  "storage_location_key (RetainedNode node) = ''retained-node:'' @ node"
| "storage_location_key (ExplicitStore location) = ''explicit-store:'' @ location"

definition download_policy_context_digest ::
  "sha256_fn \<Rightarrow> artifact_metadata \<Rightarrow> storage_location \<Rightarrow> download_policy \<Rightarrow> digest" where
  "download_policy_context_digest sha256_hex m source policy =
     digest_from_parts sha256_hex
       [''artifact-download-policy-context:v1'', mt_tenant m, mt_project m, mt_process m, mt_id m, mt_digest m,
        u64_to_string (mt_size m), storage_location_key source, u64_to_string (dp_max_bytes policy)]"

definition expire_download_links :: "artifact_registry \<Rightarrow> u64 \<Rightarrow> artifact_registry" where
  "expire_download_links r now =
     (let expired = map il_link (filter (\<lambda>i. dl_expires_at (il_link i) < now) (bvalues (ag_links r)));
          r = fold (\<lambda>l r. fst (remove_hold r (dl_tenant l, dl_project l, dl_artifact l)
                 (DownloadExport (dl_scoped_token_digest l)))) expired r
      in r\<lparr>ag_links := bretain (\<lambda>_ i.
             sat_add (dl_expires_at (il_link i)) download_link_tombstone_seconds \<ge> now) (ag_links r)\<rparr>)"

definition link_for :: "tenant_id \<Rightarrow> project_id \<Rightarrow> artifact_id \<Rightarrow> issued_download_link \<Rightarrow> bool" where
  "link_for tenant project artifact i \<longleftrightarrow>
     dl_tenant (il_link i) = tenant \<and> dl_project (il_link i) = project \<and> dl_artifact (il_link i) = artifact"

definition create_download_link ::
  "sha256_fn \<Rightarrow> artifact_registry \<Rightarrow> auth_context \<Rightarrow> artifact_id \<Rightarrow> download_policy \<Rightarrow> string \<Rightarrow> u64 \<Rightarrow> u64
     \<Rightarrow> artifact_registry \<times> (download_error + download_link)" where
  "create_download_link sha256_hex r context artifact policy token_nonce now ttl_seconds =
     (let r = expire_download_links r now
      in if length (filter (link_for (ac_tenant context) (ac_project context) artifact) (bvalues (ag_links r)))
              \<ge> max_issued_download_links_per_artifact
         then (r, Inl (Usage ''artifact download session limit reached; revoke a link or wait for expiry''))
         else case download_action_for r context artifact policy of
             Inl e \<Rightarrow> (r, Inl e)
           | Inr action \<Rightarrow>
             (case bget (ag_artifacts r) (ac_tenant context, ac_project context, artifact) of
                None \<Rightarrow> (r, Inl NotFound)
              | Some m \<Rightarrow>
                let expires_at = sat_add now ttl_seconds;
                    policy_context = download_policy_context_digest sha256_hex m (dn_source action) policy;
                    token_digest = digest_from_parts sha256_hex
                      [''artifact-download-token:v2'', dn_scoped_token_subject action,
                       actor_subject (ac_actor context), token_nonce, mt_digest m, u64_to_string (mt_size m),
                       policy_context, u64_to_string expires_at];
                    link = \<lparr>dl_artifact = artifact, dl_artifact_digest = mt_digest m,
                      dl_artifact_size = mt_size m, dl_source = dn_source action,
                      dl_url_path = ''/artifacts/'' @ mt_tenant m @ ''/'' @ mt_project m @ ''/''
                        @ mt_process m @ ''/'' @ mt_id m,
                      dl_scoped_token_digest = token_digest, dl_expires_at = expires_at,
                      dl_tenant = mt_tenant m, dl_project = mt_project m, dl_process = mt_process m,
                      dl_actor = ac_actor context, dl_max_bytes = dp_max_bytes policy,
                      dl_policy_context_digest = policy_context\<rparr>;
                    r = r\<lparr>ag_links := binsert token_digest \<lparr>il_link = link, il_revoked = False\<rparr> (ag_links r)\<rparr>
                in (fst (add_hold r (dl_tenant link, dl_project link, dl_artifact link)
                      (DownloadExport token_digest) now), Inr link)))"

definition revoke_download_link ::
  "artifact_registry \<Rightarrow> auth_context \<Rightarrow> artifact_id \<Rightarrow> digest
     \<Rightarrow> artifact_registry \<times> (download_error + download_link)" where
  "revoke_download_link r context artifact token_digest =
     (case bget (ag_links r) token_digest of
        None \<Rightarrow> (r, Inl InvalidToken)
      | Some i \<Rightarrow>
        if dl_tenant (il_link i) \<noteq> ac_tenant context \<or> dl_project (il_link i) \<noteq> ac_project context
           \<or> dl_artifact (il_link i) \<noteq> artifact \<or> dl_actor (il_link i) \<noteq> ac_actor context
        then (r, Inl InvalidToken)
        else (case download_action_for r context artifact \<lparr>dp_max_bytes = dl_max_bytes (il_link i)\<rparr> of
            Inl e \<Rightarrow> (r, Inl e)
          | Inr _ \<Rightarrow>
            let r = r\<lparr>ag_links := binsert token_digest (i\<lparr>il_revoked := True\<rparr>) (ag_links r)\<rparr>;
                l = il_link i
            in (fst (remove_hold r (dl_tenant l, dl_project l, dl_artifact l)
                  (DownloadExport (dl_scoped_token_digest l))), Inr l)))"

section \<open>Invariant\<close>

definition hold_set_ok :: "artifact_hold bset \<Rightarrow> bool" where
  "hold_set_ok hs \<longleftrightarrow> hs \<noteq> [] \<and> swf hs \<and> distinct (map fst hs)"

definition holds_ok :: "artifact_registry \<Rightarrow> bool" where
  "holds_ok r \<longleftrightarrow> bwf (ag_holds r)
     \<and> (\<forall>k hs. bget (ag_holds r) k = Some hs \<longrightarrow>
          bget (ag_artifacts r) k \<noteq> None \<and> hold_set_ok hs)"

definition links_ok :: "artifact_registry \<Rightarrow> bool" where
  "links_ok r \<longleftrightarrow> keyed (\<lambda>i. dl_scoped_token_digest (il_link i)) (ag_links r)
     \<and> (\<forall>t p a. length (filter (link_for t p a) (bvalues (ag_links r))) \<le> max_issued_download_links_per_artifact)
     \<and> (\<forall>d i. bget (ag_links r) d = Some i \<and> \<not> il_revoked i \<longrightarrow>
          bget (ag_artifacts r) (dl_tenant (il_link i), dl_project (il_link i), dl_artifact (il_link i)) \<noteq> None)"

definition artifacts_ok :: "artifact_registry \<Rightarrow> bool" where
  "artifacts_ok r \<longleftrightarrow> keyed (\<lambda>m. metadata_key m) (ag_artifacts r)
     \<and> (\<forall>t p. length (project_metadata r t p) \<le> max_artifact_metadata_per_project)
     \<and> holds_ok r \<and> links_ok r"

lemma artifacts_okD:
  assumes "artifacts_ok r"
  shows "keyed (\<lambda>m. metadata_key m) (ag_artifacts r)"
    and "length (project_metadata r t p) \<le> max_artifact_metadata_per_project"
    and "holds_ok r" and "links_ok r"
  using assms by (simp_all add: artifacts_ok_def)

lemma project_metadata_length:
  "length (project_metadata r t p)
     = length (filter (\<lambda>e. mt_tenant (snd e) = t \<and> mt_project (snd e) = p) (ag_artifacts r))"
  by (simp add: project_metadata_def filter_map comp_def)

lemma length_filter_binsert_same:
  "bwf m \<Longrightarrow> bget m k = Some v0 \<Longrightarrow> P (k, v) = P (k, v0) \<Longrightarrow>
     length (filter P (binsert k v m)) = length (filter P m)"
proof (induction k v m rule: binsert.induct)
  case (2 k v k' v' m)
  from 2(2) have tl: "bwf m" and lt: "\<forall>x \<in> set (map fst m). k' < x" by (auto simp: bwf_def)
  show ?case
  proof (cases "k < k'")
    case True
    with lt have "k \<notin> set (map fst ((k', v') # m))" by force
    with 2(3) show ?thesis by (force dest: map_of_SomeD simp: map_of_eq_None_iff)
  next
    case False
    with 2 tl show ?thesis by (auto split: if_splits)
  qed
qed simp

lemma length_filter_map_values:
  "(\<And>k v. (k, v) \<in> set m \<Longrightarrow> P (k, f k v) = P (k, v)) \<Longrightarrow>
     length (filter P (bmap_values f m)) = length (filter P m)"
  unfolding bmap_values_def by (induction m) auto

lemma length_filter_bremove_le: "length (filter P (bremove k m)) \<le> length (filter P m)"
  unfolding bremove_def by (induction m) auto

text \<open>Operations that rewrite metadata entries in place, keeping each entry's scope.\<close>

lemma ok_rewrite_metadata:
  assumes "artifacts_ok r" and "\<And>k m. metadata_key (f k m) = metadata_key m"
  shows "artifacts_ok (r\<lparr>ag_artifacts := bmap_values f (ag_artifacts r)\<rparr>)"
proof -
  have "keyed (\<lambda>m. metadata_key m) (bmap_values f (ag_artifacts r))"
    using assms by (intro keyed_bmap_values) (auto simp: artifacts_ok_def)
  moreover have "length (project_metadata (r\<lparr>ag_artifacts := bmap_values f (ag_artifacts r)\<rparr>) t p)
      = length (project_metadata r t p)" for t p
    unfolding project_metadata_length using assms(2) by (simp add: length_filter_map_values)
  ultimately show ?thesis
    using assms(1)
    by (auto simp: artifacts_ok_def holds_ok_def links_ok_def bget_bmap_values simp del: split_paired_All)
qed

lemma bupdate_as_map_values:
  "bupdate k f m = bmap_values (\<lambda>k' v. if k' = k then f v else v) m"
  by (auto simp: bupdate_def bmap_values_def)

lemma binsert_as_bupdate:
  "bwf m \<Longrightarrow> bget m k = Some v0 \<Longrightarrow> binsert k v m = bupdate k (\<lambda>_. v) m"
proof (induction k v m rule: binsert.induct)
  case (2 k v k' v' m)
  from 2(2) have tl: "bwf m" and lt: "\<forall>x \<in> set (map fst m). k' < x" by (auto simp: bwf_def)
  have fresh: "bupdate k' g m = m" for g
    using lt by (force simp: bupdate_def intro: map_idI)
  show ?case
  proof (cases "k < k'")
    case True
    with lt have "k \<notin> set (map fst ((k', v') # m))" by force
    with 2(3) show ?thesis by (force dest: map_of_SomeD)
  next
    case False
    with 2 tl fresh [of "\<lambda>_. v", symmetric] show ?thesis by (auto simp: bupdate_def split: if_splits)
  qed
qed simp

lemma ok_holds:
  "artifacts_ok r \<Longrightarrow> holds_ok (r\<lparr>ag_holds := H\<rparr>) \<Longrightarrow> artifacts_ok (r\<lparr>ag_holds := H\<rparr>)"
  unfolding artifacts_ok_def links_ok_def project_metadata_def by auto

lemma distinct_reasons_sinsert:
  assumes "swf hs" and "distinct (map fst hs)" and "fst h \<notin> fst ` set hs"
  shows "distinct (map fst (sinsert h hs))"
proof -
  have "distinct (sinsert h hs)" using swf_sinsert [OF assms(1)] by (auto simp: swf_def strict_sorted_iff)
  with assms(2,3) show ?thesis by (auto simp: distinct_map set_sinsert)
qed

lemma holds_of_add_hold:
  "holds_of (fst (add_hold r key reason at)) key' =
     (if key' = key \<and> bcontains (ag_artifacts r) key \<and> reason \<notin> fst ` set (holds_of r key)
      then sinsert (reason, at) (holds_of r key) else holds_of r key')"
  by (auto simp: add_hold_def holds_of_def Let_def bmap_simps list_ex_iff fun_upd_def split: option.split)
    (metis fst_conv image_eqI)

lemma add_hold_frame [simp]:
  "ag_artifacts (fst (add_hold r key reason at)) = ag_artifacts r"
  "ag_links (fst (add_hold r key reason at)) = ag_links r"
  "ag_next_epoch (fst (add_hold r key reason at)) = ag_next_epoch r"
  by (auto simp: add_hold_def Let_def)

lemma remove_hold_frame [simp]:
  "ag_artifacts (fst (remove_hold r key reason)) = ag_artifacts r"
  "ag_links (fst (remove_hold r key reason)) = ag_links r"
  by (auto simp: remove_hold_def Let_def split: option.split)

lemma holds_of_remove_hold:
  "holds_of (fst (remove_hold r key reason)) key' =
     (if key' = key then filter (\<lambda>h. fst h \<noteq> reason) (holds_of r key) else holds_of r key')"
  by (auto simp: remove_hold_def holds_of_def Let_def bmap_simps split: option.split)

lemma hold_set_ok_sinsert:
  assumes "hs = [] \<or> hold_set_ok hs" and "fst h \<notin> fst ` set hs"
  shows "hold_set_ok (sinsert h hs)"
proof -
  have ne: "sinsert h hs \<noteq> []" by (cases hs) auto
  from assms(1) have "swf hs" and "distinct (map fst hs)" by (auto simp: hold_set_ok_def swf_def)
  with ne distinct_reasons_sinsert [OF _ _ assms(2)] show ?thesis by (simp add: hold_set_ok_def swf_sinsert)
qed

lemma hold_set_ok_filter: "hold_set_ok hs \<Longrightarrow> filter P hs \<noteq> [] \<Longrightarrow> hold_set_ok (filter P hs)"
  by (simp add: hold_set_ok_def swf_filter distinct_map_filter)

lemma holds_ok_binsert:
  "holds_ok r \<Longrightarrow> bget (ag_artifacts r) key \<noteq> None \<Longrightarrow> hold_set_ok hs \<Longrightarrow>
     holds_ok (r\<lparr>ag_holds := binsert key hs (ag_holds r)\<rparr>)"
  by (auto simp: holds_ok_def bmap_simps simp del: split_paired_All)

lemma holds_ok_bremove: "holds_ok r \<Longrightarrow> holds_ok (r\<lparr>ag_holds := bremove key (ag_holds r)\<rparr>)"
  by (auto simp: holds_ok_def bmap_simps simp del: split_paired_All)

lemma holds_okD:
  "holds_ok r \<Longrightarrow> bget (ag_holds r) key = Some hs \<Longrightarrow> hold_set_ok hs \<and> bget (ag_artifacts r) key \<noteq> None"
  unfolding holds_ok_def by blast

lemma ok_add_hold:
  assumes "artifacts_ok r"
  shows "artifacts_ok (fst (add_hold r key reason at))"
proof (cases "bcontains (ag_artifacts r) key")
  case True
  then have art: "bget (ag_artifacts r) key \<noteq> None" by (simp only: bcontains_iff not_False_eq_True)
  note h = artifacts_okD(3) [OF assms]
  define hs where "hs = (case bget (ag_holds r) key of None \<Rightarrow> [] | Some hs \<Rightarrow> hs)"
  have hs: "hs = [] \<or> hold_set_ok hs" using holds_okD [OF h] by (auto simp: hs_def split: option.split)
  let ?r = "r\<lparr>ag_holds := binsert key hs (ag_holds r)\<rparr>"
  have eq: "add_hold r key reason at = (if list_ex (\<lambda>h. fst h = reason) hs then (?r, Some False)
      else (r\<lparr>ag_holds := binsert key (sinsert (reason, at) hs) (binsert key hs (ag_holds r))\<rparr>,
            Some ((reason, at) \<notin> set hs)))"
    unfolding add_hold_def hs_def [symmetric] Let_def using True by simp
  show ?thesis
  proof (cases "list_ex (\<lambda>h. fst h = reason) hs")
    case dup: True
    then have "hold_set_ok hs" using hs by auto
    from ok_holds [OF assms holds_ok_binsert [OF h art this]] dup show ?thesis by (simp add: eq)
  next
    case False
    then have "fst (reason, at) \<notin> fst ` set hs" by (auto simp: list_ex_iff)
    from ok_holds [OF assms holds_ok_binsert [OF h art hold_set_ok_sinsert [OF hs this]]] False
    show ?thesis by (simp add: eq binsert_binsert)
  qed
qed (use assms in \<open>simp add: add_hold_def\<close>)

lemma ok_remove_hold:
  assumes "artifacts_ok r"
  shows "artifacts_ok (fst (remove_hold r key reason))"
proof (cases "bget (ag_holds r) key")
  case (Some hs)
  note h = artifacts_okD(3) [OF assms]
  from holds_okD [OF h Some] have hs: "hold_set_ok hs" and art: "bget (ag_artifacts r) key \<noteq> None" by simp_all
  show ?thesis
  proof (cases "filter (\<lambda>h. fst h \<noteq> reason) hs = []")
    case True
    with ok_holds [OF assms holds_ok_bremove [OF h]] Some show ?thesis by (simp add: remove_hold_def Let_def)
  next
    case False
    with ok_holds [OF assms holds_ok_binsert [OF h art hold_set_ok_filter [OF hs False]]] Some
    show ?thesis by (simp add: remove_hold_def Let_def)
  qed
qed (use assms in \<open>simp add: remove_hold_def\<close>)

lemma sweep_holds_as_retain:
  "ag_holds (fst (sweep_holds gone r t p)) =
     bretain (\<lambda>_ hs. hs \<noteq> []) (bmap_values (\<lambda>k hs. if fst k = t \<and> fst (snd k) = p
        then filter (\<lambda>h. \<not> gone (fst h)) hs else hs) (ag_holds r))"
  by (auto simp: sweep_holds_def Let_def bretain_def bmap_values_def case_prod_beta intro!: filter_cong map_cong)

lemma sweep_holds_frame [simp]:
  "ag_artifacts (fst (sweep_holds gone r t p)) = ag_artifacts r"
  "ag_links (fst (sweep_holds gone r t p)) = ag_links r"
  by (auto simp: sweep_holds_def Let_def)

lemma ok_sweep_holds:
  assumes "artifacts_ok r"
  shows "artifacts_ok (fst (sweep_holds gone r t p))"
proof -
  note h = artifacts_okD(3) [OF assms, unfolded holds_ok_def]
  have eq: "fst (sweep_holds gone r t p) = r\<lparr>ag_holds := ag_holds (fst (sweep_holds gone r t p))\<rparr>"
    by (simp add: sweep_holds_def Let_def)
  have "holds_ok (fst (sweep_holds gone r t p))"
    unfolding holds_ok_def sweep_holds_as_retain using h
    by (auto simp: bmap_simps intro!: hold_set_ok_filter
        simp del: split_paired_All split: option.splits if_splits)
  with eq show ?thesis by (metis ok_holds assms)
qed

lemma holds_of_sweep:
  assumes "artifacts_ok r"
  shows "holds_of (fst (sweep_holds gone r t p)) k =
    (if fst k = t \<and> fst (snd k) = p then filter (\<lambda>h. \<not> gone (fst h)) (holds_of r k) else holds_of r k)"
  using artifacts_okD(3) [OF assms, unfolded holds_ok_def]
  by (auto simp: holds_of_def sweep_holds_as_retain bmap_simps split: option.split)

lemma keyed_in: "keyed key m \<Longrightarrow> (k, v) \<in> set m \<Longrightarrow> key v = k"
  unfolding keyed_def by (simp add: in_bget_Some)

lemma no_live_link:
  assumes "\<not> live_link_for r m" and "bget (ag_links r) d = Some i" and "\<not> il_revoked i"
  shows "(dl_tenant (il_link i), dl_project (il_link i), dl_artifact (il_link i)) \<noteq> metadata_key m"
  using assms bget_Some_in [OF assms(2)] by (force simp: live_link_for_def list_ex_iff)

lemma ok_drop_artifact:
  assumes ok: "artifacts_ok r" and free: "\<not> live_link_for r m"
  shows "artifacts_ok (drop_artifact r (metadata_key m))"
proof -
  let ?r = "drop_artifact r (metadata_key m)"
  have "length (project_metadata ?r t p) \<le> length (project_metadata r t p)" for t p
    unfolding project_metadata_length drop_artifact_def by (simp add: length_filter_bremove_le)
  then have "length (project_metadata ?r t p) \<le> max_artifact_metadata_per_project" for t p
    using artifacts_okD(2) [OF ok] order_trans by blast
  moreover have "links_ok ?r"
    using artifacts_okD(4) [OF ok] no_live_link [OF free]
    unfolding links_ok_def drop_artifact_def by (auto simp: bmap_simps)
  moreover have "holds_ok ?r"
    using artifacts_okD(3) [OF ok] unfolding holds_ok_def drop_artifact_def
    by (auto simp: bmap_simps simp del: split_paired_All)
  ultimately show ?thesis
    using keyed_bremove [OF artifacts_okD(1) [OF ok]]
    unfolding artifacts_ok_def by (simp add: drop_artifact_def)
qed

lemma project_metadata_drop_less:
  assumes "m \<in> set (project_metadata r t p)" and "keyed (\<lambda>m. metadata_key m) (ag_artifacts r)"
  shows "length (project_metadata (drop_artifact r (metadata_key m)) t p) < length (project_metadata r t p)"
    and "length (ag_artifacts (drop_artifact r (metadata_key m))) < length (ag_artifacts r)"
proof -
  from assms(1) obtain k where k: "(k, m) \<in> set (ag_artifacts r)" and tp: "mt_tenant m = t" "mt_project m = p"
    by (auto simp: project_metadata_def)
  have key: "k = metadata_key m" using keyed_in [OF assms(2) k] by simp
  let ?P = "\<lambda>e. mt_tenant (snd e) = t \<and> mt_project (snd e) = p"
  have "filter ?P (bremove k (ag_artifacts r)) = bremove k (filter ?P (ag_artifacts r))"
    unfolding bremove_def filter_filter by (rule filter_cong) auto
  moreover have "k \<in> set (map fst (filter ?P (ag_artifacts r)))" using k tp by force
  ultimately show "length (project_metadata (drop_artifact r (metadata_key m)) t p) < length (project_metadata r t p)"
    unfolding project_metadata_length drop_artifact_def key [symmetric]
    by (simp add: length_bremove_less del: set_map set_filter)
  have "k \<in> set (map fst (ag_artifacts r))" using k by force
  from length_bremove_less [OF this] show "length (ag_artifacts (drop_artifact r (metadata_key m))) < length (ag_artifacts r)"
    by (simp add: drop_artifact_def key)
qed

lemma ok_insert_metadata:
  assumes ok: "artifacts_ok r" and key: "metadata_key m = key"
    and room: "bget (ag_artifacts r) key \<noteq> None
      \<or> length (project_metadata r (mt_tenant m) (mt_project m)) < max_artifact_metadata_per_project"
  shows "artifacts_ok (r\<lparr>ag_artifacts := binsert key m (ag_artifacts r)\<rparr>)"
proof -
  let ?r = "r\<lparr>ag_artifacts := binsert key m (ag_artifacts r)\<rparr>"
  note k = artifacts_okD(1) [OF ok]
  have "length (project_metadata ?r t p) \<le> max_artifact_metadata_per_project" for t p
  proof (cases "bget (ag_artifacts r) key")
    case None
    with room have "length (project_metadata r (mt_tenant m) (mt_project m)) < max_artifact_metadata_per_project" by simp
    moreover have "length (project_metadata ?r t p)
        \<le> length (project_metadata r t p) + (if mt_tenant m = t \<and> mt_project m = p then 1 else 0)"
      unfolding project_metadata_length
      using length_filter_binsert_le [of "\<lambda>e. mt_tenant (snd e) = t \<and> mt_project (snd e) = p" key m "ag_artifacts r"]
      by simp
    ultimately show ?thesis using artifacts_okD(2) [OF ok, of t p] by (auto split: if_splits)
  next
    case (Some m0)
    with k key have "metadata_key m0 = metadata_key m" by (auto simp: keyed_def)
    with Some k have "length (project_metadata ?r t p) = length (project_metadata r t p)"
      unfolding project_metadata_length by (simp add: keyed_def length_filter_binsert_same)
    with artifacts_okD(2) [OF ok] show ?thesis by simp
  qed
  moreover have "holds_ok ?r" using artifacts_okD(3) [OF ok]
    by (auto simp: holds_ok_def bmap_simps simp del: split_paired_All)
  moreover have "links_ok ?r" using artifacts_okD(4) [OF ok]
    by (auto simp: links_ok_def bmap_simps)
  ultimately show ?thesis using k key by (simp add: artifacts_ok_def keyed_binsert)
qed

lemma ok_epoch [simp]: "artifacts_ok (r\<lparr>ag_next_epoch := e\<rparr>) = artifacts_ok r"
  by (simp add: artifacts_ok_def holds_ok_def links_ok_def project_metadata_def)

lemma candidate_ok:
  assumes ok: "artifacts_ok r" and cand: "project_metadata_eviction_candidate r t p pinned protected = Some e"
  shows "artifacts_ok (drop_artifact r e)"
    and "length (project_metadata (drop_artifact r e) t p) < max_artifact_metadata_per_project"
proof -
  from eviction_candidate_Some [OF cand] obtain m where m: "m \<in> set (project_metadata r t p)"
    "e = metadata_key m" "evictable r pinned protected m" by blast
  then show "artifacts_ok (drop_artifact r e)" using ok_drop_artifact [OF ok] by (simp add: evictable_def)
  from project_metadata_drop_less(1) [OF m(1) artifacts_okD(1) [OF ok]] artifacts_okD(2) [OF ok, of t p] m(2)
  show "length (project_metadata (drop_artifact r e) t p) < max_artifact_metadata_per_project" by simp
qed

lemma flushed_metadata_simps [simp]:
  "mt_tenant (flushed_metadata f e) = fl_tenant f" "mt_project (flushed_metadata f e) = fl_project f"
  "mt_id (flushed_metadata f e) = fl_id f" "mt_process (flushed_metadata f e) = fl_process f"
  "mt_digest (flushed_metadata f e) = fl_digest f" "mt_size (flushed_metadata f e) = fl_size f"
  "mt_retaining_nodes (flushed_metadata f e) = [fl_retaining_node f]"
  by (simp_all add: flushed_metadata_def)

lemma project_metadata_epoch [simp]: "project_metadata (r\<lparr>ag_next_epoch := e\<rparr>) = project_metadata r"
  by (simp add: project_metadata_def fun_eq_iff)

lemma drop_artifact_epoch: "drop_artifact (r\<lparr>ag_next_epoch := e\<rparr>) k = (drop_artifact r k)\<lparr>ag_next_epoch := e\<rparr>"
  by (simp add: drop_artifact_def)

lemma ok_commit_flush:
  assumes r0: "r0 = (case ev of None \<Rightarrow> r | Some e \<Rightarrow> drop_artifact r e)"
    and ok: "artifacts_ok r0"
    and room: "bget (ag_artifacts r0) (flush_key f) \<noteq> None
      \<or> length (project_metadata r0 (fl_tenant f) (fl_project f)) < max_artifact_metadata_per_project"
  shows "artifacts_ok (fst (commit_flush r f ev))"
proof -
  define epoch where "epoch = sat_add (ag_next_epoch r) 1"
  have "artifacts_ok (r0\<lparr>ag_next_epoch := epoch,
      ag_artifacts := binsert (flush_key f) (flushed_metadata f epoch) (ag_artifacts r0)\<rparr>)"
    using ok_insert_metadata [of "r0\<lparr>ag_next_epoch := epoch\<rparr>" "flushed_metadata f epoch" "flush_key f"] ok room
    by simp
  from ok_add_hold [OF this] show ?thesis
    by (cases ev) (simp_all add: commit_flush_def Let_def epoch_def drop_artifact_epoch r0)
qed

lemma ok_flush:
  assumes ok: "artifacts_ok r"
  shows "artifacts_ok (fst (flush_metadata_with_protected_processes r f pinned protected))"
proof (cases "bcontains (ag_artifacts r) (flush_key f)
    \<or> length (project_metadata r (fl_tenant f) (fl_project f)) < max_artifact_metadata_per_project")
  case True
  with ok_commit_flush [of r r None f] ok show ?thesis
    by (auto simp: flush_metadata_with_protected_processes_def bmap_simps)
next
  case False
  show ?thesis
  proof (cases "project_metadata_eviction_candidate r (fl_tenant f) (fl_project f) pinned (sinsert (fl_process f) protected)")
    case None
    with False ok show ?thesis by (simp add: flush_metadata_with_protected_processes_def)
  next
    case (Some e)
    from ok_commit_flush [of "drop_artifact r e" r "Some e" f] candidate_ok [OF ok Some] False Some show ?thesis
      by (simp add: flush_metadata_with_protected_processes_def)
  qed
qed

section \<open>The eviction loop ends\<close>

lemma length_bremove_one: "bwf m \<Longrightarrow> k \<in> set (map fst m) \<Longrightarrow> Suc (length (bremove k m)) = length m"
proof (induction m)
  case (Cons e m)
  then have "bwf m" and fresh: "fst e \<notin> set (map fst m)" by (auto simp: bwf_def)
  show ?case
  proof (cases "fst e = k")
    case True
    with fresh have "\<forall>x \<in> set m. fst x \<noteq> k" by (metis image_eqI list.set_map)
    then have "bremove k m = m" unfolding bremove_def by (rule filter_True)
    with True show ?thesis by (simp add: bremove_def)
  next
    case False
    with Cons \<open>bwf m\<close> show ?thesis by (auto simp: bremove_def)
  qed
qed simp

lemma evictable_drop_artifact:
  "metadata_key m \<noteq> k \<Longrightarrow> evictable (drop_artifact r k) pinned protected m = evictable r pinned protected m"
  by (simp add: evictable_def drop_artifact_def live_link_for_def bmap_simps)

lemma holds_of_drop_artifact: "holds_of (drop_artifact r k) = (holds_of r)(k := [])"
  by (auto simp: holds_of_def drop_artifact_def bmap_simps fun_eq_iff)

lemma evictable_holds: "evictable r pinned protected m \<Longrightarrow> holds_of r (metadata_key m) = []"
  by (auto simp: evictable_def holds_of_def split: option.splits)

definition enforced ::
  "artifact_registry \<Rightarrow> tenant_id \<Rightarrow> project_id \<Rightarrow> artifact_scope_key bset \<Rightarrow> process_id bset \<Rightarrow> nat
     \<Rightarrow> artifact_registry \<Rightarrow> bool" where
  "enforced r t p pinned protected n r' \<longleftrightarrow>
     length (ag_artifacts r') + n = length (ag_artifacts r) \<and> holds_of r' = holds_of r
     \<and> (length (project_metadata r' t p) \<le> max_artifact_metadata_per_project
        \<or> (\<forall>m \<in> set (project_metadata r' t p). \<not> evictable r' pinned protected m))
     \<and> (\<forall>k m. bget (ag_artifacts r) k = Some m \<longrightarrow>
          \<not> (in_artifact_project t p m \<and> evictable r pinned protected m) \<longrightarrow> bget (ag_artifacts r') k = Some m)"

lemma no_candidate:
  "project_metadata_eviction_candidate r t p pinned protected = None \<longleftrightarrow>
     (\<forall>m \<in> set (project_metadata r t p). \<not> evictable r pinned protected m)"
  by (auto simp: project_metadata_eviction_candidate_def first_min_by_None filter_empty_conv)

lemma enforced_refl:
  "length (project_metadata r t p) \<le> max_artifact_metadata_per_project
     \<or> project_metadata_eviction_candidate r t p pinned protected = None
   \<Longrightarrow> enforced r t p pinned protected 0 r"
  by (auto simp: enforced_def no_candidate)

lemma enforced_step:
  assumes keyed: "keyed (\<lambda>m. metadata_key m) (ag_artifacts r)"
    and m: "m \<in> set (project_metadata r t p)" "evictable r pinned protected m"
    and rest: "enforced (drop_artifact r (metadata_key m)) t p pinned protected n r'"
  shows "enforced r t p pinned protected (Suc n) r'"
proof -
  from m(1) obtain k where k: "(k, m) \<in> set (ag_artifacts r)" and tp: "in_artifact_project t p m"
    by (auto simp: project_metadata_def in_artifact_project_def)
  have key: "k = metadata_key m" using keyed_in [OF keyed k] by simp
  have bwf: "bwf (ag_artifacts r)" using keyed by (simp add: keyed_def)
  have "metadata_key m \<in> set (map fst (ag_artifacts r))" using k key by force
  from length_bremove_one [OF bwf this]
  have len: "length (ag_artifacts (drop_artifact r (metadata_key m))) + 1 = length (ag_artifacts r)"
    by (simp add: drop_artifact_def)
  have keep: "bget (ag_artifacts r') k' = Some m'"
    if "bget (ag_artifacts r) k' = Some m'" "\<not> (in_artifact_project t p m' \<and> evictable r pinned protected m')" for k' m'
  proof -
    have k': "metadata_key m' = k'" using keyed_in [OF keyed bget_Some_in [OF that(1)]] by simp
    have "k' \<noteq> metadata_key m"
      using that k key tp m(2) in_bget_Some [OF bwf k] by auto
    with that k' have "bget (ag_artifacts (drop_artifact r (metadata_key m))) k' = Some m'"
      "\<not> (in_artifact_project t p m' \<and> evictable (drop_artifact r (metadata_key m)) pinned protected m')"
      using evictable_drop_artifact [of m' "metadata_key m" r pinned protected]
      by (auto simp: drop_artifact_def bmap_simps)
    with rest show ?thesis unfolding enforced_def by blast
  qed
  have "holds_of (drop_artifact r (metadata_key m)) = holds_of r"
    using evictable_holds [OF m(2)] by (auto simp: holds_of_drop_artifact fun_eq_iff)
  then show ?thesis unfolding enforced_def
    using rest len keep unfolding enforced_def by auto
qed

lemma enforce_loop_returns:
  "keyed (\<lambda>m. metadata_key m) (ag_artifacts r) \<Longrightarrow>
     \<exists>r' n. enforce_loop t p pinned protected r j = Some (r', j + n) \<and> enforced r t p pinned protected n r'"
proof (induction "length (ag_artifacts r)" arbitrary: r j rule: less_induct)
  case less
  show ?case
  proof (cases "length (project_metadata r t p) > max_artifact_metadata_per_project")
    case False
    then have "enforce_loop t p pinned protected r j = Some (r, j + 0)" by (simp add: enforce_loop.simps)
    with enforced_refl False show ?thesis by (meson not_less)
  next
    case over: True
    show ?thesis
    proof (cases "project_metadata_eviction_candidate r t p pinned protected")
      case None
      with over have "enforce_loop t p pinned protected r j = Some (r, j + 0)" by (simp add: enforce_loop.simps)
      with enforced_refl None show ?thesis by blast
    next
      case (Some e)
      from eviction_candidate_Some [OF Some] obtain m where m: "m \<in> set (project_metadata r t p)"
        "e = metadata_key m" "evictable r pinned protected m" by blast
      have keyed: "keyed (\<lambda>m. metadata_key m) (ag_artifacts (drop_artifact r e))"
        using keyed_bremove [OF less(2)] by (simp add: drop_artifact_def)
      from less(1) [OF _ keyed, of "Suc j"] project_metadata_drop_less(2) [OF m(1) less(2)] m(2)
      obtain r' n where "enforce_loop t p pinned protected (drop_artifact r e) (Suc j) = Some (r', Suc j + n)"
        "enforced (drop_artifact r e) t p pinned protected n r'" by auto
      moreover have "enforce_loop t p pinned protected r j
          = enforce_loop t p pinned protected (drop_artifact r e) (Suc j)"
        using over Some by (subst enforce_loop.simps) simp
      ultimately show ?thesis using enforced_step [OF less(2) m(1,3)] m(2) by (metis add_Suc_shift)
    qed
  qed
qed

section \<open>Every operation keeps the invariant\<close>

lemma ok_links_subset:
  assumes ok: "artifacts_ok r" and "keyed (\<lambda>i. dl_scoped_token_digest (il_link i)) L"
    and "\<And>t p a. length (filter (link_for t p a) (bvalues L)) \<le> max_issued_download_links_per_artifact"
    and "\<And>d i. bget L d = Some i \<Longrightarrow> \<not> il_revoked i \<Longrightarrow>
      bget (ag_artifacts r) (dl_tenant (il_link i), dl_project (il_link i), dl_artifact (il_link i)) \<noteq> None"
  shows "artifacts_ok (r\<lparr>ag_links := L\<rparr>)"
  using assms unfolding artifacts_ok_def links_ok_def holds_ok_def project_metadata_def
  by (auto simp del: split_paired_All)

lemma links_okD:
  assumes "links_ok r"
  shows "keyed (\<lambda>i. dl_scoped_token_digest (il_link i)) (ag_links r)"
    and "length (filter (link_for t p a) (bvalues (ag_links r))) \<le> max_issued_download_links_per_artifact"
    and "bget (ag_links r) d = Some i \<Longrightarrow> \<not> il_revoked i \<Longrightarrow>
      bget (ag_artifacts r) (dl_tenant (il_link i), dl_project (il_link i), dl_artifact (il_link i)) \<noteq> None"
  using assms unfolding links_ok_def by blast+

lemma length_filter_values_bretain_le:
  "length (filter P (bvalues (bretain q m))) \<le> length (filter P (bvalues m))"
  unfolding bretain_def by (induction m) auto

lemma length_filter_values_binsert_le:
  "length (filter P (bvalues (binsert k v m))) \<le> length (filter P (bvalues m)) + (if P v then 1 else 0)"
  by (induction k v m rule: binsert.induct) auto

lemma length_filter_values_binsert_same:
  assumes "bwf m" and "bget m k = Some v0" and "P v = P v0"
  shows "length (filter P (bvalues (binsert k v m))) = length (filter P (bvalues m))"
  using length_filter_binsert_same [OF assms(1,2), of "\<lambda>e. P (snd e)"] assms(3)
  by (simp add: filter_map comp_def)

lemma keyed_bretain: "keyed key m \<Longrightarrow> keyed key (bretain q m)"
  by (auto simp: keyed_def bmap_simps split: option.splits if_splits)

lemma ok_retain_links:
  assumes ok: "artifacts_ok r"
  shows "artifacts_ok (r\<lparr>ag_links := bretain q (ag_links r)\<rparr>)"
proof (rule ok_links_subset [OF ok])
  note l = links_okD [OF artifacts_okD(4) [OF ok]]
  show "keyed (\<lambda>i. dl_scoped_token_digest (il_link i)) (bretain q (ag_links r))" by (rule keyed_bretain [OF l(1)])
  show "length (filter (link_for t p a) (bvalues (bretain q (ag_links r)))) \<le> max_issued_download_links_per_artifact"
    for t p a by (rule order_trans [OF length_filter_values_bretain_le l(2)])
  have bwf: "bwf (ag_links r)" using l(1) by (simp add: keyed_def)
  show "bget (ag_artifacts r) (dl_tenant (il_link i), dl_project (il_link i), dl_artifact (il_link i)) \<noteq> None"
    if "bget (bretain q (ag_links r)) d = Some i" "\<not> il_revoked i" for d i
    using that l(3) [of d i] by (auto simp: bget_bretain [OF bwf] split: option.splits if_splits)
qed

lemma ok_fold_remove_hold: "artifacts_ok r \<Longrightarrow> artifacts_ok (fold (\<lambda>l r. fst (remove_hold r (key l) (reason l))) ls r)"
  by (induction ls arbitrary: r) (simp_all add: ok_remove_hold)

lemma fold_remove_hold_frame [simp]:
  "ag_artifacts (fold (\<lambda>l r. fst (remove_hold r (key l) (reason l))) ls r) = ag_artifacts r"
  "ag_links (fold (\<lambda>l r. fst (remove_hold r (key l) (reason l))) ls r) = ag_links r"
  by (induction ls arbitrary: r) simp_all

lemma ok_expire_download_links: "artifacts_ok r \<Longrightarrow> artifacts_ok (expire_download_links r now)"
  unfolding expire_download_links_def Let_def by (rule ok_retain_links [OF ok_fold_remove_hold])

lemma expire_download_links_frame [simp]: "ag_artifacts (expire_download_links r now) = ag_artifacts r"
  by (simp add: expire_download_links_def Let_def)

lemma ok_insert_link:
  assumes ok: "artifacts_ok r" and dg: "dl_scoped_token_digest (il_link i) = d"
    and art: "bget (ag_artifacts r) (dl_tenant (il_link i), dl_project (il_link i), dl_artifact (il_link i)) \<noteq> None
      \<or> il_revoked i"
    and room: "length (filter (link_for (dl_tenant (il_link i)) (dl_project (il_link i)) (dl_artifact (il_link i)))
        (bvalues (ag_links r))) < max_issued_download_links_per_artifact
      \<or> (\<exists>i0. bget (ag_links r) d = Some i0 \<and> il_link i0 = il_link i)"
  shows "artifacts_ok (r\<lparr>ag_links := binsert d i (ag_links r)\<rparr>)"
proof (rule ok_links_subset [OF ok])
  note l = links_okD [OF artifacts_okD(4) [OF ok]]
  show "keyed (\<lambda>i. dl_scoped_token_digest (il_link i)) (binsert d i (ag_links r))"
    by (rule keyed_binsert [OF l(1) dg])
  have bwf: "bwf (ag_links r)" using l(1) by (simp add: keyed_def)
  show "length (filter (link_for t p a) (bvalues (binsert d i (ag_links r)))) \<le> max_issued_download_links_per_artifact"
    for t p a
  proof (cases "\<exists>i0. bget (ag_links r) d = Some i0 \<and> il_link i0 = il_link i")
    case True
    then obtain i0 where i0: "bget (ag_links r) d = Some i0" "il_link i0 = il_link i" by blast
    with length_filter_values_binsert_same [OF bwf i0(1), of "link_for t p a" i] l(2) [of t p a]
    show ?thesis by (simp add: link_for_def del: filter_map)
  next
    case False
    with room l(2) [of t p a] length_filter_values_binsert_le [of "link_for t p a" d i "ag_links r"]
    show ?thesis by (cases "link_for t p a i") (auto simp: link_for_def simp del: filter_map)
  qed
  show "bget (ag_artifacts r) (dl_tenant (il_link i'), dl_project (il_link i'), dl_artifact (il_link i')) \<noteq> None"
    if "bget (binsert d i (ag_links r)) d' = Some i'" "\<not> il_revoked i'" for d' i'
    using that art l(3) [of d' i'] by (auto simp: bmap_simps split: if_splits)
qed

lemma download_action_for_metadata:
  "download_action_for r ctx a policy = Inr act \<Longrightarrow>
     \<exists>m. bget (ag_artifacts r) (ac_tenant ctx, ac_project ctx, a) = Some m"
  by (auto simp: download_action_for_def split: option.splits)

lemma create_download_link_cases:
  assumes "keyed (\<lambda>m. metadata_key m) (ag_artifacts r)"
  obtains (refused) e where
      "create_download_link H r ctx a policy nonce now ttl = (expire_download_links r now, Inl e)"
  | (issued) link where
      "create_download_link H r ctx a policy nonce now ttl =
         (fst (add_hold ((expire_download_links r now)\<lparr>ag_links := binsert (dl_scoped_token_digest link)
                 \<lparr>il_link = link, il_revoked = False\<rparr> (ag_links (expire_download_links r now))\<rparr>)
               (dl_tenant link, dl_project link, dl_artifact link)
               (DownloadExport (dl_scoped_token_digest link)) now), Inr link)"
      "bget (ag_artifacts r) (dl_tenant link, dl_project link, dl_artifact link) \<noteq> None"
      "(dl_tenant link, dl_project link, dl_artifact link) = (ac_tenant ctx, ac_project ctx, a)"
      "dl_expires_at link = sat_add now ttl" "dl_actor link = ac_actor ctx"
      "length (filter (link_for (ac_tenant ctx) (ac_project ctx) a)
         (bvalues (ag_links (expire_download_links r now)))) < max_issued_download_links_per_artifact"
proof (cases "length (filter (link_for (ac_tenant ctx) (ac_project ctx) a)
    (bvalues (ag_links (expire_download_links r now)))) \<ge> max_issued_download_links_per_artifact")
  case True
  then show ?thesis by (intro refused) (simp add: create_download_link_def Let_def)
next
  case room: False
  show ?thesis
  proof (cases "download_action_for (expire_download_links r now) ctx a policy")
    case (Inl e)
    with room show ?thesis by (intro refused) (simp add: create_download_link_def Let_def)
  next
    case (Inr act)
    from download_action_for_metadata [OF Inr] obtain m where
      m: "bget (ag_artifacts r) (ac_tenant ctx, ac_project ctx, a) = Some m" by auto
    with assms have key: "metadata_key m = (ac_tenant ctx, ac_project ctx, a)" by (auto simp: keyed_def)
    from room Inr m key show ?thesis
      by (intro issued) (auto simp: create_download_link_def Let_def)
  qed
qed

lemma ok_create_download_link:
  assumes ok: "artifacts_ok r"
  shows "artifacts_ok (fst (create_download_link H r ctx a policy nonce now ttl))"
  using artifacts_okD(1) [OF ok]
proof (cases rule: create_download_link_cases [where H = H and ctx = ctx and a = a and policy = policy
      and nonce = nonce and now = now and ttl = ttl])
  case (refused e)
  with ok_expire_download_links [OF ok] show ?thesis by simp
next
  case (issued link)
  have "artifacts_ok ((expire_download_links r now)\<lparr>ag_links := binsert (dl_scoped_token_digest link)
      \<lparr>il_link = link, il_revoked = False\<rparr> (ag_links (expire_download_links r now))\<rparr>)"
    using issued(2,3,6) by (intro ok_insert_link [OF ok_expire_download_links [OF ok]]) auto
  from ok_add_hold [OF this] issued(1) show ?thesis by simp
qed

lemma revoke_download_link_cases:
  obtains (refused) e where "revoke_download_link r ctx a d = (r, Inl e)"
  | (revoked) i where "bget (ag_links r) d = Some i"
      "revoke_download_link r ctx a d =
         (fst (remove_hold (r\<lparr>ag_links := binsert d (i\<lparr>il_revoked := True\<rparr>) (ag_links r)\<rparr>)
            (dl_tenant (il_link i), dl_project (il_link i), dl_artifact (il_link i))
            (DownloadExport (dl_scoped_token_digest (il_link i)))), Inr (il_link i))"
  by (fastforce simp: revoke_download_link_def Let_def split: option.splits sum.splits if_splits)

lemma ok_revoke_download_link:
  assumes ok: "artifacts_ok r"
  shows "artifacts_ok (fst (revoke_download_link r ctx a d))"
proof (cases rule: revoke_download_link_cases [of r ctx a d])
  case (revoked i)
  from links_okD(1) [OF artifacts_okD(4) [OF ok]] revoked(1)
  have "dl_scoped_token_digest (il_link i) = d" by (auto simp: keyed_def)
  then have "artifacts_ok (r\<lparr>ag_links := binsert d (i\<lparr>il_revoked := True\<rparr>) (ag_links r)\<rparr>)"
    using revoked(1) by (intro ok_insert_link [OF ok]) auto
  from ok_remove_hold [OF this] revoked(2) show ?thesis by simp
qed (use ok in simp)

section \<open>The registry as a transition system\<close>

datatype artifact_op =
    Flush artifact_flush "artifact_scope_key bset" "process_id bset"
  | Enforce tenant_id project_id "artifact_scope_key bset" "process_id bset"
  | Collect_Node tenant_id project_id node_id
  | Forget_Location artifact_scope_key node_id
  | Reconcile tenant_id project_id node_id "artifact_id bset"
  | Verified artifact_scope_key node_id digest u64
  | Hold artifact_scope_key artifact_hold_reason u64
  | Unhold artifact_scope_key artifact_hold_reason
  | Release_Process tenant_id project_id process_id
  | Release_Task tenant_id project_id process_id task_instance_id
  | Release_Checkpoint tenant_id project_id process_id task_instance_id
  | Create_Link auth_context artifact_id download_policy string u64 u64
  | Revoke_Link auth_context artifact_id digest
  | Expire_Links u64

inductive artifact_step :: "sha256_fn \<Rightarrow> artifact_registry \<Rightarrow> artifact_op \<Rightarrow> artifact_registry \<Rightarrow> bool"
  for H :: sha256_fn where
  flush: "artifact_step H r (Flush f pinned protected)
            (fst (flush_metadata_with_protected_processes r f pinned protected))"
| enforce: "enforce_project_metadata_limit r t p pinned protected = Some (r', n) \<Longrightarrow>
            artifact_step H r (Enforce t p pinned protected) r'"
| collect: "artifact_step H r (Collect_Node t p node) (garbage_collect_node r t p node)"
| forget: "artifact_step H r (Forget_Location key node) (fst (remove_retaining_location r key node))"
| reconcile: "artifact_step H r (Reconcile t p node retained) (reconcile_node_retention r t p node retained)"
| verified: "record_verified_retaining_location r key node dg sz = Some r' \<Longrightarrow>
            artifact_step H r (Verified key node dg sz) r'"
| hold: "artifact_step H r (Hold key reason at) (fst (add_hold r key reason at))"
| unhold: "artifact_step H r (Unhold key reason) (fst (remove_hold r key reason))"
| release_process: "artifact_step H r (Release_Process t p q) (fst (release_process_holds r t p q))"
| release_task: "artifact_step H r (Release_Task t p q i) (fst (release_task_holds r t p q i))"
| release_checkpoint: "artifact_step H r (Release_Checkpoint t p q i) (fst (release_restart_checkpoint_holds r t p q i))"
| create: "artifact_step H r (Create_Link ctx a policy nonce now ttl)
            (fst (create_download_link H r ctx a policy nonce now ttl))"
| revoke: "artifact_step H r (Revoke_Link ctx a d) (fst (revoke_download_link r ctx a d))"
| expire: "artifact_step H r (Expire_Links now) (expire_download_links r now)"

inductive artifact_steps :: "sha256_fn \<Rightarrow> artifact_registry \<Rightarrow> artifact_op list \<Rightarrow> artifact_registry \<Rightarrow> bool"
  for H :: sha256_fn where
  nil: "artifact_steps H r [] r"
| cons: "artifact_step H r op r1 \<Longrightarrow> artifact_steps H r1 ops r' \<Longrightarrow> artifact_steps H r (op # ops) r'"

text \<open>The operations that may take the hold \<open>reason\<close> off the artifact \<open>key\<close>.\<close>

fun releases :: "artifact_op \<Rightarrow> artifact_scope_key \<Rightarrow> artifact_hold_reason \<Rightarrow> bool" where
  "releases (Unhold key' reason') key reason = (key' = key \<and> reason' = reason)"
| "releases (Release_Process t p q) (t', p', _) reason = (t' = t \<and> p' = p \<and> process_scoped_hold q reason)"
| "releases (Release_Task t p q i) (t', p', _) reason = (t' = t \<and> p' = p \<and> reason = ConsumerTask q i)"
| "releases (Release_Checkpoint t p q i) (t', p', _) reason = (t' = t \<and> p' = p \<and> reason = RestartCheckpoint q i)"
| "releases (Create_Link _ _ _ _ _ _) _ reason = (case reason of DownloadExport _ \<Rightarrow> True | _ \<Rightarrow> False)"
| "releases (Revoke_Link _ _ _) _ reason = (case reason of DownloadExport _ \<Rightarrow> True | _ \<Rightarrow> False)"
| "releases (Expire_Links _) _ reason = (case reason of DownloadExport _ \<Rightarrow> True | _ \<Rightarrow> False)"
| "releases _ _ _ = False"

fun reflushes :: "artifact_op \<Rightarrow> artifact_scope_key \<Rightarrow> bool" where
  "reflushes (Flush f _ _) key = (flush_key f = key)"
| "reflushes _ _ = False"

text \<open>Only the set of retaining nodes may differ.\<close>

definition same_artifact :: "artifact_metadata \<Rightarrow> artifact_metadata \<Rightarrow> bool" where
  "same_artifact m m' \<longleftrightarrow> m' = m\<lparr>mt_retaining_nodes := mt_retaining_nodes m'\<rparr>"

lemma same_artifact_refl [simp]: "same_artifact m m"
  by (simp add: same_artifact_def)

lemma same_artifact_retaining [simp]: "same_artifact m (m\<lparr>mt_retaining_nodes := ns\<rparr>)"
  by (simp add: same_artifact_def)

lemma same_artifact_trans: "same_artifact a b \<Longrightarrow> same_artifact b c \<Longrightarrow> same_artifact a c"
  unfolding same_artifact_def by (cases a; cases b; cases c) simp

lemma ok_artifact_step: "artifact_step H r op r' \<Longrightarrow> artifacts_ok r \<Longrightarrow> artifacts_ok r'"
proof (induction rule: artifact_step.induct)
  case (enforce r t p pinned protected r' n)
  then have "r' = r" using artifacts_okD(2) [OF enforce(2), of t p]
    by (simp add: enforce_project_metadata_limit_def enforce_loop.simps [of t p])
  with enforce show ?case by simp
next
  case (collect r t p node)
  then show ?case unfolding garbage_collect_node_def by (intro ok_rewrite_metadata) simp_all
next
  case (forget r key node)
  then show ?case unfolding remove_retaining_location_def fst_conv bupdate_as_map_values
    by (intro ok_rewrite_metadata) simp_all
next
  case (reconcile r t p node retained)
  then show ?case unfolding reconcile_node_retention_def by (intro ok_rewrite_metadata) auto
next
  case (verified r key node dg sz r')
  then obtain m where m: "bget (ag_artifacts r) key = Some m" and
    r': "r' = r\<lparr>ag_artifacts := binsert key (m\<lparr>mt_retaining_nodes := sinsert node (mt_retaining_nodes m)\<rparr>) (ag_artifacts r)\<rparr>"
    by (auto simp: record_verified_retaining_location_def split: option.splits if_splits)
  from keyed_in [OF artifacts_okD(1) [OF verified(2)] bget_Some_in [OF m]] have "metadata_key m = key" by simp
  with m r' show ?case by (auto intro!: ok_insert_metadata [OF verified(2)])
qed (simp_all add: ok_flush ok_add_hold ok_remove_hold ok_sweep_holds release_process_holds_def release_task_holds_def
    release_restart_checkpoint_holds_def ok_create_download_link ok_revoke_download_link ok_expire_download_links)

lemma ok_artifact_steps: "artifact_steps H r ops r' \<Longrightarrow> artifacts_ok r \<Longrightarrow> artifacts_ok r'"
  by (induction rule: artifact_steps.induct) (auto dest: ok_artifact_step)

lemma ok_default: "artifacts_ok artifact_registry_default"
  by (simp add: artifacts_ok_def artifact_registry_default_def holds_ok_def links_ok_def project_metadata_def)

subsection \<open>A hold stays until an operation releases it\<close>

abbreviation held :: "artifact_registry \<Rightarrow> artifact_scope_key \<Rightarrow> artifact_hold_reason \<Rightarrow> bool" where
  "held r key reason \<equiv> reason \<in> fst ` set (holds_of r key)"

lemma held_add_hold: "held r key reason \<Longrightarrow> held (fst (add_hold r key' reason' at)) key reason"
  by (auto simp: holds_of_add_hold set_sinsert)

lemma held_remove_hold:
  "held r key reason \<Longrightarrow> \<not> (key' = key \<and> reason' = reason) \<Longrightarrow> held (fst (remove_hold r key' reason')) key reason"
  by (force simp: holds_of_remove_hold)

lemma held_sweep:
  assumes "artifacts_ok r" and "held r key reason" and "\<not> (fst key = t \<and> fst (snd key) = p \<and> gone reason)"
  shows "held (fst (sweep_holds gone r t p)) key reason"
  using assms(2,3) by (force simp: holds_of_sweep [OF assms(1)])

lemma holds_of_frame [simp]:
  "holds_of (r\<lparr>ag_artifacts := A\<rparr>) = holds_of r" "holds_of (r\<lparr>ag_links := L\<rparr>) = holds_of r"
  "holds_of (r\<lparr>ag_next_epoch := e\<rparr>) = holds_of r"
  by (simp_all add: holds_of_def fun_eq_iff)

lemma held_fold_remove:
  "held r key reason \<Longrightarrow> (\<And>l. l \<in> set ls \<Longrightarrow> f l \<noteq> reason) \<Longrightarrow>
     held (fold (\<lambda>l r. fst (remove_hold r (k l) (f l))) ls r) key reason"
  by (induction ls arbitrary: r) (simp_all add: held_remove_hold)

lemma held_expire:
  "held r key reason \<Longrightarrow> (\<And>d. reason \<noteq> DownloadExport d) \<Longrightarrow> held (expire_download_links r now) key reason"
  unfolding expire_download_links_def Let_def holds_of_frame by (rule held_fold_remove) metis+

lemma held_commit_flush:
  assumes "held r key reason" and "\<And>e. ev = Some e \<Longrightarrow> holds_of r e = []"
  shows "held (fst (commit_flush r f ev)) key reason"
proof -
  have "holds_of (case ev of None \<Rightarrow> r | Some e \<Rightarrow> drop_artifact r e) = holds_of r"
    using assms(2) by (auto simp: holds_of_drop_artifact fun_eq_iff split: option.split)
  with assms(1) show ?thesis
    by (cases ev) (simp_all add: commit_flush_def Let_def held_add_hold drop_artifact_epoch)
qed

lemma candidate_unheld:
  "project_metadata_eviction_candidate r t p pinned protected = Some e \<Longrightarrow> holds_of r e = []"
  using eviction_candidate_Some evictable_holds by blast

lemma held_flush:
  assumes "held r key reason"
  shows "held (fst (flush_metadata_with_protected_processes r f pinned protected)) key reason"
  using held_commit_flush [OF assms, of None f] held_commit_flush [OF assms, of "Some e" f for e] assms candidate_unheld
  by (simp add: flush_metadata_with_protected_processes_def Let_def split: option.split)

lemma artifact_step_keeps_hold:
  assumes "artifact_step H r op r'" and "artifacts_ok r" and "held r key reason" and "\<not> releases op key reason"
  shows "held r' key reason"
  using assms
proof (induction rule: artifact_step.induct)
  case (flush r f pinned protected)
  then show ?case by (simp only: held_flush)
next
  case (enforce r t p pinned protected r' n)
  from enforce_loop_returns [OF artifacts_okD(1) [OF enforce(2)], of t p pinned protected 0] enforce(1)
  have "enforced r t p pinned protected n r'" by (auto simp: enforce_project_metadata_limit_def)
  with enforce(3) show ?case by (simp add: enforced_def)
next
  case (create r ctx a policy nonce now ttl)
  then have nd: "reason \<noteq> DownloadExport d" for d by auto
  from artifacts_okD(1) [OF create(1)] show ?case
  proof (cases rule: create_download_link_cases [where H = H and ctx = ctx and a = a and policy = policy
        and nonce = nonce and now = now and ttl = ttl])
    case (refused e)
    with held_expire [OF create(2) nd] show ?thesis by simp
  next
    case (issued link)
    with held_expire [OF create(2) nd] show ?thesis by (simp add: held_add_hold)
  qed
next
  case (revoke r ctx a d)
  then have nd: "reason \<noteq> DownloadExport d" for d by auto
  show ?case
    by (cases rule: revoke_download_link_cases [of r ctx a d])
      (use revoke(2) nd not_sym [OF nd] in \<open>simp_all add: held_remove_hold\<close>)
next
  case (expire r now)
  then show ?case by (intro held_expire) auto
next
  case (verified r key' node dg sz r')
  then show ?case by (auto simp: record_verified_retaining_location_def split: option.splits if_splits)
qed (cases key; auto simp: held_add_hold held_remove_hold held_sweep release_process_holds_def release_task_holds_def
    release_restart_checkpoint_holds_def garbage_collect_node_def remove_retaining_location_def
    reconcile_node_retention_def simp del: set_map)+

lemma held_not_empty: "held r key reason \<Longrightarrow> holds_of r key \<noteq> []"
  by auto

lemma held_artifact_exists:
  assumes "artifacts_ok r" and "held r key reason"
  shows "\<exists>m. bget (ag_artifacts r) key = Some m"
  using assms(2) holds_okD [OF artifacts_okD(3) [OF assms(1)], of key]
  by (cases "bget (ag_holds r) key") (auto simp: holds_of_def)

lemma commit_flush_other:
  assumes "flush_key f \<noteq> key" and "ev \<noteq> Some key"
  shows "bget (ag_artifacts (fst (commit_flush r f ev))) key = bget (ag_artifacts r) key"
  using assms by (auto simp: commit_flush_def Let_def drop_artifact_def bmap_simps split: option.split)

lemma flush_other_held:
  assumes "holds_of r key \<noteq> []" and "flush_key f \<noteq> key"
  shows "bget (ag_artifacts (fst (flush_metadata_with_protected_processes r f pinned protected))) key
    = bget (ag_artifacts r) key"
proof -
  have "e \<noteq> key" if "project_metadata_eviction_candidate r (fl_tenant f) (fl_project f) pinned
      (sinsert (fl_process f) protected) = Some e" for e
    using candidate_unheld [OF that] assms(1) by auto
  then show ?thesis
    using commit_flush_other [OF assms(2), of None r] commit_flush_other [OF assms(2), of "Some e" r for e]
    by (simp add: flush_metadata_with_protected_processes_def Let_def split: option.split)
qed

lemma artifact_step_keeps_artifact:
  assumes "artifact_step H r op r'" and "artifacts_ok r" and "held r key reason" and "\<not> reflushes op key"
    and "bget (ag_artifacts r) key = Some m"
  shows "\<exists>m'. bget (ag_artifacts r') key = Some m' \<and> same_artifact m m'"
  using assms
proof (induction rule: artifact_step.induct)
  case (flush r f pinned protected)
  from flush(2) have "holds_of r key \<noteq> []" by auto
  from flush_other_held [OF this] flush(3,4) show ?case by simp
next
  case (enforce r t p pinned protected r' n)
  from enforce(3) have "\<not> evictable r pinned protected m"
    using evictable_holds [of r pinned protected m] keyed_in [OF artifacts_okD(1) [OF enforce(2)] bget_Some_in [OF enforce(5)]]
    by auto
  moreover from enforce_loop_returns [OF artifacts_okD(1) [OF enforce(2)], of t p pinned protected 0] enforce(1)
  have "enforced r t p pinned protected n r'" by (auto simp: enforce_project_metadata_limit_def)
  ultimately show ?case using enforce(5) unfolding enforced_def by (metis same_artifact_refl)
next
  case (create r ctx a policy nonce now ttl)
  from artifacts_okD(1) [OF create(1)] show ?case
    by (cases rule: create_download_link_cases [where H = H and ctx = ctx and a = a and policy = policy
        and nonce = nonce and now = now and ttl = ttl]) (use create(4) in simp_all)
next
  case (revoke r ctx a d)
  show ?case
    by (cases rule: revoke_download_link_cases [of r ctx a d]) (use revoke(4) in simp_all)
next
  case (verified r key' node dg sz r')
  then show ?case
    by (auto simp: record_verified_retaining_location_def bmap_simps split: option.splits if_splits)
qed (auto simp: release_process_holds_def release_task_holds_def bmap_simps
    release_restart_checkpoint_holds_def garbage_collect_node_def remove_retaining_location_def
    reconcile_node_retention_def split: prod.splits)

definition example_flush :: artifact_flush where
  "example_flush = \<lparr>fl_id = ''app.tar'', fl_tenant = ''t'', fl_project = ''p'', fl_process = ''q'',
     fl_producer_task = ''build'', fl_retaining_node = ''n1'', fl_digest = ''sha256:1'', fl_size = 10\<rparr>"

definition example_artifacts :: artifact_registry where
  "example_artifacts = fst (flush_metadata_with_protected_processes artifact_registry_default example_flush [] [])"

lemma example_artifacts_step:
  "artifact_steps H artifact_registry_default [Flush example_flush [] []] example_artifacts"
  unfolding example_artifacts_def by (rule artifact_steps.cons [OF artifact_step.flush artifact_steps.nil])

lemma example_artifacts_ok: "artifacts_ok example_artifacts"
  by (rule ok_artifact_steps [OF example_artifacts_step ok_default])

text \<open>
  C26. Reachable artifact registries are well formed: every metadata entry is filed under its own tenant,
  project and id, no project has more than 1024 entries, holds exist only for known artifacts and name each
  reason once, no artifact has more than 32 issued links, and every link that is not revoked leads to an
  artifact the registry still has.
\<close>

theorem artifact_registry_invariant:
  assumes "artifact_steps H artifact_registry_default ops r"
  shows "artifacts_ok r"
  using ok_artifact_steps [OF assms ok_default] .

theorem artifact_registry_invariant_witness:
  "artifacts_ok example_artifacts \<and> bkeys (ag_artifacts example_artifacts) = [(''t'', ''p'', ''app.tar'')]"
proof
  show "artifacts_ok example_artifacts" by (rule artifact_registry_invariant [OF example_artifacts_step])
  show "bkeys (ag_artifacts example_artifacts) = [(''t'', ''p'', ''app.tar'')]" by code_simp
qed

text \<open>
  C25. A held artifact is never evicted. Along any sequence of operations that contains none releasing the
  hold, the hold stays and the artifact stays known; if no operation flushes the same artifact again, its
  process, producer, digest, size and epoch stay as they were.
\<close>

theorem held_artifact_survives:
  assumes "artifact_steps H r ops r'" and "artifacts_ok r" and "reason \<in> fst ` set (holds_of r key)"
    and "list_all (\<lambda>op. \<not> releases op key reason) ops"
  shows "reason \<in> fst ` set (holds_of r' key)
    \<and> (\<exists>m'. artifact_metadata_of r' key = Some m'
          \<and> (list_all (\<lambda>op. \<not> reflushes op key) ops \<longrightarrow>
               (\<exists>m. artifact_metadata_of r key = Some m \<and> same_artifact m m')))"
  using assms
proof (induction rule: artifact_steps.induct)
  case (nil r)
  with held_artifact_exists [OF nil(1,2)] show ?case by (auto simp: artifact_metadata_of_def)
next
  case (cons r op r1 ops r')
  have ok1: "artifacts_ok r1" by (rule ok_artifact_step [OF cons(1,4)])
  have held1: "held r1 key reason" using cons(1,4,5,6) artifact_step_keeps_hold by auto
  from held_artifact_exists [OF cons(4,5)] obtain m where m: "bget (ag_artifacts r) key = Some m" by blast
  have keep: "\<exists>m1. bget (ag_artifacts r1) key = Some m1 \<and> same_artifact m m1" if "\<not> reflushes op key"
    by (rule artifact_step_keeps_artifact [OF cons(1,4,5) that m])
  from cons.IH [OF ok1 held1] cons(6) obtain m' where "held r' key reason" "artifact_metadata_of r' key = Some m'"
    and rest: "list_all (\<lambda>op. \<not> reflushes op key) ops \<Longrightarrow>
      \<exists>m1. artifact_metadata_of r1 key = Some m1 \<and> same_artifact m1 m'" by auto
  moreover have "same_artifact m m'" if "list_all (\<lambda>op. \<not> reflushes op key) (op # ops)"
    using rest keep that same_artifact_trans by (fastforce simp: artifact_metadata_of_def)
  ultimately show ?case using m by (auto simp: artifact_metadata_of_def)
qed

theorem held_artifact_survives_witness:
  "let r = example_artifacts; r' = garbage_collect_node r ''t'' ''p'' ''n1'' in
     ProcessRetention ''q'' \<in> fst ` set (holds_of r' (''t'', ''p'', ''app.tar''))
     \<and> (\<exists>m'. artifact_metadata_of r' (''t'', ''p'', ''app.tar'') = Some m'
          \<and> (\<exists>m. artifact_metadata_of r (''t'', ''p'', ''app.tar'') = Some m \<and> same_artifact m m'))"
proof -
  have step: "artifact_steps H example_artifacts [Collect_Node ''t'' ''p'' ''n1'']
      (garbage_collect_node example_artifacts ''t'' ''p'' ''n1'')" for H
    by (rule artifact_steps.cons [OF artifact_step.collect artifact_steps.nil])
  have "ProcessRetention ''q'' \<in> fst ` set (holds_of example_artifacts (''t'', ''p'', ''app.tar''))" by code_simp
  from held_artifact_survives [OF step example_artifacts_ok this] show ?thesis by (simp add: Let_def)
qed

text \<open>
  C27. The eviction loop over a project's metadata ends on every registry whose entries are filed under their
  own scope, however many it holds: it returns the number of entries it dropped, leaves at most 1024 entries
  or none that may be evicted, takes no hold away, and drops nothing that is pinned, held, linked, stored
  explicitly, or of a protected process or another project.
\<close>

theorem enforce_limit_terminates:
  assumes "keyed (\<lambda>m. (mt_tenant m, mt_project m, mt_id m)) (ag_artifacts r)"
  shows "case enforce_project_metadata_limit r t p pinned protected of
      None \<Rightarrow> False
    | Some (r', n) \<Rightarrow>
        length (ag_artifacts r') + n = length (ag_artifacts r) \<and> holds_of r' = holds_of r
        \<and> (length (project_metadata r' t p) \<le> max_artifact_metadata_per_project
           \<or> (\<forall>m \<in> set (project_metadata r' t p). \<not> evictable r' pinned protected m))
        \<and> (\<forall>k m. bget (ag_artifacts r) k = Some m \<longrightarrow>
             \<not> (in_artifact_project t p m \<and> evictable r pinned protected m) \<longrightarrow> bget (ag_artifacts r') k = Some m)"
  using enforce_loop_returns [OF assms, of t p pinned protected 0]
  unfolding enforce_project_metadata_limit_def enforced_def by force

theorem enforce_limit_terminates_witness:
  "case enforce_project_metadata_limit example_artifacts ''t'' ''p'' [] [] of
     None \<Rightarrow> False
   | Some (r', n) \<Rightarrow> length (ag_artifacts r') + n = 1"
proof -
  have "length (ag_artifacts example_artifacts) = 1" by code_simp
  with enforce_limit_terminates [OF artifacts_okD(1) [OF example_artifacts_ok], of "''t''" "''p''" "[]" "[]"]
  show ?thesis by (auto split: option.splits)
qed

lemma commit_flush_stores:
  "bget (ag_artifacts (fst (commit_flush r f ev))) (flush_key f) = Some (snd (commit_flush r f ev))"
  "snd (commit_flush r f ev) = flushed_metadata f (sat_add (ag_next_epoch r) 1)"
  "held (fst (commit_flush r f ev)) (flush_key f) (ProcessRetention (fl_process f))"
  by (auto simp: commit_flush_def Let_def bmap_simps holds_of_add_hold set_sinsert)

lemma commit_flush_changes:
  assumes "key \<noteq> flush_key f"
    and "bget (ag_artifacts (fst (commit_flush r f (Some e)))) key \<noteq> bget (ag_artifacts r) key"
  shows "bget (ag_artifacts (fst (commit_flush r f (Some e)))) key = None \<and> e = key"
proof -
  have e: "e = key" using commit_flush_other [of f key "Some e" r] assms by (metis option.inject)
  with assms(1) show ?thesis by (auto simp: commit_flush_def Let_def drop_artifact_def bmap_simps)
qed

text \<open>
  Flushing an artifact either stores exactly the flushed metadata with a process-retention hold, dropping
  at most one other entry, which is then the oldest evictable entry of a full project, or refuses and changes
  nothing; it refuses only when the project is full and nothing in it may be evicted.
\<close>

theorem flush_metadata_exact:
  assumes "artifacts_ok r"
  shows "case flush_metadata_with_protected_processes r f pinned protected of
      (r', Inl _) \<Rightarrow> r' = r \<and> length (project_metadata r (fl_tenant f) (fl_project f)) = max_artifact_metadata_per_project
        \<and> (\<forall>m \<in> set (project_metadata r (fl_tenant f) (fl_project f)).
             \<not> evictable r pinned (sinsert (fl_process f) protected) m)
    | (r', Inr m) \<Rightarrow>
        artifact_metadata_of r' (flush_key f) = Some m \<and> m = flushed_metadata f (sat_add (ag_next_epoch r) 1)
        \<and> ProcessRetention (fl_process f) \<in> fst ` set (holds_of r' (flush_key f))
        \<and> (\<forall>key. key \<noteq> flush_key f \<longrightarrow> artifact_metadata_of r' key \<noteq> artifact_metadata_of r key \<longrightarrow>
             artifact_metadata_of r' key = None
             \<and> project_metadata_eviction_candidate r (fl_tenant f) (fl_project f) pinned
                 (sinsert (fl_process f) protected) = Some key
             \<and> length (project_metadata r (fl_tenant f) (fl_project f)) = max_artifact_metadata_per_project)"
proof -
  let ?cand = "project_metadata_eviction_candidate r (fl_tenant f) (fl_project f) pinned (sinsert (fl_process f) protected)"
  let ?full = "length (project_metadata r (fl_tenant f) (fl_project f)) = max_artifact_metadata_per_project"
  show ?thesis
  proof (cases "bcontains (ag_artifacts r) (flush_key f)
      \<or> length (project_metadata r (fl_tenant f) (fl_project f)) < max_artifact_metadata_per_project")
    case True
    then have "flush_metadata_with_protected_processes r f pinned protected = map_prod id Inr (commit_flush r f None)"
      by (simp add: flush_metadata_with_protected_processes_def)
    with commit_flush_stores [where r = r and f = f and ev = None] commit_flush_other [of f _ None r] show ?thesis
      by (cases "commit_flush r f None") (simp add: artifact_metadata_of_def)
  next
    case False
    then have full: ?full using artifacts_okD(2) [OF assms] by (simp add: order_antisym)
    show ?thesis
    proof (cases ?cand)
      case None
      with False full no_candidate [THEN iffD1, OF None] show ?thesis
        by (simp add: flush_metadata_with_protected_processes_def)
    next
      case (Some e)
      then have "flush_metadata_with_protected_processes r f pinned protected = map_prod id Inr (commit_flush r f (Some e))"
        using False by (simp add: flush_metadata_with_protected_processes_def)
      with commit_flush_stores [where r = r and f = f and ev = "Some e"] commit_flush_changes [where r = r and f = f and e = e] Some full show ?thesis
        by (cases "commit_flush r f (Some e)")
          (simp add: artifact_metadata_of_def del: split_paired_All split_paired_all prod.inject)
    qed
  qed
qed

theorem flush_metadata_exact_witness:
  "case flush_metadata_with_protected_processes example_artifacts (example_flush\<lparr>fl_id := ''doc.tar''\<rparr>) [] [] of
     (_, Inl _) \<Rightarrow> False
   | (r', Inr m) \<Rightarrow> artifact_metadata_of r' (''t'', ''p'', ''doc.tar'') = Some m
       \<and> artifact_metadata_of r' (''t'', ''p'', ''app.tar'') \<noteq> None"
proof -
  let ?f = "example_flush\<lparr>fl_id := ''doc.tar''\<rparr>"
  have "length (project_metadata example_artifacts ''t'' ''p'') = 1"
    and "flush_key ?f = (''t'', ''p'', ''doc.tar'')"
    and "artifact_metadata_of example_artifacts (''t'', ''p'', ''app.tar'') \<noteq> None"
    by code_simp+
  with flush_metadata_exact [OF example_artifacts_ok, of ?f "[]" "[]"] show ?thesis
    by (auto simp: max_artifact_metadata_per_project_def split: prod.splits sum.splits)
qed

text \<open>
  A live download link of an artifact that no node retains any more cannot be revoked: the operation
  answers \<open>Unavailable\<close> and leaves the link unrevoked and its hold in place.
\<close>

theorem revoke_unavailable_artifact:
  assumes "bget (ag_links r) d = Some i" and "dl_tenant (il_link i) = ac_tenant ctx"
    and "dl_project (il_link i) = ac_project ctx" and "dl_artifact (il_link i) = a"
    and "dl_actor (il_link i) = ac_actor ctx"
    and "artifact_metadata_of r (ac_tenant ctx, ac_project ctx, a) = Some m"
    and "mt_tenant m = ac_tenant ctx" and "mt_project m = ac_project ctx"
    and "mt_size m \<le> dl_max_bytes (il_link i)"
    and "mt_retaining_nodes m = []" and "mt_explicit_locations m = []"
  shows "revoke_download_link r ctx a d = (r, Inl Unavailable)"
  using assms
  by (simp add: revoke_download_link_def download_action_for_def artifact_metadata_of_def
      same_tenant_project_def authorization_allow_def Let_def not_less)

end
