(* ===== verification/CF_Nodes.thy ===== *)
theory CF_Nodes
  imports CF_Scheduler CF_Artifacts
begin

text \<open>
  The node registry (\<open>clusterflux-coordinator/src/service/node_registry.rs\<close> and
  \<open>clusterflux-core/src/node_lifecycle.rs\<close>) and the node handlers of \<open>service/nodes.rs\<close> that
  need no other registry: attaching, enrollment grants, heartbeats, signed-request
  authentication, the descriptor listing and the revocation of a node as far as it concerns this state; the
  handler that revokes a node in every registry is in \<open>CF_Interchange\<close>. The handlers that drain and release a
  node and record its capability reports are not modelled, only the lifecycle the registry keeps for them.
\<close>

section \<open>Lifecycle\<close>

datatype node_lifecycle_state = LActive | LDraining | LReadyToRelease | LReleased

datatype node_drain_blocker_kind =
    RunningTask | QueuedTask | ActiveTransferBlocker | SoleCopyArtifactHold | RestartCheckpointBlocker
  | DebugEpochBlocker | DownloadExportBlocker

record node_drain_blocker =
  db_kind :: node_drain_blocker_kind
  db_summary :: string
  db_process :: "process_id option"
  db_task :: "task_instance_id option"
  db_artifact :: "artifact_id option"
  db_transfer_id :: "string option"
  db_retained_bytes :: u64

record node_drain_status =
  ds_node :: node_id
  ds_state :: node_lifecycle_state
  ds_ephemeral :: bool
  ds_provider_deadline :: "u64 option"
  ds_provider_deadline_reached :: bool
  ds_soft_deadline :: "u64 option"
  ds_hard_deadline :: "u64 option"
  ds_soft_deadline_reached :: bool
  ds_hard_deadline_reached :: bool
  ds_release_reason :: "string option"
  ds_running_task_count :: nat
  ds_queued_task_count :: nat
  ds_active_transfer_count :: nat
  ds_retained_bytes :: u64
  ds_blockers :: "node_drain_blocker list"

definition drain_status_active :: "node_id \<Rightarrow> node_drain_status" where
  "drain_status_active node =
     \<lparr>ds_node = node, ds_state = LActive, ds_ephemeral = False, ds_provider_deadline = None,
      ds_provider_deadline_reached = False, ds_soft_deadline = None, ds_hard_deadline = None,
      ds_soft_deadline_reached = False, ds_hard_deadline_reached = False, ds_release_reason = None,
      ds_running_task_count = 0, ds_queued_task_count = 0, ds_active_transfer_count = 0,
      ds_retained_bytes = 0, ds_blockers = []\<rparr>"

definition ready_to_release :: "node_drain_status \<Rightarrow> bool" where
  "ready_to_release s \<longleftrightarrow> ds_state s = LReadyToRelease \<and> ds_blockers s = []"

section \<open>The registry\<close>

datatype source_snapshot_admission_error = MissingDescriptor | SnapshotCapacity

datatype endpoint_advertisement_error = BoundToAnotherScope | IdentityChanged | StaleGeneration

type_synonym socket_addr = string

record iroh_endpoint_advertisement =
  ie_tenant :: tenant_id
  ie_project :: project_id
  ie_node :: node_id
  ie_endpoint_id :: string
  ie_generation :: u64
  ie_relay_configuration_generation :: u64
  ie_direct_addresses :: "socket_addr list"
  ie_relay_urls :: "string list"
  ie_expires_at :: u64

type_synonym enrollment_grant_key = "tenant_id \<times> project_id \<times> string"

record node_registry =
  nr_descriptors :: "(node_scope_key, node_descriptor) bmap"
  nr_drain_statuses :: "(node_scope_key, node_drain_status) bmap"
  nr_last_seen :: "(node_scope_key, u64) bmap"
  nr_enrollment_grants :: "(enrollment_grant_key, enrollment_grant) bmap"
  nr_advertisements :: "(node_scope_key, iroh_endpoint_advertisement) bmap"
  nr_bindings :: "(string, node_scope_key) bmap"

definition node_registry_default :: node_registry where
  "node_registry_default =
     \<lparr>nr_descriptors = [], nr_drain_statuses = [], nr_last_seen = [], nr_enrollment_grants = [],
      nr_advertisements = [], nr_bindings = []\<rparr>"

definition is_live :: "node_registry \<Rightarrow> node_scope_key \<Rightarrow> u64 \<Rightarrow> u64 \<Rightarrow> bool" where
  "is_live r scope now stale_after =
     (case bget (nr_last_seen r) scope of
        None \<Rightarrow> False | Some last_seen \<Rightarrow> sat_sub now last_seen \<le> stale_after)"

definition live_count :: "node_registry \<Rightarrow> u64 \<Rightarrow> u64 \<Rightarrow> nat" where
  "live_count r now stale_after =
     length (filter (\<lambda>scope. is_live r scope now stale_after) (bkeys (nr_descriptors r)))"

definition record_descriptor :: "node_registry \<Rightarrow> node_scope_key \<Rightarrow> node_descriptor \<Rightarrow> node_registry" where
  "record_descriptor r scope d = r\<lparr>nr_descriptors := binsert scope d (nr_descriptors r)\<rparr>"

definition descriptor_count_for_project :: "node_registry \<Rightarrow> tenant_id \<Rightarrow> project_id \<Rightarrow> nat" where
  "descriptor_count_for_project r tenant project =
     length (filter (\<lambda>d. nd_tenant d = tenant \<and> nd_project d = project) (bvalues (nr_descriptors r)))"

definition record_source_snapshot ::
  "node_registry \<Rightarrow> node_scope_key \<Rightarrow> digest \<Rightarrow> nat \<Rightarrow> source_snapshot_admission_error + node_registry" where
  "record_source_snapshot r scope snapshot capacity =
     (case bget (nr_descriptors r) scope of
        None \<Rightarrow> Inl MissingDescriptor
      | Some d \<Rightarrow>
          if snapshot \<notin> set (nd_source_snapshots d) \<and> length (nd_source_snapshots d) \<ge> capacity
          then Inl SnapshotCapacity
          else Inr (r\<lparr>nr_descriptors := binsert scope
                 (d\<lparr>nd_source_snapshots := sinsert snapshot (nd_source_snapshots d)\<rparr>) (nr_descriptors r)\<rparr>))"

definition mark_seen :: "node_registry \<Rightarrow> node_scope_key \<Rightarrow> u64 \<Rightarrow> node_registry" where
  "mark_seen r scope seen_at =
     (let r = (case bget (nr_drain_statuses r) scope of
            Some status \<Rightarrow>
              if ds_state status = LReleased \<and> \<not> ds_ephemeral status
              then r\<lparr>nr_drain_statuses := bremove scope (nr_drain_statuses r)\<rparr> else r
          | None \<Rightarrow> r)
      in r\<lparr>nr_last_seen := binsert scope seen_at (nr_last_seen r),
           nr_descriptors := bupdate scope (\<lambda>d. d\<lparr>nd_online := True\<rparr>) (nr_descriptors r)\<rparr>)"

definition last_seen :: "node_registry \<Rightarrow> node_scope_key \<Rightarrow> u64 option" where
  "last_seen r scope = bget (nr_last_seen r) scope"

definition accepts_new_work :: "node_registry \<Rightarrow> node_scope_key \<Rightarrow> bool" where
  "accepts_new_work r scope =
     (case bget (nr_drain_statuses r) scope of None \<Rightarrow> True | Some status \<Rightarrow> ds_state status = LActive)"

definition descriptor_scope :: "node_descriptor \<Rightarrow> node_scope_key" where
  "descriptor_scope d = (nd_tenant d, nd_project d, nd_id d)"

definition live_descriptors :: "node_registry \<Rightarrow> u64 \<Rightarrow> u64 \<Rightarrow> node_descriptor list" where
  "live_descriptors r now stale_after =
     map (\<lambda>d. let scope = descriptor_scope d
              in d\<lparr>nd_online := is_live r scope now stale_after
                     \<and> (case bget (nr_drain_statuses r) scope of
                          None \<Rightarrow> True | Some status \<Rightarrow> ds_state status = LActive)\<rparr>)
       (bvalues (nr_descriptors r))"

definition drain_status_or_active :: "node_registry \<Rightarrow> node_scope_key \<Rightarrow> node_drain_status" where
  "drain_status_or_active r scope =
     (case bget (nr_drain_statuses r) scope of
        None \<Rightarrow> drain_status_active (snd (snd scope)) | Some status \<Rightarrow> status)"

definition drained_status ::
  "node_drain_status \<Rightarrow> bool \<Rightarrow> u64 option \<Rightarrow> u64 option \<Rightarrow> u64 option \<Rightarrow> node_drain_status" where
  "drained_status status ephemeral provider_deadline soft_deadline hard_deadline =
     (let status = status\<lparr>ds_ephemeral := ds_ephemeral status \<or> ephemeral\<rparr>;
          status = (case (case hard_deadline of None \<Rightarrow> provider_deadline | Some d \<Rightarrow> Some d) of
              None \<Rightarrow> status
            | Some deadline \<Rightarrow>
                status\<lparr>ds_provider_deadline := Some deadline, ds_hard_deadline := Some deadline\<rparr>);
          status = (if soft_deadline \<noteq> None then status\<lparr>ds_soft_deadline := soft_deadline\<rparr> else status)
      in status\<lparr>ds_state := (case ds_state status of
                LActive \<Rightarrow> LDraining | LDraining \<Rightarrow> LDraining
              | LReadyToRelease \<Rightarrow> LReadyToRelease | LReleased \<Rightarrow> LReleased)\<rparr>)"

definition begin_drain ::
  "node_registry \<Rightarrow> node_scope_key \<Rightarrow> bool \<Rightarrow> u64 option \<Rightarrow> u64 option \<Rightarrow> u64 option \<Rightarrow> node_registry" where
  "begin_drain r scope ephemeral provider_deadline soft_deadline hard_deadline =
     r\<lparr>nr_drain_statuses := binsert scope
         (drained_status (drain_status_or_active r scope) ephemeral provider_deadline soft_deadline hard_deadline)
         (nr_drain_statuses r)\<rparr>"

definition record_drain_status ::
  "node_registry \<Rightarrow> node_scope_key \<Rightarrow> node_drain_status \<Rightarrow> node_registry" where
  "record_drain_status r scope status = r\<lparr>nr_drain_statuses := binsert scope status (nr_drain_statuses r)\<rparr>"

definition drain_scopes :: "node_registry \<Rightarrow> node_scope_key list" where
  "drain_scopes r = bkeys (nr_drain_statuses r)"

definition remove_endpoint :: "node_registry \<Rightarrow> node_scope_key \<Rightarrow> node_registry" where
  "remove_endpoint r scope =
     (case bget (nr_advertisements r) scope of
        None \<Rightarrow> r
      | Some a \<Rightarrow> r\<lparr>nr_advertisements := bremove scope (nr_advertisements r),
                    nr_bindings := bremove (ie_endpoint_id a) (nr_bindings r)\<rparr>)"

definition mark_released :: "node_registry \<Rightarrow> node_scope_key \<Rightarrow> node_registry" where
  "mark_released r scope =
     remove_endpoint (r\<lparr>nr_descriptors := bupdate scope
        (\<lambda>d. d\<lparr>nd_artifact_locations := [], nd_online := False\<rparr>) (nr_descriptors r)\<rparr>) scope"

definition remove_node :: "node_registry \<Rightarrow> node_scope_key \<Rightarrow> node_registry \<times> bool" where
  "remove_node r scope =
     (remove_endpoint (r\<lparr>nr_descriptors := bremove scope (nr_descriptors r),
         nr_drain_statuses := bremove scope (nr_drain_statuses r),
         nr_last_seen := bremove scope (nr_last_seen r)\<rparr>) scope,
      bcontains (nr_descriptors r) scope)"

definition prune_enrollment_grants :: "node_registry \<Rightarrow> u64 \<Rightarrow> node_registry" where
  "prune_enrollment_grants r now =
     r\<lparr>nr_enrollment_grants :=
         bretain (\<lambda>_ g. \<not> eg_consumed g \<and> eg_expires_at g \<ge> now) (nr_enrollment_grants r)\<rparr>"

definition enrollment_grant_count :: "node_registry \<Rightarrow> tenant_id \<Rightarrow> project_id \<Rightarrow> nat" where
  "enrollment_grant_count r tenant project =
     length (filter (\<lambda>g. eg_tenant g = tenant \<and> eg_project g = project) (bvalues (nr_enrollment_grants r)))"

definition insert_enrollment_grant ::
  "node_registry \<Rightarrow> enrollment_grant_key \<Rightarrow> enrollment_grant \<Rightarrow> node_registry" where
  "insert_enrollment_grant r key g = r\<lparr>nr_enrollment_grants := binsert key g (nr_enrollment_grants r)\<rparr>"

text \<open>
  \<open>exchange\<close> is the closure: it returns the grant as it leaves it, its own state, and its result.
  The grant in the map is the one it wrote; it is removed when the exchange succeeds.
\<close>

definition exchange_enrollment_grant ::
  "node_registry \<Rightarrow> enrollment_grant_key \<Rightarrow> (enrollment_grant \<Rightarrow> enrollment_grant \<times> 's \<times> ('e + 't)) \<Rightarrow> 's
     \<Rightarrow> node_registry \<times> 's \<times> ('e + 't option)" where
  "exchange_enrollment_grant r key exchange s =
     (case bget (nr_enrollment_grants r) key of
        None \<Rightarrow> (r, s, Inr None)
      | Some g \<Rightarrow>
        (case exchange g of
           (g', s', Inl e) \<Rightarrow> (r\<lparr>nr_enrollment_grants := binsert key g' (nr_enrollment_grants r)\<rparr>, s', Inl e)
         | (g', s', Inr x) \<Rightarrow> (r\<lparr>nr_enrollment_grants := bremove key (nr_enrollment_grants r)\<rparr>, s', Inr (Some x))))"

definition endpoint_scope :: "node_registry \<Rightarrow> string \<Rightarrow> node_scope_key option" where
  "endpoint_scope r endpoint_id = bget (nr_bindings r) endpoint_id"

definition advertisement :: "node_registry \<Rightarrow> node_scope_key \<Rightarrow> iroh_endpoint_advertisement option" where
  "advertisement r scope = bget (nr_advertisements r) scope"

definition has_active_advertisement :: "node_registry \<Rightarrow> node_scope_key \<Rightarrow> u64 \<Rightarrow> bool" where
  "has_active_advertisement r scope now =
     (case advertisement r scope of None \<Rightarrow> False | Some a \<Rightarrow> ie_expires_at a > now)"

definition register_advertisement ::
  "node_registry \<Rightarrow> node_scope_key \<Rightarrow> iroh_endpoint_advertisement
     \<Rightarrow> endpoint_advertisement_error + node_registry" where
  "register_advertisement r scope a =
     (if (case bget (nr_bindings r) (ie_endpoint_id a) of None \<Rightarrow> False | Some bound \<Rightarrow> bound \<noteq> scope)
      then Inl BoundToAnotherScope
      else
        let accept = Inr (r\<lparr>nr_bindings := binsert (ie_endpoint_id a) scope (nr_bindings r),
                            nr_advertisements := binsert scope a (nr_advertisements r)\<rparr>)
        in (case bget (nr_advertisements r) scope of
              None \<Rightarrow> accept
            | Some current \<Rightarrow>
                if ie_endpoint_id current \<noteq> ie_endpoint_id a then Inl IdentityChanged
                else if ie_generation a < ie_generation current then Inl StaleGeneration
                else accept))"

definition clear_advertisements :: "node_registry \<Rightarrow> node_registry" where
  "clear_advertisements r = r\<lparr>nr_advertisements := [], nr_bindings := []\<rparr>"

definition expire_advertisements :: "node_registry \<Rightarrow> u64 \<Rightarrow> u64 \<Rightarrow> node_registry" where
  "expire_advertisements r now stale_after =
     (let expired = map fst (filter (\<lambda>(scope, a). ie_expires_at a \<le> now \<or> \<not> is_live r scope now stale_after)
            (nr_advertisements r))
      in fold (\<lambda>scope r. remove_endpoint r scope) expired r)"

section \<open>The node part of the service\<close>

text \<open>
  The fields of \<open>CoordinatorService\<close> that the node handlers use. Writing the durable state
  back to its store (\<open>persist_durable_state\<close>) is outside the model; the clock readings and the
  random token are arguments, the latter with the error its generator may return.
\<close>

record node_service =
  ns_coordinator :: coordinator
  ns_quota :: coordinator_quota
  ns_nodes :: node_registry
  ns_replay :: replay_registry
  ns_stale_after :: u64
  ns_max_enrollment_ttl :: u64

text \<open>
  The errors of the service that its modelled handlers return: the three quota variants are the
  constructors of \<open>quota_error\<close>; the I/O, JSON and operator-panel variants have no handler here.
\<close>

datatype service_error =
    Protocol string
  | CoordinatorFailed coordinator_error
  | QuotaFailed quota_error
  | SchedulerFailed string
  | Download download_error
  | Resource limit_error
  | CapabilityReport capability_report_error
  | InvalidArtifactPath string
  | InvalidTaskLogTail string
  | TerminalOperationConflict
  | StaleNodeAssignmentAcknowledgement
  | Durable string

definition node_signature_window_seconds :: u64 where
  "node_signature_window_seconds = 30"

definition max_node_replay_nonces_per_authority :: nat where
  "max_node_replay_nonces_per_authority = 4096"

definition max_enrollment_grants_per_project :: nat where
  "max_enrollment_grants_per_project = 64"

text \<open>\<open>u64::clamp\<close> asserts that its bounds are in order; \<open>None\<close> is that panic.\<close>

definition bounded_ttl :: "u64 \<Rightarrow> u64 \<Rightarrow> u64 option" where
  "bounded_ttl requested maximum =
     (if maximum < 1 then None
      else Some (if requested < 1 then 1 else if requested > maximum then maximum else requested))"

definition node_is_live :: "'a node_service_scheme \<Rightarrow> node_scope_key \<Rightarrow> u64 \<Rightarrow> bool" where
  "node_is_live s scope now = is_live (ns_nodes s) scope now (ns_stale_after s)"

definition live_node_descriptors :: "'a node_service_scheme \<Rightarrow> u64 \<Rightarrow> node_descriptor list" where
  "live_node_descriptors s now = live_descriptors (ns_nodes s) now (ns_stale_after s)"

definition set_node_stale_after_seconds ::
  "'a node_service_scheme \<Rightarrow> u64 \<Rightarrow> 'a node_service_scheme" where
  "set_node_stale_after_seconds s seconds = s\<lparr>ns_stale_after := max seconds 1\<rparr>"

datatype node_response =
    NodeAttached (nr_node: node_id) (nr_tenant: tenant_id) (nr_project: project_id)
  | NodeEnrollmentGrantCreated (nr_tenant: tenant_id) (nr_project: project_id) (nr_grant: string)
      (nr_scope: string) (nr_expires_at: u64)
  | NodeEnrollmentExchanged (nr_node: node_id) (nr_tenant: tenant_id) (nr_project: project_id)
      (nr_credential: node_credential)
  | NodeHeartbeat (nr_node: node_id) (nr_epoch: u64)
  | NodeDescriptors (nr_found: "node_descriptor list") (nr_actor: user_id)

definition register_local_scope ::
  "sha256_fn \<Rightarrow> coordinator \<Rightarrow> tenant_id \<Rightarrow> project_id \<Rightarrow> user_id \<Rightarrow> coordinator" where
  "register_local_scope sha256_hex c tenant project user =
     (let c = upsert_tenant c tenant;
          c = upsert_user c tenant user CliDeviceSession;
          c = upsert_project c tenant project ''local''
      in upsert_source_provider_config c tenant project Filesystem
           (digest_sha256 sha256_hex ''local-filesystem''))"

definition admit_node ::
  "'a node_service_scheme \<Rightarrow> node_scope_key \<Rightarrow> service_error + unit" where
  "admit_node s scope =
     (let c = ns_coordinator s
      in if node_identity c scope = None
         then (case ensure_node_admission (ns_quota s) (node_identity_count_for_tenant c (fst scope))
                 (map_option qo_values (tenant_quota_override c (fst scope))) of
               Inl e \<Rightarrow> Inl (QuotaFailed e) | Inr _ \<Rightarrow> Inr ())
         else Inr ())"

definition handle_attach_node ::
  "sha256_fn \<Rightarrow> 'a node_service_scheme \<Rightarrow> tenant_id \<Rightarrow> project_id \<Rightarrow> node_id \<Rightarrow> string
     \<Rightarrow> 'a node_service_scheme \<times> (service_error + node_response)" where
  "handle_attach_node sha256_hex s tenant project node public_key =
     (case ensure_tenant_active (ns_coordinator s) tenant of
        Inl e \<Rightarrow> (s, Inl (CoordinatorFailed e))
      | Inr _ \<Rightarrow>
        let s = s\<lparr>ns_coordinator :=
                  register_local_scope sha256_hex (ns_coordinator s) tenant project ''local-user''\<rparr>
        in (case admit_node s (tenant, project, node) of
              Inl e \<Rightarrow> (s, Inl e)
            | Inr _ \<Rightarrow>
                (s\<lparr>ns_coordinator :=
                    enroll_node (ns_coordinator s) tenant project node public_key ''node:attach''\<rparr>,
                 Inr (NodeAttached node tenant project))))"

definition handle_create_node_enrollment_grant ::
  "sha256_fn \<Rightarrow> 'a node_service_scheme \<Rightarrow> tenant_id \<Rightarrow> project_id \<Rightarrow> user_id \<Rightarrow> u64 \<Rightarrow> u64 \<Rightarrow> string + string
     \<Rightarrow> ('a node_service_scheme \<times> (service_error + node_response)) option" where
  "handle_create_node_enrollment_grant sha256_hex s tenant project actor ttl_seconds now token =
     (case ensure_tenant_active (ns_coordinator s) tenant of
        Inl e \<Rightarrow> Some (s, Inl (CoordinatorFailed e))
      | Inr _ \<Rightarrow>
        let s = s\<lparr>ns_coordinator := register_local_scope sha256_hex (ns_coordinator s) tenant project actor,
                  ns_nodes := prune_enrollment_grants (ns_nodes s) now\<rparr>
        in if enrollment_grant_count (ns_nodes s) tenant project \<ge> max_enrollment_grants_per_project
           then Some (s, Inl (Protocol ''node enrollment grant limit reached for this project; consume a grant or wait for one to expire''))
           else (case token of
               Inl e \<Rightarrow> Some (s, Inl (Protocol e))
             | Inr grant \<Rightarrow>
               (case bounded_ttl ttl_seconds (ns_max_enrollment_ttl s) of
                  None \<Rightarrow> None
                | Some ttl \<Rightarrow>
                  let expires_at = sat_add now ttl;
                      enrollment = create_node_enrollment_grant tenant project grant ''node:attach'' expires_at
                  in Some (s\<lparr>ns_nodes := insert_enrollment_grant (ns_nodes s) (tenant, project, grant) enrollment\<rparr>,
                       Inr (NodeEnrollmentGrantCreated tenant project grant ''node:attach'' expires_at)))))"

definition handle_exchange_node_enrollment_grant ::
  "sha256_fn \<Rightarrow> 'a node_service_scheme \<Rightarrow> tenant_id \<Rightarrow> project_id \<Rightarrow> node_id \<Rightarrow> string \<Rightarrow> string \<Rightarrow> u64
     \<Rightarrow> 'a node_service_scheme \<times> (service_error + node_response)" where
  "handle_exchange_node_enrollment_grant sha256_hex s tenant project node public_key grant now =
     (let s = s\<lparr>ns_nodes := prune_enrollment_grants (ns_nodes s) now\<rparr>
      in case ensure_tenant_active (ns_coordinator s) tenant of
           Inl e \<Rightarrow> (s, Inl (CoordinatorFailed e))
         | Inr _ \<Rightarrow>
           (case admit_node s (tenant, project, node) of
              Inl e \<Rightarrow> (s, Inl e)
            | Inr _ \<Rightarrow>
              let (r, c, res) = exchange_enrollment_grant (ns_nodes s) (tenant, project, grant)
                    (\<lambda>g. exchange_node_enrollment_grant sha256_hex (ns_coordinator s) g node public_key
                           ''node:attach'' now) (ns_coordinator s);
                  s = s\<lparr>ns_nodes := r, ns_coordinator := c\<rparr>
              in (case res of
                    Inl e \<Rightarrow> (s, Inl (CoordinatorFailed e))
                  | Inr None \<Rightarrow> (s, Inl (CoordinatorFailed (Enrollment Expired)))
                  | Inr (Some credential) \<Rightarrow>
                      (s, Inr (NodeEnrollmentExchanged node tenant project credential)))))"

definition handle_list_node_descriptors ::
  "'a node_service_scheme \<Rightarrow> tenant_id \<Rightarrow> project_id \<Rightarrow> user_id \<Rightarrow> u64 \<Rightarrow> node_response" where
  "handle_list_node_descriptors s tenant project actor now =
     NodeDescriptors (filter (\<lambda>d. nd_tenant d = tenant \<and> nd_project d = project) (live_node_descriptors s now)) actor"

text \<open>The code reads the clock once to check the signature and once more for the liveness mark.\<close>

definition authenticate_node_request ::
  "ed25519_lib \<Rightarrow> 'a node_service_scheme \<Rightarrow> node_scope_key \<Rightarrow> node_signed_request option \<Rightarrow> string \<Rightarrow> digest
     \<Rightarrow> u64 \<Rightarrow> u64 \<Rightarrow> 'a node_service_scheme \<times> (service_error + unit)" where
  "authenticate_node_request ed s scope node_signature request_kind payload_digest now seen_at =
     (let unauthorized = (\<lambda>m. Inl (CoordinatorFailed (Unauthorized m)))
      in case node_identity (ns_coordinator s) scope of
        None \<Rightarrow> (s, Inl (CoordinatorFailed UnknownNode))
      | Some identity \<Rightarrow>
        (case node_signature of
           None \<Rightarrow> (s, unauthorized ''node request requires a signed proof of enrolled private-key possession'')
         | Some signature \<Rightarrow>
           if str_is_blank (nsr_nonce signature) \<or> length (nsr_nonce signature) > 256
           then (s, unauthorized ''node signed request nonce is missing or invalid'')
           else if abs_diff (nsr_issued_at signature) now > node_signature_window_seconds
           then (s, unauthorized ''node signed request is expired or outside the allowed clock skew'')
           else
             (case prepare_node (ns_replay s) scope (nsr_nonce signature) now node_signature_window_seconds of
                (r, Inl Duplicate) \<Rightarrow>
                  (s\<lparr>ns_replay := r\<rparr>, unauthorized ''node signed request nonce has already been used'')
              | (r, _) \<Rightarrow>
                let s = s\<lparr>ns_replay := r\<rparr>
                in (case verify_node_request_signature ed (ni_public_key identity) (snd (snd scope))
                          request_kind payload_digest signature of
                      Inl e \<Rightarrow> (s, unauthorized e)
                    | Inr _ \<Rightarrow>
                      (case commit_node (ns_replay s) scope (nsr_nonce signature) now
                              max_node_replay_nonces_per_authority of
                         (r, Inl Capacity) \<Rightarrow>
                           (s\<lparr>ns_replay := r\<rparr>, unauthorized ''node signed request replay window is full; retry after the bounded signature window advances'')
                       | (r, _) \<Rightarrow>
                           (s\<lparr>ns_replay := r, ns_nodes := mark_seen (ns_nodes s) scope seen_at,
                              ns_coordinator := mark_node_identity_seen (ns_coordinator s) scope seen_at\<rparr>,
                            Inr ()))))))"

definition handle_node_heartbeat ::
  "ed25519_lib \<Rightarrow> 'a node_service_scheme \<Rightarrow> node_scope_key \<Rightarrow> node_signed_request option \<Rightarrow> digest
     \<Rightarrow> u64 \<Rightarrow> u64 \<Rightarrow> 'a node_service_scheme \<times> (service_error + node_response)" where
  "handle_node_heartbeat ed s scope node_signature payload_digest now seen_at =
     (case authenticate_node_request ed s scope node_signature ''node_heartbeat'' payload_digest now seen_at of
        (s, Inl e) \<Rightarrow> (s, Inl e)
      | (s, Inr _) \<Rightarrow> (s, Inr (NodeHeartbeat (snd (snd scope)) (co_epoch (ns_coordinator s)))))"

text \<open>
  The part of \<open>handle_revoke_node_credential\<close> over this state: the credential, the descriptor with its endpoint,
  and the nonces of the node. The handler as a whole is in \<open>CF_Interchange\<close>.
\<close>

definition revoke_node :: "'a node_service_scheme \<Rightarrow> auth_context \<Rightarrow> node_id \<Rightarrow> coordinator_error + ('a node_service_scheme \<times> bool)" where
  "revoke_node s context node =
     (case revoke_node_credential (ns_coordinator s) context node of
        Inl e \<Rightarrow> Inl e
      | Inr (c, _) \<Rightarrow>
        let scope = (ac_tenant context, ac_project context, node); (nodes, removed) = remove_node (ns_nodes s) scope
        in Inr (s\<lparr>ns_coordinator := c, ns_nodes := nodes, ns_replay := replay_clear_node (ns_replay s) scope\<rparr>, removed))"

section \<open>Endpoints are bound to one scope\<close>

inductive registry_step :: "node_registry \<Rightarrow> node_registry \<Rightarrow> bool" where
  Describe: "registry_step r (record_descriptor r (descriptor_scope d) d)"
| Snapshot: "record_source_snapshot r s d cap = Inr r' \<Longrightarrow> registry_step r r'"
| Mark_Seen: "registry_step r (mark_seen r s at)"
| Begin_Drain: "registry_step r (begin_drain r s e p so h)"
| Record_Drain: "registry_step r (record_drain_status r s st)"
| Mark_Released: "registry_step r (mark_released r s)"
| Remove_Node: "registry_step r (fst (remove_node r s))"
| Prune_Grants: "registry_step r (prune_enrollment_grants r now)"
| Insert_Grant: "registry_step r (insert_enrollment_grant r k g)"
| Exchange_Grant: "registry_step r (fst (exchange_enrollment_grant r k
     (f :: enrollment_grant \<Rightarrow> enrollment_grant \<times> coordinator \<times> (coordinator_error + node_credential)) x))"
| Advertise: "register_advertisement r s a = Inr r' \<Longrightarrow> registry_step r r'"
| Clear_Advertisements: "registry_step r (clear_advertisements r)"
| Expire_Advertisements: "registry_step r (expire_advertisements r now stale)"

definition endpoints_ok :: "node_registry \<Rightarrow> bool" where
  "endpoints_ok r \<longleftrightarrow>
     (\<forall>s a. bget (nr_advertisements r) s = Some a \<longrightarrow> bget (nr_bindings r) (ie_endpoint_id a) = Some s)
     \<and> (\<forall>e s. bget (nr_bindings r) e = Some s \<longrightarrow>
          (\<exists>a. bget (nr_advertisements r) s = Some a \<and> ie_endpoint_id a = e))"

definition registry_ok :: "node_registry \<Rightarrow> bool" where
  "registry_ok r \<longleftrightarrow> endpoints_ok r \<and> keyed descriptor_scope (nr_descriptors r)
     \<and> bwf (nr_drain_statuses r) \<and> bwf (nr_last_seen r) \<and> bwf (nr_enrollment_grants r)"

lemma endpoints_ok_frame [simp]:
  "endpoints_ok (r\<lparr>nr_descriptors := ds\<rparr>) = endpoints_ok r"
  "endpoints_ok (r\<lparr>nr_drain_statuses := st\<rparr>) = endpoints_ok r"
  "endpoints_ok (r\<lparr>nr_last_seen := ls\<rparr>) = endpoints_ok r"
  "endpoints_ok (r\<lparr>nr_enrollment_grants := gs\<rparr>) = endpoints_ok r"
  by (simp_all add: endpoints_ok_def)

lemma endpoints_ok_remove: "endpoints_ok r \<Longrightarrow> endpoints_ok (remove_endpoint r s)"
  unfolding endpoints_ok_def remove_endpoint_def
  by (auto simp: bget_bremove simp del: split_paired_All split: option.split) (metis option.inject)+

lemma remove_endpoint_frame [simp]:
  "nr_descriptors (remove_endpoint r s) = nr_descriptors r"
  "nr_drain_statuses (remove_endpoint r s) = nr_drain_statuses r"
  "nr_last_seen (remove_endpoint r s) = nr_last_seen r"
  "nr_enrollment_grants (remove_endpoint r s) = nr_enrollment_grants r"
  by (simp_all add: remove_endpoint_def split: option.split)

lemma registry_ok_remove: "registry_ok r \<Longrightarrow> registry_ok (remove_endpoint r s)"
  by (simp add: registry_ok_def endpoints_ok_remove)

lemma registry_ok_remove_all: "registry_ok r \<Longrightarrow> registry_ok (fold (\<lambda>s r. remove_endpoint r s) ss r)"
  by (induction ss arbitrary: r) (simp_all add: registry_ok_remove)

lemma endpoints_ok_register:
  assumes "endpoints_ok r" and "register_advertisement r s a = Inr r'"
  shows "endpoints_ok r'"
proof -
  from assms(2) have r': "r' = r\<lparr>nr_bindings := binsert (ie_endpoint_id a) s (nr_bindings r),
        nr_advertisements := binsert s a (nr_advertisements r)\<rparr>"
    and free: "bget (nr_bindings r) (ie_endpoint_id a) = None \<or> bget (nr_bindings r) (ie_endpoint_id a) = Some s"
    and same: "bget (nr_advertisements r) s = Some b \<Longrightarrow> ie_endpoint_id b = ie_endpoint_id a" for b
    by (auto simp: register_advertisement_def Let_def split: option.splits if_splits)
  with assms(1) show ?thesis
    unfolding endpoints_ok_def
    by (auto simp: bget_binsert simp del: split_paired_All) (metis option.distinct(1) option.inject)+
qed

lemma registry_step_ok: "registry_step r r' \<Longrightarrow> registry_ok r \<Longrightarrow> registry_ok r'"
proof (induction rule: registry_step.induct)
  case (Advertise r s a r')
  then have "endpoints_ok r'" by (auto simp: registry_ok_def intro: endpoints_ok_register)
  moreover have "nr_descriptors r' = nr_descriptors r" "nr_drain_statuses r' = nr_drain_statuses r"
    "nr_last_seen r' = nr_last_seen r" "nr_enrollment_grants r' = nr_enrollment_grants r"
    using Advertise.hyps by (auto simp: register_advertisement_def Let_def split: option.splits if_splits)
  ultimately show ?case using Advertise.prems by (simp add: registry_ok_def)
next
  case (Mark_Released r s)
  have "keyed descriptor_scope (bupdate s (\<lambda>d. d\<lparr>nd_artifact_locations := [], nd_online := False\<rparr>) (nr_descriptors r))"
    using Mark_Released by (intro keyed_bupdate) (simp_all add: registry_ok_def descriptor_scope_def)
  with Mark_Released show ?case
    unfolding mark_released_def by (intro registry_ok_remove) (simp add: registry_ok_def)
next
  case (Remove_Node r s)
  then show ?case
    unfolding remove_node_def fst_conv by (intro registry_ok_remove) (simp add: registry_ok_def keyed_bremove)
next
  case (Expire_Advertisements r now stale)
  then show ?case by (simp add: expire_advertisements_def Let_def registry_ok_remove_all)
next
  case (Snapshot r s d cap r')
  then show ?case
    by (auto simp: record_source_snapshot_def registry_ok_def keyed_def bget_binsert
        descriptor_scope_def split: option.splits if_splits)
next
  case (Clear_Advertisements r)
  then show ?case by (simp add: clear_advertisements_def registry_ok_def endpoints_ok_def)
next
  case (Mark_Seen r s at)
  then show ?case
    by (simp add: registry_ok_def mark_seen_def Let_def descriptor_scope_def keyed_bupdate split: option.split)
next
  case (Exchange_Grant r k f x)
  then show ?case
    by (auto simp: registry_ok_def exchange_enrollment_grant_def split: option.split prod.split sum.split)
qed (simp_all add: registry_ok_def record_descriptor_def begin_drain_def
    record_drain_status_def prune_enrollment_grants_def insert_enrollment_grant_def keyed_binsert)

lemma registry_reachable_ok: "registry_step\<^sup>*\<^sup>* node_registry_default r \<Longrightarrow> registry_ok r"
proof (induction rule: rtranclp_induct)
  case base
  show ?case by (simp add: registry_ok_def endpoints_ok_def node_registry_default_def)
next
  case (step r r')
  then show ?case using registry_step_ok by blast
qed

text \<open>
  C23. In every reachable registry the endpoint bindings are exactly the inverse of the
  advertisements: an endpoint id resolves to a scope when and only when that scope advertises it,
  so no endpoint id ever belongs to two nodes, and a scope that tries to take over a bound id, to
  change its own id or to go back to an older generation is refused.
\<close>

theorem endpoint_bindings_exact:
  assumes "registry_step\<^sup>*\<^sup>* node_registry_default r"
  shows "(endpoint_scope r e = Some s \<longleftrightarrow> (\<exists>a. advertisement r s = Some a \<and> ie_endpoint_id a = e))
    \<and> (endpoint_scope r (ie_endpoint_id b) = Some s \<and> s' \<noteq> s
         \<longrightarrow> register_advertisement r s' b = Inl BoundToAnotherScope)
    \<and> (\<forall>r' a. advertisement r s = Some a \<and> register_advertisement r s b = Inr r'
         \<longrightarrow> ie_endpoint_id b = ie_endpoint_id a \<and> ie_generation a \<le> ie_generation b
           \<and> advertisement r' s = Some b)"
proof -
  from registry_reachable_ok [OF assms] have "endpoints_ok r" by (simp add: registry_ok_def)
  then have "endpoint_scope r e = Some s \<longleftrightarrow> (\<exists>a. advertisement r s = Some a \<and> ie_endpoint_id a = e)"
    unfolding endpoints_ok_def endpoint_scope_def advertisement_def by blast
  then show ?thesis
    by (auto simp: endpoint_scope_def advertisement_def register_advertisement_def Let_def bget_binsert
        split: option.splits if_splits)
qed

section \<open>Placement sees only live nodes that accept work\<close>

text \<open>
  C24. A request placed on the descriptors the service lists goes to a node of the request's own
  tenant and project that was seen within the staleness interval and is not draining, ready for
  release or released.
\<close>

theorem placement_on_live_node:
  assumes "place (live_node_descriptors s now) request = Inr p"
  shows "node_is_live s (pr_tenant request, pr_project request, pl_node p) now
    \<and> accepts_new_work (ns_nodes s) (pr_tenant request, pr_project request, pl_node p)"
proof -
  from default_scheduler.placed_from [OF assms [unfolded live_node_descriptors_def live_descriptors_def]]
  obtain d where d: "eligible (let scope = descriptor_scope d
      in d\<lparr>nd_online := is_live (ns_nodes s) scope now (ns_stale_after s)
          \<and> (case bget (nr_drain_statuses (ns_nodes s)) scope of
               None \<Rightarrow> True | Some status \<Rightarrow> ds_state status = LActive)\<rparr>) request"
    and node: "pl_node p = nd_id d" by (auto simp: Let_def)
  then have "descriptor_scope d = (pr_tenant request, pr_project request, pl_node p)"
    by (simp add: eligible_def Let_def descriptor_scope_def)
  with d show ?thesis
    by (simp add: eligible_def Let_def node_is_live_def accepts_new_work_def)
qed

section \<open>Replays of node requests\<close>

type_synonym node_call = "node_scope_key \<times> node_signed_request \<times> string \<times> digest \<times> u64"

definition node_accepts :: "ed25519_lib \<Rightarrow> node_call \<Rightarrow> u64 \<Rightarrow> node_service \<Rightarrow> node_service \<times> bool" where
  "node_accepts ed call now s =
     (case call of (scope, signature, kind, dg, seen_at) \<Rightarrow>
        let (s', res) = authenticate_node_request ed s scope (Some signature) kind dg now seen_at
        in (s', res = Inr ()))"

definition node_call_nonce :: "node_call \<Rightarrow> node_scope_key \<times> string" where
  "node_call_nonce call = (case call of (scope, signature, _) \<Rightarrow> (scope, nsr_nonce signature))"

definition node_call_issued :: "node_call \<Rightarrow> u64" where
  "node_call_issued call = (case call of (_, signature, _) \<Rightarrow> nsr_issued_at signature)"

interpretation node_window: pruning_handler "\<lambda>s. rr_node_nonces (ns_replay s)" "node_accepts ed" node_call_nonce
    "\<lambda>_ now. now" node_signature_window_seconds for ed
proof
  fix q :: node_call and now :: u64 and s :: node_service
  obtain scope sig kind dg seen where q: "q = (scope, sig, kind, dg, seen)" by (cases q)
  show "(\<not> snd (node_accepts ed q now s) \<and> rr_node_nonces (ns_replay (fst (node_accepts ed q now s))) = rr_node_nonces (ns_replay s))
     \<or> (\<not> snd (node_accepts ed q now s) \<and> rr_node_nonces (ns_replay (fst (node_accepts ed q now s)))
          = window_prune node_signature_window_seconds now (rr_node_nonces (ns_replay s)))
     \<or> (snd (node_accepts ed q now s)
        \<and> \<not> bcontains (window_prune node_signature_window_seconds now (rr_node_nonces (ns_replay s))) (node_call_nonce q)
        \<and> rr_node_nonces (ns_replay (fst (node_accepts ed q now s)))
            = binsert (node_call_nonce q) now (window_prune node_signature_window_seconds now (rr_node_nonces (ns_replay s))))"
    unfolding q node_accepts_def authenticate_node_request_def prepare_node_def commit_node_def
      window_prune_def node_call_nonce_def Let_def
    by (simp split: option.split sum.split if_split)
qed

text \<open>
  What may happen to a running service between two requests: another node request, the revocation of a node's
  credential, or any other operation, which may bring the service to whatever state but does not touch the
  nonces of node requests (only the other two do).
\<close>

datatype node_event =
    Serve node_call u64
  | Revoke auth_context node_id
  | Rest node_service

fun node_event_step :: "ed25519_lib \<Rightarrow> node_event \<Rightarrow> node_service \<Rightarrow> node_service" where
  "node_event_step ed (Serve q now) s = fst (node_accepts ed q now s)"
| "node_event_step ed (Revoke context node) s = (case revoke_node s context node of Inl _ \<Rightarrow> s | Inr (s', _) \<Rightarrow> s')"
| "node_event_step ed (Rest s') s = s'\<lparr>ns_replay := (ns_replay s')\<lparr>rr_node_nonces := rr_node_nonces (ns_replay s)\<rparr>\<rparr>"

definition node_history :: "ed25519_lib \<Rightarrow> node_event list \<Rightarrow> node_service \<Rightarrow> node_service" where
  "node_history ed es s = fold (node_event_step ed) es s"

fun event_times :: "node_event \<Rightarrow> u64 list" where
  "event_times (Serve _ now) = [now]"
| "event_times _ = []"

fun revokes :: "node_event \<Rightarrow> node_scope_key \<Rightarrow> bool" where
  "revokes (Revoke context node) scope = ((ac_tenant context, ac_project context, node) = scope)"
| "revokes _ _ = False"

lemma revoke_node_nonces:
  "revoke_node s context node = Inr (s', removed) \<Longrightarrow>
     rr_node_nonces (ns_replay s') =
       bretain (\<lambda>(scope, _) _. scope \<noteq> (ac_tenant context, ac_project context, node)) (rr_node_nonces (ns_replay s))"
  by (auto simp: revoke_node_def replay_clear_node_def Let_def split: sum.splits prod.splits)

lemma node_event_keeps:
  assumes wf: "bwf (rr_node_nonces (ns_replay s))" and nonce: "bget (rr_node_nonces (ns_replay s)) k = Some t"
    and live: "\<forall>at \<in> set (event_times e). at \<le> sat_add t node_signature_window_seconds" and other: "\<not> revokes e (fst k)"
  shows "bwf (rr_node_nonces (ns_replay (node_event_step ed e s)))
    \<and> bget (rr_node_nonces (ns_replay (node_event_step ed e s))) k = Some t"
proof (cases e)
  case (Serve q now)
  then show ?thesis
    using node_window.keeps_order [OF wf, of ed q now] node_window.live_kept [OF wf nonce, of now ed q] live by simp
next
  case (Revoke ctx node)
  show ?thesis
  proof (cases "revoke_node s ctx node")
    case (Inr result)
    then obtain s' removed where r: "revoke_node s ctx node = Inr (s', removed)" by (cases result) auto
    from revoke_node_nonces [OF r] show ?thesis using wf nonce other
      by (simp add: Revoke r bget_bretain case_prod_beta)
  qed (use wf nonce in \<open>simp add: Revoke\<close>)
next
  case (Rest s')
  then show ?thesis using wf nonce by simp
qed

lemma node_history_keeps:
  assumes "bwf (rr_node_nonces (ns_replay s))" and "bget (rr_node_nonces (ns_replay s)) k = Some t"
    and "\<forall>at \<in> set (concat (map event_times es)). at \<le> sat_add t node_signature_window_seconds"
    and "list_all (\<lambda>e. \<not> revokes e (fst k)) es"
  shows "bwf (rr_node_nonces (ns_replay (node_history ed es s)))
    \<and> bget (rr_node_nonces (ns_replay (node_history ed es s))) k = Some t"
  using assms
proof (induction es arbitrary: s)
  case (Cons e es)
  have "bwf (rr_node_nonces (ns_replay (node_event_step ed e s)))
    \<and> bget (rr_node_nonces (ns_replay (node_event_step ed e s))) k = Some t"
    using Cons.prems by (intro node_event_keeps) auto
  with Cons.IH [of "node_event_step ed e s"] Cons.prems(3,4) show ?case by (simp add: node_history_def)
qed (simp add: node_history_def)

lemma node_accepts_fresh:
  "snd (node_accepts ed q now s) \<Longrightarrow> now \<le> sat_add (node_call_issued q) node_signature_window_seconds"
  by (cases q)
    (auto simp: node_accepts_def authenticate_node_request_def node_call_issued_def Let_def not_less
      intro: abs_diff_le_window' split: option.splits if_splits)

text \<open>
  C21. A node request that was accepted no earlier than its own timestamp is not accepted again while the
  service runs, unless the credential of its node is revoked in between, which clears the node's nonces:
  whatever node requests, revocations of other nodes and other operations happen in between, a request of the
  same node with the same nonce and timestamp is refused at every later clock reading.
\<close>

theorem node_request_never_replayed:
  assumes "bwf (rr_node_nonces (ns_replay s))" and "snd (node_accepts ed q now s)"
    and "node_call_issued q \<le> now"
    and clock: "sorted (now # concat (map event_times between) @ [now'])"
    and "list_all (\<lambda>e. \<not> revokes e (fst (node_call_nonce q))) between"
    and "node_call_nonce q' = node_call_nonce q" and "node_call_issued q' = node_call_issued q"
  shows "\<not> snd (node_accepts ed q' now' (node_history ed between (fst (node_accepts ed q now s))))"
proof
  assume acc: "snd (node_accepts ed q' now' (node_history ed between (fst (node_accepts ed q now s))))"
  have le: "now' \<le> sat_add now node_signature_window_seconds"
    using node_accepts_fresh [OF acc] assms(3, 7)
      sat_add_mono [of "node_call_issued q" now node_signature_window_seconds node_signature_window_seconds]
    by simp
  have times: "\<forall>at \<in> set (concat (map event_times between)). at \<le> sat_add now node_signature_window_seconds"
    using clock by (auto simp: sorted_append intro: order_trans [OF _ le])
  have "bget (rr_node_nonces (ns_replay (fst (node_accepts ed q now s)))) (node_call_nonce q) = Some now"
    by (rule node_window.accepted_recorded [OF assms(1,2)])
  from node_history_keeps [OF node_window.keeps_order [OF assms(1)] this times assms(5), of ed]
    node_window.duplicate_refused [where q = q' and now = now' and t = now and ed = ed] le acc assms(6)
  show False by (metis (no_types, lifting))
qed

text \<open>When a node request is accepted, and what acceptance leaves behind.\<close>

lemma node_accepts_iff:
  "snd (node_accepts ed (scope, sig, kind, dg, seen) now s) \<longleftrightarrow>
     (\<exists>identity. node_identity (ns_coordinator s) scope = Some identity
        \<and> \<not> str_is_blank (nsr_nonce sig) \<and> length (nsr_nonce sig) \<le> 256
        \<and> abs_diff (nsr_issued_at sig) now \<le> node_signature_window_seconds
        \<and> \<not> bcontains (window_prune node_signature_window_seconds now (rr_node_nonces (ns_replay s))) (scope, nsr_nonce sig)
        \<and> verify_node_request_signature ed (ni_public_key identity) (snd (snd scope)) kind dg sig = Inr ()
        \<and> length (filter (\<lambda>(x, _). x = scope)
             (bkeys (window_prune node_signature_window_seconds now (rr_node_nonces (ns_replay s)))))
            < max_node_replay_nonces_per_authority)"
  unfolding node_accepts_def authenticate_node_request_def prepare_node_def commit_node_def window_prune_def Let_def
  by (simp add: not_less not_le split: option.split sum.split if_split)

lemma node_accepts_identity:
  assumes "node_identity (ns_coordinator s) scope = Some identity"
  shows "\<exists>identity'. node_identity (ns_coordinator (fst (node_accepts ed (scope, sig, kind, dg, seen) now s))) scope = Some identity'
    \<and> ni_public_key identity' = ni_public_key identity"
  using assms
  by (auto simp: node_accepts_def authenticate_node_request_def prepare_node_def commit_node_def Let_def
      node_identity_def mark_node_identity_seen_def bmap_simps split: option.split sum.split if_split)

lemma window_prune_forgets:
  assumes "bget m k = None" and "\<not> now \<le> sat_add t w"
  shows "window_prune w now (binsert k t m) = window_prune w now m"
  using assms by (induction m) (auto simp: window_prune_def bretain_def)

lemma window_prune_twice:
  assumes "now \<le> now'"
  shows "window_prune w now' (window_prune w now m) = window_prune w now' m"
  using assms by (auto simp: window_prune_def bretain_def intro!: filter_cong dest: order_trans)

lemma length_filter_prune: "length (filter P (bkeys (window_prune w now m))) \<le> length (filter P (bkeys m))"
  by (induction m) (auto simp: window_prune_def bretain_def)

text \<open>
  C22. A finding: the nonce of a node request is kept for the window of 30 seconds after its acceptance, but a
  request may be stamped up to a window in the future, and then it stays fresh longer than its nonce is kept.
  Every node request that is accepted is accepted again, byte for byte the same and with nothing else happening
  in between, at every clock reading more than a window after the first acceptance and still within a window of
  its timestamp. For a request accepted before its timestamp there is such a reading, the end of its own window
  (unless that lies beyond the range of \<open>u64\<close>).
  (Admin and agent requests keep the nonce from the request's own timestamp and are safe.)
\<close>

theorem node_request_replayed:
  assumes wf: "bwf (rr_node_nonces (ns_replay s))" and acc: "snd (node_accepts ed q now s)"
  shows "(\<forall>now'. sat_add now node_signature_window_seconds < now'
           \<and> abs_diff (node_call_issued q) now' \<le> node_signature_window_seconds \<longrightarrow>
         snd (node_accepts ed q now' (fst (node_accepts ed q now s))))
    \<and> (now < node_call_issued q \<and> unat (node_call_issued q) + 30 < 2 ^ 64 \<longrightarrow>
         snd (node_accepts ed q (node_call_issued q + 30) (fst (node_accepts ed q now s))))"
proof -
  obtain scope sig kind dg seen where q: "q = (scope, sig, kind, dg, seen)" by (cases q)
  let ?w = node_signature_window_seconds and ?m = "rr_node_nonces (ns_replay s)" and ?s = "fst (node_accepts ed q now s)"
  from acc obtain identity where identity: "node_identity (ns_coordinator s) scope = Some identity"
    and sig: "\<not> str_is_blank (nsr_nonce sig)" "length (nsr_nonce sig) \<le> 256"
    and new: "\<not> bcontains (window_prune ?w now ?m) (scope, nsr_nonce sig)"
    and verified: "verify_node_request_signature ed (ni_public_key identity) (snd (snd scope)) kind dg sig = Inr ()"
    and capacity: "length (filter (\<lambda>(x, _). x = scope) (bkeys (window_prune ?w now ?m))) < max_node_replay_nonces_per_authority"
    unfolding q node_accepts_iff by blast
  have after: "rr_node_nonces (ns_replay ?s) = binsert (scope, nsr_nonce sig) now (window_prune ?w now ?m)"
    using node_window.outcome [of ed q now s] acc by (simp add: q node_call_nonce_def)
  have again: "snd (node_accepts ed q now' ?s)"
    if late: "sat_add now ?w < now'" and fresh: "abs_diff (nsr_issued_at sig) now' \<le> ?w" for now'
  proof -
    have le: "now \<le> now'" using order_trans [OF sat_add_ge1 order.strict_implies_order [OF late]] .
    have m: "window_prune ?w now' (rr_node_nonces (ns_replay ?s)) = window_prune ?w now' ?m"
      using new late by (simp add: after window_prune_forgets window_prune_twice [OF le] bcontains_iff not_le)
    have sub: "window_prune ?w now' ?m = window_prune ?w now' (window_prune ?w now ?m)"
      by (simp add: window_prune_twice [OF le])
    have "\<not> bcontains (window_prune ?w now' ?m) (scope, nsr_nonce sig)"
      using new unfolding sub by (simp add: bcontains_iff bget_window_prune wf)
    moreover have "length (filter (\<lambda>(x, _). x = scope) (bkeys (window_prune ?w now' ?m))) < max_node_replay_nonces_per_authority"
      using capacity length_filter_prune [of "\<lambda>(x, _). x = scope" ?w now' "window_prune ?w now ?m"] unfolding sub by simp
    moreover obtain identity' where "node_identity (ns_coordinator ?s) scope = Some identity'"
      and "ni_public_key identity' = ni_public_key identity"
      using node_accepts_identity [OF identity] unfolding q by blast
    ultimately show ?thesis using sig verified fresh unfolding q node_accepts_iff m [unfolded q] by simp
  qed
  have "sat_add now ?w < nsr_issued_at sig + 30" "abs_diff (nsr_issued_at sig) (nsr_issued_at sig + 30) \<le> ?w"
    if ahead: "now < nsr_issued_at sig" and room: "unat (nsr_issued_at sig) + 30 < 2 ^ 64"
  proof -
    have "unat (nsr_issued_at sig + 30) = unat (nsr_issued_at sig) + 30" using room by (simp add: unat_word_ariths)
    then show "sat_add now ?w < nsr_issued_at sig + 30" "abs_diff (nsr_issued_at sig) (nsr_issued_at sig + 30) \<le> ?w"
      using ahead by (auto simp: node_signature_window_seconds_def word_less_nat_alt word_le_nat_alt unat_sat_add abs_diff_def)
  qed
  with again show ?thesis by (simp add: q node_call_issued_def)
qed

definition example_node_request :: node_signed_request where
  "example_node_request =
     (case sign_node_request_with_assignment example_ed25519 (''ed25519:'' @ replicate 32 (CHR ''k''))
        ''n'' ''poll'' ''d'' ''x'' 130 None None of
        Inr req \<Rightarrow> req
      | Inl _ \<Rightarrow> \<lparr>nsr_nonce = [], nsr_issued_at = 0, nsr_signature = [], nsr_assignment_authority = None,
                  nsr_operation_id = None\<rparr>)"

definition example_node_service :: node_service where
  "example_node_service =
     \<lparr>ns_coordinator = enroll_node (boot durable_state_default 1) ''t'' ''p'' ''n''
        (''ed25519:'' @ replicate 32 (CHR ''k'')) ''node:attach'',
      ns_quota = coordinator_quota_new quota_configuration_unlimited, ns_nodes = node_registry_default,
      ns_replay = replay_registry_default, ns_stale_after = 30, ns_max_enrollment_ttl = 900\<rparr>"

definition example_node_call :: node_call where
  "example_node_call = ((''t'', ''p'', ''n''), example_node_request, ''poll'', ''d'', 130)"

lemma example_node_service_wf: "bwf (rr_node_nonces (ns_replay example_node_service))"
  by (simp add: example_node_service_def replay_registry_default_def)

theorem node_request_replayed_witness:
  "node_call_issued example_node_call = 130
   \<and> snd (node_accepts example_ed25519 example_node_call 100 example_node_service)
   \<and> snd (node_accepts example_ed25519 example_node_call 160
        (fst (node_accepts example_ed25519 example_node_call 100 example_node_service)))"
proof -
  have acc: "snd (node_accepts example_ed25519 example_node_call 100 example_node_service)" by code_simp
  have issued: "node_call_issued example_node_call = 130" by code_simp
  from node_request_replayed [OF example_node_service_wf acc] show ?thesis by (simp add: acc issued)
qed

theorem node_request_never_replayed_witness:
  "snd (node_accepts example_ed25519 example_node_call 130 example_node_service)
   \<and> \<not> snd (node_accepts example_ed25519 example_node_call 160
        (node_history example_ed25519 [Revoke \<lparr>ac_tenant = ''t'', ac_project = ''p'', ac_actor = User ''u''\<rparr> ''m'']
           (fst (node_accepts example_ed25519 example_node_call 130 example_node_service))))"
proof -
  have acc: "snd (node_accepts example_ed25519 example_node_call 130 example_node_service)" by code_simp
  have "node_call_issued example_node_call \<le> 130" "fst (node_call_nonce example_node_call) = (''t'', ''p'', ''n'')" by code_simp+
  then show ?thesis
    using acc node_request_never_replayed [OF example_node_service_wf acc, of
        "[Revoke \<lparr>ac_tenant = ''t'', ac_project = ''p'', ac_actor = User ''u''\<rparr> ''m'']" 160 example_node_call] by simp
qed

theorem placement_on_live_node_witness:
  "let r = mark_seen (record_descriptor node_registry_default (''t'', ''p'', ''n3'') (example_node ''n3'' False))
             (''t'', ''p'', ''n3'') 90;
       s = example_node_service\<lparr>ns_nodes := r\<rparr>
   in case place (live_node_descriptors s 100) example_request of
        Inr p \<Rightarrow> pl_node p = ''n3''
          \<and> node_is_live s (pr_tenant example_request, pr_project example_request, pl_node p) 100
      | Inl _ \<Rightarrow> False"
proof -
  define s where "s = example_node_service\<lparr>ns_nodes := mark_seen (record_descriptor node_registry_default
      (''t'', ''p'', ''n3'') (example_node ''n3'' False)) (''t'', ''p'', ''n3'') 90\<rparr>"
  have "case place (live_node_descriptors s 100) example_request of Inr p \<Rightarrow> pl_node p = ''n3'' | Inl _ \<Rightarrow> False"
    unfolding s_def by code_simp
  then show ?thesis
    using placement_on_live_node [of s 100 example_request]
    unfolding Let_def s_def [symmetric] by (auto split: sum.splits)
qed

theorem endpoint_bindings_exact_witness:
  "let a = \<lparr>ie_tenant = ''t'', ie_project = ''p'', ie_node = ''n'', ie_endpoint_id = ''e'', ie_generation = 1,
            ie_relay_configuration_generation = 1, ie_direct_addresses = [], ie_relay_urls = [], ie_expires_at = 9\<rparr>
   in case register_advertisement node_registry_default (''t'', ''p'', ''n'') a of
        Inr r \<Rightarrow> endpoint_scope r ''e'' = Some (''t'', ''p'', ''n'')
          \<and> register_advertisement r (''t'', ''p'', ''m'') a = Inl BoundToAnotherScope
      | Inl _ \<Rightarrow> False"
proof -
  define a where "a = \<lparr>ie_tenant = ''t'', ie_project = ''p'', ie_node = ''n'', ie_endpoint_id = ''e'', ie_generation = 1,
      ie_relay_configuration_generation = 1, ie_direct_addresses = [], ie_relay_urls = [], ie_expires_at = 9\<rparr>"
  have "case register_advertisement node_registry_default (''t'', ''p'', ''n'') a of
      Inr r \<Rightarrow> endpoint_scope r (ie_endpoint_id a) = Some (''t'', ''p'', ''n'') | Inl _ \<Rightarrow> False"
    unfolding a_def by code_simp
  then obtain r where res: "register_advertisement node_registry_default (''t'', ''p'', ''n'') a = Inr r"
    and bound: "endpoint_scope r (ie_endpoint_id a) = Some (''t'', ''p'', ''n'')" by (auto split: sum.splits)
  have "registry_step\<^sup>*\<^sup>* node_registry_default r"
    using Advertise [OF res] by blast
  from endpoint_bindings_exact [OF this, of _ _ a "(''t'', ''p'', ''m'')"] bound
  have "register_advertisement r (''t'', ''p'', ''m'') a = Inl BoundToAnotherScope" by fastforce
  moreover have "ie_endpoint_id a = ''e''" by (simp add: a_def)
  ultimately show ?thesis
    unfolding a_def [symmetric] Let_def using bound by (simp add: res)
qed

section \<open>Enrollment grants are used once\<close>

inductive node_step ::
  "sha256_fn \<Rightarrow> ed25519_lib \<Rightarrow> node_service \<Rightarrow> enrollment_grant_key option \<Rightarrow> node_service \<Rightarrow> bool" for H ed where
  Attach: "node_step H ed s None (fst (handle_attach_node H s t p n key))"
| Create: "handle_create_node_enrollment_grant H s t p u ttl now (Inr token) = Some (s', res)
     \<Longrightarrow> node_step H ed s (Some (t, p, token)) s'"
| Create_Failed: "handle_create_node_enrollment_grant H s t p u ttl now (Inl e) = Some (s', res)
     \<Longrightarrow> node_step H ed s None s'"
| Exchange: "node_step H ed s None (fst (handle_exchange_node_enrollment_grant H s t p n key grant now))"
| Authenticate: "node_step H ed s None (fst (authenticate_node_request ed s scope sig kind dg now seen))"

inductive node_steps ::
  "sha256_fn \<Rightarrow> ed25519_lib \<Rightarrow> (enrollment_grant_key option \<Rightarrow> bool) \<Rightarrow> node_service \<Rightarrow> node_service \<Rightarrow> bool"
  for H ed P where
  Nodes_Refl: "node_steps H ed P s s"
| Nodes_Step: "node_steps H ed P s s' \<Longrightarrow> node_step H ed s' l s'' \<Longrightarrow> P l \<Longrightarrow> node_steps H ed P s s''"

lemma grant_absent_prune:
  "bwf (nr_enrollment_grants r) \<Longrightarrow> bget (nr_enrollment_grants r) k = None
     \<Longrightarrow> bget (nr_enrollment_grants (prune_enrollment_grants r now)) k = None"
  by (simp add: prune_enrollment_grants_def bget_bretain)

lemma grant_absent_exchange:
  "bget (nr_enrollment_grants r) k = None
     \<Longrightarrow> bget (nr_enrollment_grants (fst (exchange_enrollment_grant r k' f x))) k = None"
  by (auto simp: exchange_enrollment_grant_def bmap_simps split: option.splits prod.splits sum.splits)

lemma bwf_grants_exchange:
  "bwf (nr_enrollment_grants r) \<Longrightarrow> bwf (nr_enrollment_grants (fst (exchange_enrollment_grant r k' f x)))"
  by (auto simp: exchange_enrollment_grant_def split: option.split prod.split sum.split)

lemma grants_mark_seen [simp]: "nr_enrollment_grants (mark_seen r s at) = nr_enrollment_grants r"
  by (simp add: mark_seen_def Let_def split: option.split)

lemma grants_authenticate:
  "nr_enrollment_grants (ns_nodes (fst (authenticate_node_request ed s scope sig kind dg now seen)))
     = nr_enrollment_grants (ns_nodes s)"
  by (simp add: authenticate_node_request_def Let_def split: option.split prod.split sum.split
      replay_admission_error.split)

lemma grants_attach: "ns_nodes (fst (handle_attach_node H s t p n key)) = ns_nodes s"
  by (simp add: handle_attach_node_def Let_def split: sum.split)

definition grants_without :: "enrollment_grant_key \<Rightarrow> node_service \<Rightarrow> bool" where
  "grants_without k s \<longleftrightarrow> bwf (nr_enrollment_grants (ns_nodes s)) \<and> bget (nr_enrollment_grants (ns_nodes s)) k = None"

lemma bwf_prune_grants: "bwf (nr_enrollment_grants r) \<Longrightarrow> bwf (nr_enrollment_grants (prune_enrollment_grants r now))"
  by (simp add: prune_enrollment_grants_def)

lemma grants_without_exchange:
  "grants_without k s \<Longrightarrow> grants_without k (fst (handle_exchange_node_enrollment_grant H s t p n key grant now))"
  unfolding handle_exchange_node_enrollment_grant_def Let_def grants_without_def
  by (auto simp: grant_absent_prune bwf_prune_grants
      dest: arg_cong [of _ _ fst] intro: grant_absent_exchange bwf_grants_exchange
      split: sum.split prod.split option.split)
    (metis fst_conv grant_absent_exchange bwf_grants_exchange grant_absent_prune bwf_prune_grants)+

lemma grants_without_create:
  assumes "grants_without k s" and "handle_create_node_enrollment_grant H s t p u ttl now token = Some (s', res)"
    and "\<forall>g. token = Inr g \<longrightarrow> (t, p, g) \<noteq> k"
  shows "grants_without k s'"
proof (cases token)
  case (Inl e)
  with assms(1, 2) show ?thesis
    by (auto simp: handle_create_node_enrollment_grant_def grants_without_def Let_def grant_absent_prune
        bwf_prune_grants split: sum.splits if_splits)
next
  case (Inr g)
  with assms(3) have "(t, p, g) \<noteq> k" by blast
  with assms(1, 2) Inr show ?thesis
    by (auto simp: handle_create_node_enrollment_grant_def grants_without_def Let_def grant_absent_prune
        bwf_prune_grants insert_enrollment_grant_def bget_binsert split: sum.splits option.splits if_splits)
qed

lemma node_step_grants_without:
  "node_step H ed s l s' \<Longrightarrow> l \<noteq> Some k \<Longrightarrow> grants_without k s \<Longrightarrow> grants_without k s'"
proof (induction rule: node_step.induct)
  case (Create s t p u ttl now token s' res)
  then show ?case by (intro grants_without_create [OF _ Create.hyps]) auto
next
  case (Create_Failed s t p u ttl now e s' res)
  then show ?case by (intro grants_without_create [OF _ Create_Failed.hyps]) auto
next
  case (Exchange s t p n key grant now)
  then show ?case by (simp add: grants_without_exchange)
qed (simp_all add: grants_without_def grants_attach grants_authenticate)

lemma node_steps_grants_without:
  "node_steps H ed (\<lambda>l. l \<noteq> Some k) s s' \<Longrightarrow> grants_without k s \<Longrightarrow> grants_without k s'"
  by (induction rule: node_steps.induct) (auto intro: node_step_grants_without)

lemma exchange_without_grant:
  "grants_without (t, p, grant) s
     \<Longrightarrow> \<exists>e. snd (handle_exchange_node_enrollment_grant H s t p n key grant now) = Inl e"
  by (auto simp: handle_exchange_node_enrollment_grant_def grants_without_def Let_def exchange_enrollment_grant_def
      grant_absent_prune split: sum.split)

lemma exchange_success:
  assumes "bwf (nr_enrollment_grants (ns_nodes s))"
    and "handle_exchange_node_enrollment_grant H s t p n key grant now = (s1, Inr resp)"
  shows "\<exists>g. bget (nr_enrollment_grants (ns_nodes s)) (t, p, grant) = Some g \<and> \<not> eg_consumed g
      \<and> now \<le> eg_expires_at g \<and> eg_scope g = ''node:attach''
      \<and> map_option ni_public_key (node_identity (ns_coordinator s1) (eg_tenant g, eg_project g, n)) = Some key"
    and "grants_without (t, p, grant) s1"
proof -
  let ?r = "prune_enrollment_grants (ns_nodes s) now"
  let ?ex = "\<lambda>g. exchange_node_enrollment_grant H (ns_coordinator s) g n key ''node:attach'' now"
  from assms(2) obtain r c credential where
      ex: "exchange_enrollment_grant ?r (t, p, grant) ?ex (ns_coordinator s) = (r, c, Inr (Some credential))"
    and s1: "ns_nodes s1 = r" "ns_coordinator s1 = c"
    by (auto simp: handle_exchange_node_enrollment_grant_def Let_def split: sum.splits prod.splits option.splits)
  from ex obtain g g' where look: "bget (nr_enrollment_grants ?r) (t, p, grant) = Some g"
    and g: "?ex g = (g', c, Inr credential)"
    and r: "r = ?r\<lparr>nr_enrollment_grants := bremove (t, p, grant) (nr_enrollment_grants ?r)\<rparr>"
    by (auto simp: exchange_enrollment_grant_def split: option.splits prod.splits sum.splits)
  from look assms(1) have "bget (nr_enrollment_grants (ns_nodes s)) (t, p, grant) = Some g" "\<not> eg_consumed g"
    by (auto simp: prune_enrollment_grants_def bget_bretain split: option.splits if_splits)
  moreover from g have "now \<le> eg_expires_at g" "eg_scope g = ''node:attach''"
    "map_option ni_public_key (node_identity c (eg_tenant g, eg_project g, n)) = Some key"
    by (auto simp: exchange_node_enrollment_grant_def exchange_for_node_identity_def Let_def node_identity_def
        enroll_node_def bget_binsert split: if_splits)
  ultimately show "\<exists>g. bget (nr_enrollment_grants (ns_nodes s)) (t, p, grant) = Some g \<and> \<not> eg_consumed g
      \<and> now \<le> eg_expires_at g \<and> eg_scope g = ''node:attach''
      \<and> map_option ni_public_key (node_identity (ns_coordinator s1) (eg_tenant g, eg_project g, n)) = Some key"
    by (auto simp: s1)
  from assms(1) show "grants_without (t, p, grant) s1"
    by (simp add: grants_without_def s1 r bget_bremove bwf_prune_grants)
qed

text \<open>
  C20. An enrollment grant enrolls one node: an exchange succeeds only for an outstanding,
  unexpired, unconsumed grant of that tenant, project and token, it enrolls the node with the
  key presented, and after it the same token is refused to every node, whatever else happens,
  unless the token is issued again.
\<close>

theorem enrollment_grant_single_use:
  assumes "bwf (nr_enrollment_grants (ns_nodes s))"
    and "handle_exchange_node_enrollment_grant H s t p n key grant now = (s1, Inr resp)"
    and "node_steps H ed (\<lambda>l. l \<noteq> Some (t, p, grant)) s1 s2"
  shows "(\<exists>g. bget (nr_enrollment_grants (ns_nodes s)) (t, p, grant) = Some g \<and> \<not> eg_consumed g
        \<and> now \<le> eg_expires_at g
        \<and> map_option ni_public_key (node_identity (ns_coordinator s1) (eg_tenant g, eg_project g, n)) = Some key)
    \<and> (\<exists>e. snd (handle_exchange_node_enrollment_grant H s2 t p n' key' grant now') = Inl e)"
proof -
  note success = exchange_success [OF assms(1, 2)]
  from node_steps_grants_without [OF assms(3) success(2)]
  have "\<exists>e. snd (handle_exchange_node_enrollment_grant H s2 t p n' key' grant now') = Inl e"
    by (rule exchange_without_grant)
  with success(1) show ?thesis by blast
qed

theorem enrollment_grant_single_use_witness:
  "case handle_create_node_enrollment_grant (\<lambda>x. x) example_node_service ''t'' ''p'' ''u'' 60 100 (Inr ''token'') of
     Some (s, Inr _) \<Rightarrow>
       (case handle_exchange_node_enrollment_grant (\<lambda>x. x) s ''t'' ''p'' ''m'' ''key'' ''token'' 110 of
          (s1, Inr _) \<Rightarrow>
            (\<exists>e. snd (handle_exchange_node_enrollment_grant (\<lambda>x. x) s1 ''t'' ''p'' ''m2'' ''key2'' ''token'' 120) = Inl e)
        | (_, Inl _) \<Rightarrow> False)
   | _ \<Rightarrow> False"
proof -
  have "case handle_create_node_enrollment_grant (\<lambda>x. x) example_node_service ''t'' ''p'' ''u'' 60 100 (Inr ''token'') of
     Some (s, Inr _) \<Rightarrow> (case handle_exchange_node_enrollment_grant (\<lambda>x. x) s ''t'' ''p'' ''m'' ''key'' ''token'' 110 of
          (s1, Inr _) \<Rightarrow> True | (_, Inl _) \<Rightarrow> False) | _ \<Rightarrow> False"
    by code_simp
  then obtain s r s1 r1 where
      create: "handle_create_node_enrollment_grant (\<lambda>x. x) example_node_service ''t'' ''p'' ''u'' 60 100 (Inr ''token'')
        = Some (s, Inr r)"
    and exchange: "handle_exchange_node_enrollment_grant (\<lambda>x. x) s ''t'' ''p'' ''m'' ''key'' ''token'' 110 = (s1, Inr r1)"
    by (auto split: option.splits prod.splits sum.splits)
  have "bwf (nr_enrollment_grants (ns_nodes s))"
    using create
    by (auto simp: handle_create_node_enrollment_grant_def Let_def insert_enrollment_grant_def bwf_prune_grants
        example_node_service_def node_registry_default_def split: sum.splits option.splits if_splits)
  from enrollment_grant_single_use [OF this exchange Nodes_Refl, where n' = "''m2''" and key' = "''key2''" and now' = 120]
  show ?thesis by (simp add: create exchange)
qed

text \<open>
  A finding: creating an enrollment grant overwrites the project record. Whatever the project
  was called, and whichever tenant it belonged to, afterwards it is named \<open>local\<close> and belongs to the
  caller's tenant (creating a project or registering an agent key refuse a project of another tenant).
\<close>

theorem enrollment_grant_renames_project:
  assumes "handle_create_node_enrollment_grant H s t p u ttl now token = Some (s', Inr resp)"
  shows "get_project (ns_coordinator s') p = Some \<lparr>pj_id = p, pj_tenant = t, pj_name = ''local''\<rparr>"
  using assms
  by (auto simp: handle_create_node_enrollment_grant_def Let_def register_local_scope_def get_project_def
      upsert_source_provider_config_def upsert_project_def bget_binsert split: sum.splits option.splits if_splits)

theorem enrollment_grant_renames_project_witness:
  "let s = example_node_service\<lparr>ns_coordinator := upsert_project (ns_coordinator example_node_service) ''t'' ''p'' ''Payments''\<rparr>
   in get_project (ns_coordinator s) ''p'' = Some \<lparr>pj_id = ''p'', pj_tenant = ''t'', pj_name = ''Payments''\<rparr>
    \<and> (case handle_create_node_enrollment_grant (\<lambda>x. x) s ''t'' ''p'' ''u'' 60 100 (Inr ''token'') of
         Some (s', Inr _) \<Rightarrow> get_project (ns_coordinator s') ''p'' = Some \<lparr>pj_id = ''p'', pj_tenant = ''t'', pj_name = ''local''\<rparr>
       | _ \<Rightarrow> False)"
proof -
  define s where "s = example_node_service\<lparr>ns_coordinator := upsert_project (ns_coordinator example_node_service) ''t'' ''p'' ''Payments''\<rparr>"
  have name: "get_project (ns_coordinator s) ''p'' = Some \<lparr>pj_id = ''p'', pj_tenant = ''t'', pj_name = ''Payments''\<rparr>"
    unfolding s_def by code_simp
  have "case handle_create_node_enrollment_grant (\<lambda>x. x) s ''t'' ''p'' ''u'' 60 100 (Inr ''token'') of
      Some (s', Inr _) \<Rightarrow> True | _ \<Rightarrow> False"
    unfolding s_def by code_simp
  then show ?thesis
    using enrollment_grant_renames_project [of "\<lambda>x. x" s "''t''" "''p''" "''u''" 60 100 "Inr ''token''"] name
    unfolding s_def [symmetric] Let_def by (auto split: option.splits prod.splits sum.splits)
qed

end
