(* ===== verification/CF_Transfer.thy ===== *)
theory CF_Transfer
  imports CF_Nodes
begin

text \<open>
  Artifact interchange between nodes: the wire types and lifecycle of
  \<^verbatim>\<open>clusterflux-core/src/artifact_transfer.rs\<close> and the transfer registry of
  \<^verbatim>\<open>clusterflux-coordinator/src/service/interchange_registry.rs\<close>. The registry is
  shown to refine the lifecycle relation \<open>permits_transition_to\<close>, to complete a transfer only
  against the verified digest and size, and to end every transfer that stops making progress.
\<close>

section \<open>Types\<close>

datatype deployment_mode = HostedPublic | SelfHosted | LocalOffline

fun default_artifact_relay_policy :: "deployment_mode \<Rightarrow> relay_policy" where
  "default_artifact_relay_policy HostedPublic = DirectRequired"
| "default_artifact_relay_policy LocalOffline = DirectRequired"
| "default_artifact_relay_policy SelfHosted = RelayFallbackAllowed"

datatype transfer_phase =
    QueuedPhase | ConnectingPhase | WaitingForDirectPhase | TransferringPhase | VerifyingPhase | CompletePhase

datatype artifact_assignment_state = AOffered | AAcknowledged | AReady

datatype artifact_assignment_role = ProviderRole | ReceiverRole

datatype transfer_retry_class =
    RetrySameSource | TryAnotherSource | WaitAndRetryPath | PermanentSourceInvalidation | DoNotRetry

definition max_endpoint_direct_addresses :: nat where "max_endpoint_direct_addresses = 32"

definition max_endpoint_relay_urls :: nat where "max_endpoint_relay_urls = 8"

definition max_endpoint_id_bytes :: nat where "max_endpoint_id_bytes = 128"

definition max_relay_url_bytes :: nat where "max_relay_url_bytes = 2048"

definition max_transfer_id_bytes :: nat where "max_transfer_id_bytes = 128"

definition validate_endpoint_id :: "string \<Rightarrow> string + unit" where
  "validate_endpoint_id endpoint_id =
     (if endpoint_id = [] \<or> length endpoint_id > max_endpoint_id_bytes
      then Inl ''Iroh endpoint ID is empty or exceeds its size limit'' else Inr ())"

definition validate_relay_urls :: "string list \<Rightarrow> string + unit" where
  "validate_relay_urls urls =
     (if length urls > max_endpoint_relay_urls then Inl ''Iroh endpoint contains too many relay URLs''
      else if list_ex (\<lambda>url. url = [] \<or> length url > max_relay_url_bytes) urls
      then Inl ''Iroh endpoint contains an invalid relay URL'' else Inr ())"

definition validate_advertisement_bounds :: "iroh_endpoint_advertisement \<Rightarrow> string + unit" where
  "validate_advertisement_bounds a =
     (case validate_endpoint_id (ie_endpoint_id a) of
        Inl e \<Rightarrow> Inl e
      | Inr _ \<Rightarrow>
        if length (ie_direct_addresses a) > max_endpoint_direct_addresses
        then Inl ''Iroh endpoint advertisement has too many direct addresses''
        else (case validate_relay_urls (ie_relay_urls a) of
            Inl e \<Rightarrow> Inl e
          | Inr _ \<Rightarrow>
            if ie_generation a = 0 \<or> ie_relay_configuration_generation a = 0
            then Inl ''Iroh endpoint advertisement generations must be non-zero'' else Inr ()))"

record transfer_lease =
  tl_transfer_id :: string
  tl_tenant :: tenant_id
  tl_project :: project_id
  tl_process :: process_id
  tl_artifact :: artifact_id
  tl_digest :: digest
  tl_size_bytes :: u64
  tl_source_node :: node_id
  tl_source_endpoint_id :: string
  tl_destination_node :: node_id
  tl_destination_endpoint_id :: string
  tl_allowed_offset :: u64
  tl_maximum_bytes :: u64
  tl_relay_policy :: relay_policy
  tl_direct_path_deadline_ms :: u64
  tl_expires_at :: u64
  tl_active_lease_expires_at :: u64
  tl_nonce :: string

definition validate_lease_bounds :: "transfer_lease \<Rightarrow> string + unit" where
  "validate_lease_bounds l =
     (if tl_transfer_id l = [] \<or> length (tl_transfer_id l) > max_transfer_id_bytes
      then Inl ''artifact transfer ID is empty or exceeds its size limit''
      else case validate_endpoint_id (tl_source_endpoint_id l) of
        Inl e \<Rightarrow> Inl e
      | Inr _ \<Rightarrow>
        (case validate_endpoint_id (tl_destination_endpoint_id l) of
           Inl e \<Rightarrow> Inl e
         | Inr _ \<Rightarrow>
           if tl_nonce l = [] \<or> length (tl_nonce l) > max_transfer_id_bytes
           then Inl ''artifact transfer lease has an invalid nonce''
           else if tl_allowed_offset l > tl_size_bytes l
           then Inl ''artifact transfer lease offset exceeds artifact size''
           else if tl_maximum_bytes l < sat_sub (tl_size_bytes l) (tl_allowed_offset l)
           then Inl ''artifact transfer lease byte limit is smaller than the permitted range''
           else if tl_active_lease_expires_at l \<noteq> 0 \<and> tl_active_lease_expires_at l < tl_expires_at l
           then Inl ''artifact active-transfer lease expires before its stream ticket''
           else Inr ()))"

definition retention_expires_at :: "transfer_lease \<Rightarrow> u64" where
  "retention_expires_at l = max (tl_active_lease_expires_at l) (tl_expires_at l)"

definition permits_offset :: "transfer_lease \<Rightarrow> u64 \<Rightarrow> bool" where
  "permits_offset l offset \<longleftrightarrow> offset \<ge> tl_allowed_offset l \<and> offset \<le> tl_size_bytes l
     \<and> sat_sub (tl_size_bytes l) offset \<le> tl_maximum_bytes l"

record authorized_peer_endpoint =
  pe_node :: node_id
  pe_endpoint_id :: string
  pe_generation :: u64
  pe_direct_addresses :: "socket_addr list"
  pe_relay_urls :: "string list"

definition validate_peer_bounds :: "authorized_peer_endpoint \<Rightarrow> string + unit" where
  "validate_peer_bounds p =
     (case validate_endpoint_id (pe_endpoint_id p) of
        Inl e \<Rightarrow> Inl e
      | Inr _ \<Rightarrow>
        if pe_generation p = 0 then Inl ''authorized peer endpoint generation must be non-zero''
        else if length (pe_direct_addresses p) > max_endpoint_direct_addresses
        then Inl ''authorized peer endpoint contains too many direct addresses''
        else validate_relay_urls (pe_relay_urls p))"

text \<open>The 32 secret bytes are a string.\<close>

record transfer_authorization =
  xa_lease :: transfer_lease
  xa_transfer_secret :: string
  xa_peer :: authorized_peer_endpoint

section \<open>Lifecycle\<close>

datatype transfer_state =
    Requested | SourceSelected | Connecting | WaitingForDirect | Transferring | Verifying | Completed
  | Retrying | XFailed | XCancelled | XExpired

fun terminal :: "transfer_state \<Rightarrow> bool" where
  "terminal s \<longleftrightarrow> s \<in> {Completed, XFailed, XCancelled, XExpired}"

declare terminal.simps [simp del]

fun transition_targets :: "transfer_state \<Rightarrow> transfer_state set" where
  "transition_targets Requested = {SourceSelected, XFailed, XCancelled, XExpired}"
| "transition_targets SourceSelected = {Connecting, Retrying, XFailed, XCancelled, XExpired}"
| "transition_targets Connecting =
     {WaitingForDirect, Transferring, Retrying, XFailed, XCancelled, XExpired}"
| "transition_targets WaitingForDirect = {Transferring, Retrying, XFailed, XCancelled, XExpired}"
| "transition_targets Transferring = {Verifying, Retrying, XFailed, XCancelled, XExpired}"
| "transition_targets Verifying = {Completed, Retrying, XFailed, XCancelled, XExpired}"
| "transition_targets Retrying = {SourceSelected, Connecting, XFailed, XCancelled, XExpired}"
| "transition_targets Completed = {}"
| "transition_targets XFailed = {}"
| "transition_targets XCancelled = {}"
| "transition_targets XExpired = {}"

definition permits_transition_to :: "transfer_state \<Rightarrow> transfer_state \<Rightarrow> bool" where
  "permits_transition_to s next_state \<longleftrightarrow> s = next_state \<or> next_state \<in> transition_targets s"

fun transfer_state_debug :: "transfer_state \<Rightarrow> string" where
  "transfer_state_debug Requested = ''Requested''"
| "transfer_state_debug SourceSelected = ''SourceSelected''"
| "transfer_state_debug Connecting = ''Connecting''"
| "transfer_state_debug WaitingForDirect = ''WaitingForDirect''"
| "transfer_state_debug Transferring = ''Transferring''"
| "transfer_state_debug Verifying = ''Verifying''"
| "transfer_state_debug Completed = ''Completed''"
| "transfer_state_debug Retrying = ''Retrying''"
| "transfer_state_debug XFailed = ''Failed''"
| "transfer_state_debug XCancelled = ''Cancelled''"
| "transfer_state_debug XExpired = ''Expired''"

datatype transfer_error_code =
    NoArtifactLocation | SourceNodeOffline | DestinationNodeOffline | EndpointAdvertisementMissing
  | RelayAssistUnavailable | DirectPathTimeout | RelayPathForbidden | ConnectionFailed
  | PeerIdentityMismatch | TransferLeaseRejected | TransferLeaseExpired | ArtifactMissingAtSource
  | RangeInvalid | DestinationDiskFull | SizeMismatch | DigestMismatch | TransferCancelled
  | CapacityUnavailable

fun transfer_error_code_as_str :: "transfer_error_code \<Rightarrow> string" where
  "transfer_error_code_as_str NoArtifactLocation = ''no_artifact_location''"
| "transfer_error_code_as_str SourceNodeOffline = ''source_node_offline''"
| "transfer_error_code_as_str DestinationNodeOffline = ''destination_node_offline''"
| "transfer_error_code_as_str EndpointAdvertisementMissing = ''endpoint_advertisement_missing''"
| "transfer_error_code_as_str RelayAssistUnavailable = ''relay_assist_unavailable''"
| "transfer_error_code_as_str DirectPathTimeout = ''direct_path_timeout''"
| "transfer_error_code_as_str RelayPathForbidden = ''relay_path_forbidden''"
| "transfer_error_code_as_str ConnectionFailed = ''connection_failed''"
| "transfer_error_code_as_str PeerIdentityMismatch = ''peer_identity_mismatch''"
| "transfer_error_code_as_str TransferLeaseRejected = ''transfer_lease_rejected''"
| "transfer_error_code_as_str TransferLeaseExpired = ''transfer_lease_expired''"
| "transfer_error_code_as_str ArtifactMissingAtSource = ''artifact_missing_at_source''"
| "transfer_error_code_as_str RangeInvalid = ''range_invalid''"
| "transfer_error_code_as_str DestinationDiskFull = ''destination_disk_full''"
| "transfer_error_code_as_str SizeMismatch = ''size_mismatch''"
| "transfer_error_code_as_str DigestMismatch = ''digest_mismatch''"
| "transfer_error_code_as_str TransferCancelled = ''transfer_cancelled''"
| "transfer_error_code_as_str CapacityUnavailable = ''capacity_unavailable''"

fun retry_class :: "transfer_error_code \<Rightarrow> transfer_retry_class" where
  "retry_class DirectPathTimeout = WaitAndRetryPath"
| "retry_class RelayPathForbidden = WaitAndRetryPath"
| "retry_class RelayAssistUnavailable = RetrySameSource"
| "retry_class ConnectionFailed = RetrySameSource"
| "retry_class TransferLeaseExpired = RetrySameSource"
| "retry_class CapacityUnavailable = RetrySameSource"
| "retry_class SourceNodeOffline = RetrySameSource"
| "retry_class DestinationNodeOffline = RetrySameSource"
| "retry_class EndpointAdvertisementMissing = RetrySameSource"
| "retry_class ArtifactMissingAtSource = PermanentSourceInvalidation"
| "retry_class SizeMismatch = PermanentSourceInvalidation"
| "retry_class DigestMismatch = PermanentSourceInvalidation"
| "retry_class PeerIdentityMismatch = TryAnotherSource"
| "retry_class TransferLeaseRejected = TryAnotherSource"
| "retry_class RangeInvalid = TryAnotherSource"
| "retry_class NoArtifactLocation = DoNotRetry"
| "retry_class DestinationDiskFull = DoNotRetry"
| "retry_class TransferCancelled = DoNotRetry"

record transfer_record =
  tt_transfer_id :: string
  tt_tenant :: tenant_id
  tt_project :: project_id
  tt_process :: process_id
  tt_artifact :: artifact_id
  tt_source_node :: node_id
  tt_destination_node :: node_id
  tt_bytes_completed :: u64
  tt_path_kind :: path_kind
  tt_state :: transfer_state
  tt_created_at :: u64
  tt_updated_at :: u64
  tt_expires_at :: u64
  tt_stream_ticket_expires_at :: u64
  tt_last_progress_at :: u64
  tt_total_bytes :: u64
  tt_phase :: transfer_phase
  tt_failure_code :: "transfer_error_code option"
  tt_attempt_count :: u32

section \<open>The transfer registry\<close>

record interchange_transfer =
  it_record :: transfer_record
  it_destination_authorization :: transfer_authorization
  it_provider_authorization :: transfer_authorization
  it_destination_assignment :: artifact_assignment_state
  it_provider_assignment :: artifact_assignment_state
  it_destination_acknowledged_at :: "u64 option"
  it_provider_acknowledged_at :: "u64 option"
  it_metered_body_bytes :: u64

record interchange_registry =
  ix_transfers :: "(string, interchange_transfer) bmap"
  ix_direct_body_bytes :: u64
  ix_relayed_body_bytes :: u64
  ix_unknown_path_body_bytes :: u64

definition interchange_registry_default :: interchange_registry where
  "interchange_registry_default =
     \<lparr>ix_transfers = [], ix_direct_body_bytes = 0, ix_relayed_body_bytes = 0, ix_unknown_path_body_bytes = 0\<rparr>"

datatype assignment_acknowledgement_error = UnknownTransfer | OutsideScope | RoleMismatch

datatype artifact_effect =
    RecordVerifiedLocation artifact_scope_key node_id digest u64
  | RemoveMissingSource artifact_scope_key node_id

type_synonym released_hold = "artifact_scope_key \<times> artifact_hold_reason"

record interchange_progress =
  ip_record :: transfer_record
  ip_authorization :: "transfer_authorization option"
  ip_terminal_hold :: "released_hold option"

abbreviation transfer_state_of :: "interchange_transfer \<Rightarrow> transfer_state" where
  "transfer_state_of x \<equiv> tt_state (it_record x)"

abbreviation transfer_live :: "interchange_transfer \<Rightarrow> bool" where
  "transfer_live x \<equiv> \<not> terminal (transfer_state_of x)"

subsection \<open>Reporting progress\<close>

text \<open>The arguments of a report, and the lifetimes the service passes along from its configuration.\<close>

record transfer_report =
  rp_state :: transfer_state
  rp_bytes_completed :: u64
  rp_path_kind :: path_kind
  rp_failure_code :: "transfer_error_code option"
  rp_verified_digest :: "digest option"
  rp_verified_size :: "u64 option"

record transfer_lifetimes =
  lt_active_ttl :: u64
  lt_ticket_ttl :: u64
  lt_absolute_max :: "u64 option"

definition active_hold :: "interchange_transfer \<Rightarrow> released_hold" where
  "active_hold x = ((tt_tenant (it_record x), tt_project (it_record x), tt_artifact (it_record x)),
     ActiveTransfer (tt_transfer_id (it_record x)))"

definition in_transfer_scope :: "interchange_transfer \<Rightarrow> node_scope_key \<Rightarrow> bool" where
  "in_transfer_scope x scope \<longleftrightarrow>
     (case scope of (tenant, project, node) \<Rightarrow>
        tt_tenant (it_record x) = tenant \<and> tt_project (it_record x) = project
        \<and> (tt_source_node (it_record x) = node \<or> tt_destination_node (it_record x) = node))"

definition terminal_code :: "interchange_transfer \<Rightarrow> string" where
  "terminal_code x =
     (case transfer_state_of x of
        XCancelled \<Rightarrow> transfer_error_code_as_str TransferCancelled
      | XExpired \<Rightarrow> transfer_error_code_as_str TransferLeaseExpired
      | XFailed \<Rightarrow> (case tt_failure_code (it_record x) of
          Some c \<Rightarrow> transfer_error_code_as_str c | None \<Rightarrow> ''artifact_transfer_failed'')
      | _ \<Rightarrow> ''artifact_transfer_completed'')"

definition provider_ready_refresh :: "interchange_transfer \<Rightarrow> node_id \<Rightarrow> transfer_state \<Rightarrow> bool" where
  "provider_ready_refresh x node state \<longleftrightarrow> node = tt_source_node (it_record x) \<and> state = Connecting
     \<and> transfer_state_of x \<in> {Connecting, WaitingForDirect, Transferring, Verifying}"

definition mark_ready :: "interchange_transfer \<Rightarrow> node_id \<Rightarrow> transfer_state \<Rightarrow> interchange_transfer" where
  "mark_ready x node state =
     (let x = (if node = tt_source_node (it_record x) \<and> state \<in> {Connecting, WaitingForDirect, Transferring}
               then x\<lparr>it_provider_assignment := AReady, it_destination_assignment := AOffered,
                      it_destination_acknowledged_at := None\<rparr> else x)
      in if node = tt_destination_node (it_record x) \<and> state \<in> {Transferring, Verifying, Completed}
         then x\<lparr>it_destination_assignment := AReady\<rparr> else x)"

abbreviation destination_lease :: "interchange_transfer \<Rightarrow> transfer_lease" where
  "destination_lease x \<equiv> xa_lease (it_destination_authorization x)"

definition relay_forbidden :: "interchange_transfer \<Rightarrow> transfer_report \<Rightarrow> bool" where
  "relay_forbidden x rp \<longleftrightarrow> tl_relay_policy (destination_lease x) = DirectRequired
     \<and> rp_bytes_completed rp > tl_allowed_offset (destination_lease x)
     \<and> rp_path_kind rp \<notin> {PathDirect, PathLocal}"

fun phase_of :: "transfer_state \<Rightarrow> transfer_phase" where
  "phase_of Requested = QueuedPhase"
| "phase_of SourceSelected = QueuedPhase"
| "phase_of Retrying = QueuedPhase"
| "phase_of Connecting = ConnectingPhase"
| "phase_of WaitingForDirect = WaitingForDirectPhase"
| "phase_of Transferring = TransferringPhase"
| "phase_of Verifying = VerifyingPhase"
| "phase_of _ = CompletePhase"

definition completion_proved :: "interchange_transfer \<Rightarrow> node_id \<Rightarrow> transfer_report \<Rightarrow> bool" where
  "completion_proved x node rp \<longleftrightarrow> node = tt_destination_node (it_record x)
     \<and> rp_bytes_completed rp = tl_size_bytes (destination_lease x)
     \<and> rp_verified_digest rp = Some (tl_digest (destination_lease x))
     \<and> rp_verified_size rp = Some (tl_size_bytes (destination_lease x)) \<and> rp_failure_code rp = None"

text \<open>The artifact effects of a report, with the errors that stop it.\<close>

definition completion_effect ::
  "('a \<Rightarrow> artifact_effect \<Rightarrow> service_error + 'a) \<Rightarrow> 'a \<Rightarrow> interchange_transfer \<Rightarrow> node_id \<Rightarrow> transfer_report
     \<Rightarrow> service_error + 'a" where
  "completion_effect apply_effect a x node rp =
     (let key = (tt_tenant (it_record x), tt_project (it_record x), tt_artifact (it_record x)) in
      if rp_state rp = Completed then
        if \<not> completion_proved x node rp
        then Inl (Protocol ''artifact completion lacks exact destination verification proof'')
        else apply_effect a (RecordVerifiedLocation key (tt_destination_node (it_record x))
               (tl_digest (destination_lease x)) (tl_size_bytes (destination_lease x)))
      else if terminal (rp_state rp) \<and> rp_failure_code rp = None
      then Inl (Protocol ''terminal artifact transfer failure requires a stable failure code'')
      else Inr a)"

definition missing_source_effect ::
  "('a \<Rightarrow> artifact_effect \<Rightarrow> service_error + 'a) \<Rightarrow> 'a \<Rightarrow> interchange_transfer \<Rightarrow> node_id \<Rightarrow> transfer_report
     \<Rightarrow> service_error + 'a" where
  "missing_source_effect apply_effect a x node rp =
     (let key = (tt_tenant (it_record x), tt_project (it_record x), tt_artifact (it_record x)) in
      if rp_failure_code rp = Some ArtifactMissingAtSource then
        if rp_state rp \<noteq> XFailed \<or> node \<noteq> tt_source_node (it_record x)
        then Inl (CoordinatorFailed (Unauthorized
               ''only the selected source may report that retained artifact bytes are missing''))
        else apply_effect a (RemoveMissingSource key (tt_source_node (it_record x)))
      else Inr a)"

definition body_bytes :: "interchange_transfer \<Rightarrow> transfer_report \<Rightarrow> u64" where
  "body_bytes x rp =
     (if rp_path_kind rp = PathLocal then 0
      else sat_sub (rp_bytes_completed rp) (tl_allowed_offset (destination_lease x)))"

definition map_leases :: "(transfer_lease \<Rightarrow> transfer_lease) \<Rightarrow> interchange_transfer \<Rightarrow> interchange_transfer" where
  "map_leases f x = x\<lparr>
     it_destination_authorization := (it_destination_authorization x)\<lparr>xa_lease := f (xa_lease (it_destination_authorization x))\<rparr>,
     it_provider_authorization := (it_provider_authorization x)\<lparr>xa_lease := f (xa_lease (it_provider_authorization x))\<rparr>\<rparr>"

definition renewed_expiry :: "interchange_transfer \<Rightarrow> u64 \<Rightarrow> transfer_lifetimes \<Rightarrow> u64" where
  "renewed_expiry x now lt =
     (let renewed = sat_add now (lt_active_ttl lt) in
      case lt_absolute_max lt of
        None \<Rightarrow> renewed | Some maximum \<Rightarrow> min renewed (sat_add (tt_created_at (it_record x)) maximum))"

text \<open>The part of a report after its checks: the record, the leases and the assignments it renews.\<close>

definition set_record :: "(transfer_record \<Rightarrow> transfer_record) \<Rightarrow> interchange_transfer \<Rightarrow> interchange_transfer" where
  "set_record f x = x\<lparr>it_record := f (it_record x)\<rparr>"

definition recorded_state :: "interchange_transfer \<Rightarrow> node_id \<Rightarrow> transfer_state \<Rightarrow> transfer_state" where
  "recorded_state x node state = (if provider_ready_refresh x node state then transfer_state_of x else state)"

definition renews_lease :: "interchange_transfer \<Rightarrow> node_id \<Rightarrow> transfer_report \<Rightarrow> bool" where
  "renews_lease x node rp \<longleftrightarrow> \<not> terminal (recorded_state x node (rp_state rp))
     \<and> (rp_bytes_completed rp > tt_bytes_completed (it_record x)
        \<or> rp_state rp \<in> {Connecting, WaitingForDirect, Verifying})"

definition renew_active_lease :: "u64 \<Rightarrow> u64 \<Rightarrow> interchange_transfer \<Rightarrow> interchange_transfer" where
  "renew_active_lease now renewed x =
     map_leases (\<lambda>l. l\<lparr>tl_active_lease_expires_at := renewed\<rparr>)
       (set_record (\<lambda>r. r\<lparr>tt_last_progress_at := now, tt_expires_at := renewed\<rparr>) x)"

definition renew_ticket :: "u64 \<Rightarrow> interchange_transfer \<Rightarrow> interchange_transfer" where
  "renew_ticket ticket_expiry x =
     map_leases (\<lambda>l. l\<lparr>tl_expires_at := ticket_expiry\<rparr>)
       (set_record (\<lambda>r. r\<lparr>tt_stream_ticket_expires_at := ticket_expiry\<rparr>) x)"

definition record_report ::
  "interchange_transfer \<Rightarrow> node_id \<Rightarrow> transfer_report \<Rightarrow> u64 \<Rightarrow> interchange_transfer" where
  "record_report x node rp now =
     set_record (\<lambda>r. r\<lparr>tt_state := recorded_state x node (rp_state rp),
          tt_bytes_completed := rp_bytes_completed rp, tt_path_kind := rp_path_kind rp,
          tt_failure_code := rp_failure_code rp, tt_updated_at := now,
          tt_phase := phase_of (recorded_state x node (rp_state rp))\<rparr>)
       (x\<lparr>it_metered_body_bytes := max (it_metered_body_bytes x) (body_bytes x rp)\<rparr>)"

definition redeliver_other_side :: "node_id \<Rightarrow> interchange_transfer \<Rightarrow> interchange_transfer" where
  "redeliver_other_side node x =
     (if node = tt_destination_node (it_record x)
      then x\<lparr>it_provider_assignment := AOffered, it_provider_acknowledged_at := None\<rparr>
      else x\<lparr>it_destination_assignment := AOffered, it_destination_acknowledged_at := None\<rparr>)"

definition commit_report ::
  "interchange_transfer \<Rightarrow> node_id \<Rightarrow> transfer_report \<Rightarrow> u64 \<Rightarrow> transfer_lifetimes \<Rightarrow> interchange_transfer" where
  "commit_report x node rp now lt =
     (let renew = renews_lease x node rp;
          refresh_ticket = (node = tt_source_node (it_record x) \<and> rp_state rp = Connecting
            \<and> \<not> terminal (recorded_state x node (rp_state rp)));
          x = record_report x node rp now;
          x = (if renew then renew_active_lease now (renewed_expiry x now lt) x else x);
          x = (if refresh_ticket
               then renew_ticket (min (sat_add now (lt_ticket_ttl lt)) (tt_expires_at (it_record x))) x else x)
      in if renew then redeliver_other_side node x else x)"

definition meter_body_bytes :: "interchange_registry \<Rightarrow> path_kind \<Rightarrow> u64 \<Rightarrow> interchange_registry" where
  "meter_body_bytes r path bytes =
     (case path of
        PathLocal \<Rightarrow> r
      | PathDirect \<Rightarrow> r\<lparr>ix_direct_body_bytes := sat_add (ix_direct_body_bytes r) bytes\<rparr>
      | PathRelayed \<Rightarrow> r\<lparr>ix_relayed_body_bytes := sat_add (ix_relayed_body_bytes r) bytes\<rparr>
      | PathUnknown \<Rightarrow> r\<lparr>ix_unknown_path_body_bytes := sat_add (ix_unknown_path_body_bytes r) bytes\<rparr>)"

definition store_transfer :: "interchange_registry \<Rightarrow> string \<Rightarrow> interchange_transfer \<Rightarrow> interchange_registry" where
  "store_transfer r transfer_id x = r\<lparr>ix_transfers := binsert transfer_id x (ix_transfers r)\<rparr>"

text \<open>\<open>Inr None\<close> passes; \<open>Inr (Some p)\<close> is the early answer to a repeated terminal report.\<close>

definition admit_report ::
  "interchange_transfer \<Rightarrow> node_scope_key \<Rightarrow> transfer_report \<Rightarrow> service_error + interchange_progress option" where
  "admit_report x scope rp =
     (let node = snd (snd scope); r = it_record x in
      if \<not> in_transfer_scope x scope
      then Inl (CoordinatorFailed (Unauthorized ''artifact transfer report is outside the signed node scope''))
      else if terminal (tt_state r) then
        if tt_state r = rp_state rp \<and> tt_bytes_completed r = rp_bytes_completed rp
           \<and> tt_path_kind r = rp_path_kind rp \<and> tt_failure_code r = rp_failure_code rp
        then Inr (Some \<lparr>ip_record = r, ip_authorization = None, ip_terminal_hold = None\<rparr>)
        else Inl (Protocol (terminal_code x))
      else if rp_bytes_completed rp < tt_bytes_completed r
           \<or> rp_bytes_completed rp > tl_size_bytes (destination_lease x)
      then Inl (Protocol ''artifact transfer byte progress is invalid'')
      else if \<not> provider_ready_refresh x node (rp_state rp) \<and> \<not> permits_transition_to (tt_state r) (rp_state rp)
      then Inl (Protocol (''artifact transfer lifecycle cannot move from '' @ transfer_state_debug (tt_state r)
             @ '' to '' @ transfer_state_debug (rp_state rp)))
      else Inr None)"

definition fail_relayed :: "u64 \<Rightarrow> interchange_transfer \<Rightarrow> interchange_transfer" where
  "fail_relayed now = set_record (\<lambda>r. r\<lparr>tt_state := XFailed, tt_failure_code := Some RelayPathForbidden,
     tt_updated_at := now\<rparr>)"

definition report_progress ::
  "('a \<Rightarrow> artifact_effect \<Rightarrow> service_error + 'a) \<Rightarrow> interchange_registry \<Rightarrow> 'a \<Rightarrow> node_scope_key \<Rightarrow> string
     \<Rightarrow> transfer_report \<Rightarrow> u64 \<Rightarrow> transfer_lifetimes
     \<Rightarrow> interchange_registry \<times> 'a \<times> (service_error + interchange_progress)" where
  "report_progress apply_effect r a scope transfer_id rp now lt =
     (case bget (ix_transfers r) transfer_id of
        None \<Rightarrow> (r, a, Inl (Protocol ''unknown artifact transfer''))
      | Some x0 \<Rightarrow>
        (case admit_report x0 scope rp of
           Inl e \<Rightarrow> (r, a, Inl e)
         | Inr (Some progress) \<Rightarrow> (r, a, Inr progress)
         | Inr None \<Rightarrow>
           let node = snd (snd scope); x = mark_ready x0 node (rp_state rp) in
           if relay_forbidden x rp
           then (store_transfer r transfer_id (fail_relayed now x), a,
                 Inl (Protocol (transfer_error_code_as_str RelayPathForbidden)))
           else (case completion_effect apply_effect a x node rp of
               Inl e \<Rightarrow> (store_transfer r transfer_id x, a, Inl e)
             | Inr a \<Rightarrow>
               (case missing_source_effect apply_effect a x node rp of
                  Inl e \<Rightarrow> (store_transfer r transfer_id x, a, Inl e)
                | Inr a \<Rightarrow>
                  let x' = commit_report x node rp now lt;
                      ended = terminal (transfer_state_of x');
                      metered = sat_sub (body_bytes x rp) (it_metered_body_bytes x)
                  in (meter_body_bytes (store_transfer r transfer_id x') (rp_path_kind rp) metered, a,
                      Inr \<lparr>ip_record = it_record x',
                           ip_authorization = (if ended then None
                             else Some (if node = tt_source_node (it_record x')
                                        then it_provider_authorization x' else it_destination_authorization x')),
                           ip_terminal_hold = (if ended then Some (active_hold x') else None)\<rparr>)))))"

subsection \<open>Renewal, assignment polls and acknowledgements\<close>

definition renewable ::
  "tenant_id \<Rightarrow> project_id \<Rightarrow> process_id \<Rightarrow> artifact_id \<Rightarrow> node_id \<Rightarrow> u64 \<Rightarrow> interchange_transfer \<Rightarrow> bool" where
  "renewable tenant project process artifact destination now x \<longleftrightarrow>
     (let r = it_record x in
      tt_expires_at r \<ge> now \<and> \<not> terminal (tt_state r) \<and> tt_tenant r = tenant \<and> tt_project r = project
      \<and> tt_process r = process \<and> tt_artifact r = artifact \<and> tt_destination_node r = destination)"

definition renew_transfer :: "u64 \<Rightarrow> transfer_lifetimes \<Rightarrow> interchange_transfer \<Rightarrow> interchange_transfer" where
  "renew_transfer now lt x =
     (let active_expiry = renewed_expiry x now lt;
          x = renew_ticket (min (sat_add now (lt_ticket_ttl lt)) active_expiry) x
      in if transfer_state_of x \<in> {Requested, SourceSelected, Connecting, WaitingForDirect, Retrying}
         then renew_active_lease now active_expiry x else x)"

definition renew ::
  "interchange_registry \<Rightarrow> tenant_id \<Rightarrow> project_id \<Rightarrow> process_id \<Rightarrow> artifact_id \<Rightarrow> node_id \<Rightarrow> u64 \<Rightarrow> transfer_lifetimes
     \<Rightarrow> interchange_registry \<times> (transfer_authorization \<times> transfer_record) option" where
  "renew r tenant project process artifact destination now lt =
     (case find (\<lambda>e. renewable tenant project process artifact destination now (snd e)) (ix_transfers r) of
        None \<Rightarrow> (r, None)
      | Some (transfer_id, x) \<Rightarrow>
        let x = renew_transfer now lt x
        in (store_transfer r transfer_id x, Some (it_destination_authorization x, it_record x)))"

text \<open>An assignment is due when it is offered, or was acknowledged and has not become ready in time.\<close>

definition assignment_due :: "artifact_assignment_state \<Rightarrow> u64 option \<Rightarrow> u64 \<Rightarrow> u64 \<Rightarrow> bool" where
  "assignment_due state acknowledged_at now recovery \<longleftrightarrow>
     state = AOffered
     \<or> (state = AAcknowledged \<and> sat_add (case acknowledged_at of None \<Rightarrow> 0 | Some at \<Rightarrow> at) recovery < now)"

definition provider_due :: "node_scope_key \<Rightarrow> u64 \<Rightarrow> u64 \<Rightarrow> interchange_transfer \<Rightarrow> bool" where
  "provider_due scope now recovery x \<longleftrightarrow>
     (let r = it_record x in
      (tt_tenant r, tt_project r, tt_source_node r) = scope
      \<and> assignment_due (it_provider_assignment x) (it_provider_acknowledged_at x) now recovery
      \<and> \<not> terminal (tt_state r) \<and> tt_expires_at r \<ge> now)"

definition receiver_due :: "node_scope_key \<Rightarrow> u64 \<Rightarrow> u64 \<Rightarrow> interchange_transfer \<Rightarrow> bool" where
  "receiver_due scope now recovery x \<longleftrightarrow>
     (let r = it_record x in
      assignment_due (it_destination_assignment x) (it_destination_acknowledged_at x) now recovery
      \<and> \<not> terminal (tt_state r) \<and> (tt_tenant r, tt_project r, tt_destination_node r) = scope
      \<and> tt_expires_at r \<ge> now)"

definition reoffer_provider :: "interchange_transfer \<Rightarrow> interchange_transfer" where
  "reoffer_provider x =
     (if it_provider_assignment x = AAcknowledged
      then x\<lparr>it_provider_assignment := AOffered, it_provider_acknowledged_at := None\<rparr> else x)"

definition reoffer_receiver :: "interchange_transfer \<Rightarrow> interchange_transfer" where
  "reoffer_receiver x =
     (if it_destination_assignment x = AAcknowledged
      then x\<lparr>it_destination_assignment := AOffered, it_destination_acknowledged_at := None\<rparr> else x)"

definition poll_provider_assignment ::
  "interchange_registry \<Rightarrow> node_scope_key \<Rightarrow> u64 \<Rightarrow> u64
     \<Rightarrow> interchange_registry \<times> string list \<times> transfer_authorization option" where
  "poll_provider_assignment r scope now recovery =
     (let retired = map (\<lambda>x. tt_transfer_id (it_record x))
            (filter (\<lambda>x. (tt_tenant (it_record x), tt_project (it_record x), tt_source_node (it_record x)) = scope
                       \<and> terminal (transfer_state_of x)) (bvalues (ix_transfers r)))
      in case find (\<lambda>e. provider_due scope now recovery (snd e)) (ix_transfers r) of
           None \<Rightarrow> (r, retired, None)
         | Some (transfer_id, x) \<Rightarrow>
           let x = reoffer_provider x
           in (store_transfer r transfer_id x, retired, Some (it_provider_authorization x)))"

definition poll_receiver_assignment ::
  "interchange_registry \<Rightarrow> node_scope_key \<Rightarrow> u64 \<Rightarrow> u64 \<Rightarrow> interchange_registry \<times> transfer_authorization option" where
  "poll_receiver_assignment r scope now recovery =
     (case find (\<lambda>e. receiver_due scope now recovery (snd e)) (ix_transfers r) of
        None \<Rightarrow> (r, None)
      | Some (transfer_id, x) \<Rightarrow>
        let x = reoffer_receiver x
        in (store_transfer r transfer_id x, Some (it_destination_authorization x)))"

definition acknowledge_assignment ::
  "interchange_registry \<Rightarrow> node_scope_key \<Rightarrow> string \<Rightarrow> artifact_assignment_role \<Rightarrow> u64
     \<Rightarrow> assignment_acknowledgement_error + (interchange_registry \<times> artifact_assignment_state)" where
  "acknowledge_assignment r scope transfer_id role now =
     (case bget (ix_transfers r) transfer_id of
        None \<Rightarrow> Inl UnknownTransfer
      | Some x \<Rightarrow>
        (case scope of (tenant, project, node) \<Rightarrow>
           if tt_tenant (it_record x) \<noteq> tenant \<or> tt_project (it_record x) \<noteq> project then Inl OutsideScope
           else if role = ProviderRole \<and> tt_source_node (it_record x) = node
           then if it_provider_assignment x \<in> {AOffered, AAcknowledged}
             then Inr (store_transfer r transfer_id
                    (x\<lparr>it_provider_assignment := AAcknowledged, it_provider_acknowledged_at := Some now\<rparr>), AAcknowledged)
             else Inr (r, it_provider_assignment x)
           else if role = ReceiverRole \<and> tt_destination_node (it_record x) = node
           then if it_destination_assignment x \<in> {AOffered, AAcknowledged}
             then Inr (store_transfer r transfer_id
                    (x\<lparr>it_destination_assignment := AAcknowledged, it_destination_acknowledged_at := Some now\<rparr>), AAcknowledged)
             else Inr (r, it_destination_assignment x)
           else Inl RoleMismatch))"

subsection \<open>Cancellation, failure and expiry\<close>

definition end_transfer ::
  "transfer_state \<Rightarrow> transfer_error_code \<Rightarrow> u64 \<Rightarrow> interchange_transfer \<Rightarrow> interchange_transfer" where
  "end_transfer state code now =
     set_record (\<lambda>r. r\<lparr>tt_state := state, tt_failure_code := Some code, tt_updated_at := now, tt_phase := CompletePhase\<rparr>)"

text \<open>The loops over \<open>values_mut().filter(p)\<close>: the selected transfers, and the registry with them rewritten.\<close>

definition selected :: "(interchange_transfer \<Rightarrow> bool) \<Rightarrow> interchange_registry \<Rightarrow> interchange_transfer list" where
  "selected p r = filter p (bvalues (ix_transfers r))"

definition rewrite_transfers ::
  "(interchange_transfer \<Rightarrow> bool) \<Rightarrow> (interchange_transfer \<Rightarrow> interchange_transfer) \<Rightarrow> interchange_registry
     \<Rightarrow> interchange_registry" where
  "rewrite_transfers p f r =
     r\<lparr>ix_transfers := bmap_values (\<lambda>_ x. if p x then f x else x) (ix_transfers r)\<rparr>"

definition of_active_process :: "tenant_id \<Rightarrow> project_id \<Rightarrow> process_id \<Rightarrow> interchange_transfer \<Rightarrow> bool" where
  "of_active_process tenant project process x \<longleftrightarrow> transfer_live x \<and> tt_tenant (it_record x) = tenant
     \<and> tt_project (it_record x) = project \<and> tt_process (it_record x) = process"

definition cancel_process ::
  "interchange_registry \<Rightarrow> tenant_id \<Rightarrow> project_id \<Rightarrow> process_id \<Rightarrow> u64
     \<Rightarrow> interchange_registry \<times> nat \<times> released_hold list" where
  "cancel_process r tenant project process now =
     (let p = of_active_process tenant project process; holds = map active_hold (selected p r)
      in (rewrite_transfers p (end_transfer XCancelled TransferCancelled now) r, length holds, holds))"

definition transfer_matches_active_node :: "interchange_transfer \<Rightarrow> node_scope_key \<Rightarrow> bool" where
  "transfer_matches_active_node x scope \<longleftrightarrow> transfer_live x \<and> in_transfer_scope x scope"

definition cancel_node_for_hard_drain ::
  "interchange_registry \<Rightarrow> node_scope_key \<Rightarrow> u64 \<Rightarrow> interchange_registry \<times> (artifact_id \<times> string) list" where
  "cancel_node_for_hard_drain r scope now =
     (let p = (\<lambda>x. transfer_matches_active_node x scope)
      in (rewrite_transfers p (end_transfer XCancelled TransferCancelled now) r,
          map (\<lambda>x. (tt_artifact (it_record x), tt_transfer_id (it_record x))) (selected p r)))"

definition fail_node :: "interchange_registry \<Rightarrow> node_scope_key \<Rightarrow> u64 \<Rightarrow> interchange_registry" where
  "fail_node r scope now =
     rewrite_transfers (\<lambda>x. transfer_matches_active_node x scope)
       (\<lambda>x. end_transfer XFailed (if tt_source_node (it_record x) = snd (snd scope)
              then SourceNodeOffline else DestinationNodeOffline) now x) r"

definition overdue :: "u64 \<Rightarrow> u64 \<Rightarrow> u64 option \<Rightarrow> interchange_transfer \<Rightarrow> bool" where
  "overdue now no_progress absolute_max x \<longleftrightarrow>
     (let r = it_record x in
      \<not> terminal (tt_state r)
      \<and> (tt_expires_at r < now \<or> sat_add (tt_last_progress_at r) no_progress < now
         \<or> (case absolute_max of None \<Rightarrow> False | Some maximum \<Rightarrow> sat_add (tt_created_at r) maximum < now)))"

definition expire_transfers ::
  "interchange_registry \<Rightarrow> u64 \<Rightarrow> u64 \<Rightarrow> u64 option \<Rightarrow> u64 \<Rightarrow> interchange_registry \<times> released_hold list" where
  "expire_transfers r now no_progress absolute_max retention =
     (let p = overdue now no_progress absolute_max; holds = map active_hold (selected p r);
          r = rewrite_transfers p (end_transfer XExpired TransferLeaseExpired now) r
      in (r\<lparr>ix_transfers := bretain (\<lambda>_ x. transfer_live x \<or> sat_add (tt_updated_at (it_record x)) retention \<ge> now)
             (ix_transfers r)\<rparr>, holds))"

subsection \<open>Admission\<close>

function prune_terminal_to_fit ::
  "(string, interchange_transfer) bmap \<Rightarrow> nat \<Rightarrow> (string, interchange_transfer) bmap" where
  "prune_terminal_to_fit m capacity =
     (if length m \<ge> capacity then
        case first_min_by (\<lambda>e. tt_updated_at (it_record (snd e))) (filter (\<lambda>e. terminal (transfer_state_of (snd e))) m) of
          None \<Rightarrow> m
        | Some (oldest, _) \<Rightarrow> prune_terminal_to_fit (bremove oldest m) capacity
      else m)"
  by pat_completeness auto
termination
proof (relation "measure (\<lambda>(m, _). length m)")
  fix m :: "(string, interchange_transfer) bmap" and capacity e oldest x
  assume "first_min_by (\<lambda>e. tt_updated_at (it_record (snd e))) (filter (\<lambda>e. terminal (transfer_state_of (snd e))) m) = Some e"
    and "(oldest, x) = e"
  then have "(oldest, x) \<in> set m" using first_min_by_Some by fastforce
  then have "oldest \<in> set (map fst m)" by force
  from length_bremove_less [OF this] show "((bremove oldest m, capacity), (m, capacity)) \<in> measure (\<lambda>(m, _). length m)"
    by simp
qed simp

declare prune_terminal_to_fit.simps [simp del]

text \<open>\<open>False\<close> is \<open>TransferAdmissionError::CapacityUnavailable\<close>; the pruning has happened all the same.\<close>

definition create_transfer ::
  "interchange_registry \<Rightarrow> string \<Rightarrow> interchange_transfer \<Rightarrow> nat \<Rightarrow> interchange_registry \<times> bool" where
  "create_transfer r transfer_id x capacity =
     (let r = r\<lparr>ix_transfers := prune_terminal_to_fit (ix_transfers r) capacity\<rparr>
      in if length (ix_transfers r) \<ge> capacity then (r, False)
         else (store_transfer r transfer_id x, True))"

section \<open>The registry refines the lifecycle\<close>

definition apply_artifact_effect :: "artifact_registry \<Rightarrow> artifact_effect \<Rightarrow> service_error + artifact_registry" where
  "apply_artifact_effect a effect =
     (case effect of
        RecordVerifiedLocation key node dg sz \<Rightarrow>
          (case record_verified_retaining_location a key node dg sz of
             None \<Rightarrow> Inl (Protocol ''artifact is unavailable because node-local unsynced bytes were lost'')
           | Some a \<Rightarrow> Inr a)
      | RemoveMissingSource key node \<Rightarrow> Inr (fst (remove_retaining_location a key node)))"

text \<open>
  The abstract specification: every transfer is a point of the lifecycle; a step may create one
  transfer, move transfers along permitted transitions and forget transfers that have ended.
\<close>

type_synonym lifecycle = "string \<Rightarrow> transfer_state option"

fun lifecycle_move :: "bool \<Rightarrow> transfer_state option \<Rightarrow> transfer_state option \<Rightarrow> bool" where
  "lifecycle_move created None None = True"
| "lifecycle_move created None (Some s) = (created \<and> s = SourceSelected)"
| "lifecycle_move created (Some s) None = terminal s"
| "lifecycle_move created (Some s) (Some s') = permits_transition_to s s'"

definition lifecycle_step :: "string option \<Rightarrow> lifecycle \<Rightarrow> lifecycle \<Rightarrow> bool" where
  "lifecycle_step created a b \<longleftrightarrow> (\<forall>tid. lifecycle_move (created = Some tid) (a tid) (b tid))"

definition lifecycle_of :: "interchange_registry \<Rightarrow> lifecycle" where
  "lifecycle_of r = (\<lambda>tid. map_option (\<lambda>x. tt_state (it_record x)) (bget (ix_transfers r) tid))"

text \<open>
  A well-formed transfer: both sides hold the same lease, the lease names what the record names, the
  bytes done and metered lie in the leased range, and a completed transfer has all of its bytes.
\<close>

definition lease_of_record :: "transfer_lease \<Rightarrow> transfer_record \<Rightarrow> bool" where
  "lease_of_record l r \<longleftrightarrow>
     tl_transfer_id l = tt_transfer_id r \<and> tl_tenant l = tt_tenant r \<and> tl_project l = tt_project r
     \<and> tl_process l = tt_process r \<and> tl_artifact l = tt_artifact r \<and> tl_source_node l = tt_source_node r
     \<and> tl_destination_node l = tt_destination_node r \<and> tl_size_bytes l = tt_total_bytes r
     \<and> tl_expires_at l = tt_stream_ticket_expires_at r \<and> tl_active_lease_expires_at l = tt_expires_at r"

definition transfer_ok :: "interchange_transfer \<Rightarrow> bool" where
  "transfer_ok x \<longleftrightarrow>
     (let l = destination_lease x; r = it_record x in
      xa_lease (it_provider_authorization x) = l \<and> lease_of_record l r
      \<and> tl_allowed_offset l \<le> tt_bytes_completed r \<and> tt_bytes_completed r \<le> tl_size_bytes l
      \<and> it_metered_body_bytes x \<le> sat_sub (tl_size_bytes l) (tl_allowed_offset l)
      \<and> (tt_state r = Completed \<longrightarrow> tt_bytes_completed r = tl_size_bytes l \<and> tt_failure_code r = None))"

definition transfers_ok :: "interchange_registry \<Rightarrow> bool" where
  "transfers_ok r \<longleftrightarrow> keyed (\<lambda>x. tt_transfer_id (it_record x)) (ix_transfers r)
     \<and> (\<forall>tid x. bget (ix_transfers r) tid = Some x \<longrightarrow> transfer_ok x)"

inductive transfer_step :: "interchange_registry \<Rightarrow> string option \<Rightarrow> interchange_registry \<Rightarrow> bool" where
  create: "bget (ix_transfers r) tid = None \<Longrightarrow> transfer_state_of x = SourceSelected \<Longrightarrow>
     tt_transfer_id (it_record x) = tid \<Longrightarrow> transfer_ok x \<Longrightarrow>
     transfer_step r (Some tid) (fst (create_transfer r tid x capacity))"
| report: "report_progress apply_artifact_effect r a scope tid rp now lt = (r', a', res) \<Longrightarrow> transfer_step r None r'"
| renew: "transfer_step r None (fst (renew r tenant project process artifact destination now lt))"
| poll_provider: "transfer_step r None (fst (poll_provider_assignment r scope now recovery))"
| poll_receiver: "transfer_step r None (fst (poll_receiver_assignment r scope now recovery))"
| acknowledge: "acknowledge_assignment r scope tid role now = Inr (r', st) \<Longrightarrow> transfer_step r None r'"
| cancel: "transfer_step r None (fst (cancel_process r tenant project process now))"
| hard_drain: "transfer_step r None (fst (cancel_node_for_hard_drain r scope now))"
| fail: "transfer_step r None (fail_node r scope now)"
| expire: "transfer_step r None (fst (expire_transfers r now no_progress absolute_max retention))"

inductive transfer_steps :: "interchange_registry \<Rightarrow> string option list \<Rightarrow> interchange_registry \<Rightarrow> bool" where
  nil: "transfer_steps r [] r"
| cons: "transfer_step r l r1 \<Longrightarrow> transfer_steps r1 ls r' \<Longrightarrow> transfer_steps r (l # ls) r'"

lemma permits_refl [simp]: "permits_transition_to s s"
  by (simp add: permits_transition_to_def)

lemma permits_end: "\<not> terminal s \<Longrightarrow> e \<in> {XFailed, XCancelled, XExpired} \<Longrightarrow> permits_transition_to s e"
  by (cases s) (auto simp: permits_transition_to_def terminal.simps)

lemma terminal_permits: "terminal s \<Longrightarrow> permits_transition_to s s' \<Longrightarrow> s' = s"
  by (cases s) (auto simp: permits_transition_to_def terminal.simps)

lemma lifecycle_move_refl [simp]: "lifecycle_move n s s"
  by (cases s) simp_all

lemma lifecycle_step_refl [simp]: "lifecycle_step l a a"
  by (simp add: lifecycle_step_def)

lemma lifecycle_store:
  assumes "bget (ix_transfers r) tid = Some x" and "permits_transition_to (transfer_state_of x) (transfer_state_of x')"
  shows "lifecycle_step l (lifecycle_of r) (lifecycle_of (store_transfer r tid x'))"
  using assms by (simp add: lifecycle_step_def lifecycle_of_def store_transfer_def bmap_simps)

lemma lifecycle_rewrite:
  assumes "\<And>x. p x \<Longrightarrow> permits_transition_to (transfer_state_of x) (transfer_state_of (f x))"
  shows "lifecycle_step l (lifecycle_of r) (lifecycle_of (rewrite_transfers p f r))"
proof -
  have "lifecycle_move n (map_option (\<lambda>x. transfer_state_of x) e)
      (map_option (\<lambda>x. transfer_state_of x) (map_option (\<lambda>x. if p x then f x else x) e))" for n e
    using assms by (cases e) auto
  then show ?thesis
    by (simp add: lifecycle_step_def lifecycle_of_def rewrite_transfers_def bmap_simps del: option.map_comp)
qed

lemma lifecycle_of_meter [simp]: "lifecycle_of (meter_body_bytes r path n) = lifecycle_of r"
  by (simp add: meter_body_bytes_def lifecycle_of_def split: path_kind.split)

lemma state_simps [simp]:
  "transfer_state_of (set_record f x) = tt_state (f (it_record x))"
  "transfer_state_of (map_leases g x) = transfer_state_of x"
  "transfer_state_of (mark_ready x node st) = transfer_state_of x"
  "transfer_state_of (renew_active_lease now e x) = transfer_state_of x"
  "transfer_state_of (renew_ticket e x) = transfer_state_of x"
  "transfer_state_of (reoffer_provider x) = transfer_state_of x"
  "transfer_state_of (reoffer_receiver x) = transfer_state_of x"
  "transfer_state_of (redeliver_other_side node x) = transfer_state_of x"
  "transfer_state_of (renew_transfer now lt x) = transfer_state_of x"
  "transfer_state_of (fail_relayed now x) = XFailed"
  "transfer_state_of (end_transfer st code now x) = st"
  by (simp_all add: set_record_def map_leases_def mark_ready_def renew_active_lease_def renew_ticket_def
      reoffer_provider_def reoffer_receiver_def redeliver_other_side_def renew_transfer_def fail_relayed_def
      end_transfer_def Let_def)

lemma state_commit_report [simp]:
  "transfer_state_of (commit_report x node rp now lt) = recorded_state x node (rp_state rp)"
  by (simp add: commit_report_def record_report_def Let_def)

lemma find_transfer:
  assumes "bwf (ix_transfers r)" and "find p (ix_transfers r) = Some (tid, x)"
  shows "bget (ix_transfers r) tid = Some x" and "p (tid, x)"
  using assms by (auto simp: find_Some_iff in_bget_Some)

lemma state_mark_ready_refresh [simp]:
  "provider_ready_refresh (mark_ready x node st) node' st' = provider_ready_refresh x node' st'"
  by (simp add: provider_ready_refresh_def mark_ready_def Let_def)

lemma admit_report_permits:
  assumes "admit_report x scope rp = Inr None"
  shows "\<not> terminal (transfer_state_of x)"
    and "permits_transition_to (transfer_state_of x) (recorded_state (mark_ready x (snd (snd scope)) (rp_state rp)) (snd (snd scope)) (rp_state rp))"
  using assms by (auto simp: admit_report_def Let_def recorded_state_def split: if_splits)

lemma report_lifecycle:
  assumes "report_progress ap r a scope tid rp now lt = (r', a', res)"
  shows "lifecycle_step l (lifecycle_of r) (lifecycle_of r')"
proof (cases "\<exists>x. bget (ix_transfers r) tid = Some x \<and> admit_report x scope rp = Inr None")
  case False
  with assms have "r' = r" by (auto simp: report_progress_def split: option.splits sum.splits)
  then show ?thesis by simp
next
  case True
  then obtain x where x: "bget (ix_transfers r) tid = Some x" and adm: "admit_report x scope rp = Inr None" by blast
  note ok = admit_report_permits [OF adm]
  have failed: "permits_transition_to (transfer_state_of x) XFailed" using ok(1) by (simp add: permits_end)
  from assms x adm ok(2) failed lifecycle_store [OF x] show ?thesis
    by (auto simp: report_progress_def Let_def split: if_splits sum.splits)
qed

subsection \<open>Well-formed transfers\<close>

lemma transfers_okD:
  assumes "transfers_ok r"
  shows "keyed (\<lambda>x. tt_transfer_id (it_record x)) (ix_transfers r)" and "bwf (ix_transfers r)"
    and "bget (ix_transfers r) tid = Some x \<Longrightarrow> transfer_ok x"
    and "bget (ix_transfers r) tid = Some x \<Longrightarrow> tt_transfer_id (it_record x) = tid"
  using assms by (auto simp: transfers_ok_def keyed_def)

lemma ok_store_transfer:
  assumes "transfers_ok r" and "transfer_ok x" and "tt_transfer_id (it_record x) = tid"
  shows "transfers_ok (store_transfer r tid x)"
  using assms by (auto simp: transfers_ok_def store_transfer_def bmap_simps keyed_binsert)

lemma ok_meter [simp]: "transfers_ok (meter_body_bytes r path n) = transfers_ok r"
  by (simp add: meter_body_bytes_def transfers_ok_def split: path_kind.split)

lemma sat_sub_mono1: "a \<le> b \<Longrightarrow> sat_sub a c \<le> sat_sub b c"
  by (auto simp: word_le_nat_alt unat_sat_sub)

lemmas transfer_updates = set_record_def map_leases_def mark_ready_def renew_active_lease_def renew_ticket_def
  reoffer_provider_def reoffer_receiver_def redeliver_other_side_def renew_transfer_def fail_relayed_def
  end_transfer_def record_report_def

lemma ok_updates:
  assumes "transfer_ok x"
  shows "transfer_ok (mark_ready x node st)" and "transfer_ok (renew_active_lease now e x)"
    and "transfer_ok (renew_ticket e x)" and "transfer_ok (reoffer_provider x)" and "transfer_ok (reoffer_receiver x)"
    and "transfer_ok (redeliver_other_side node x)" and "transfer_ok (fail_relayed now x)"
    and "transfer_ok (x\<lparr>it_provider_assignment := pa, it_provider_acknowledged_at := at\<rparr>)"
    and "transfer_ok (x\<lparr>it_destination_assignment := pa, it_destination_acknowledged_at := at\<rparr>)"
  using assms by (auto simp: transfer_ok_def lease_of_record_def transfer_updates Let_def)

lemma ok_end_transfer: "transfer_ok x \<Longrightarrow> st \<noteq> Completed \<Longrightarrow> transfer_ok (end_transfer st code now x)"
  by (auto simp: transfer_ok_def lease_of_record_def transfer_updates Let_def)

lemma ok_renew_transfer: "transfer_ok x \<Longrightarrow> transfer_ok (renew_transfer now lt x)"
  by (simp add: renew_transfer_def Let_def ok_updates)

lemma transfer_id_simps [simp]:
  "tt_transfer_id (it_record (mark_ready x node st)) = tt_transfer_id (it_record x)"
  "tt_transfer_id (it_record (renew_active_lease now e x)) = tt_transfer_id (it_record x)"
  "tt_transfer_id (it_record (renew_ticket e x)) = tt_transfer_id (it_record x)"
  "tt_transfer_id (it_record (reoffer_provider x)) = tt_transfer_id (it_record x)"
  "tt_transfer_id (it_record (reoffer_receiver x)) = tt_transfer_id (it_record x)"
  "tt_transfer_id (it_record (redeliver_other_side node x)) = tt_transfer_id (it_record x)"
  "tt_transfer_id (it_record (renew_transfer now lt x)) = tt_transfer_id (it_record x)"
  "tt_transfer_id (it_record (fail_relayed now x)) = tt_transfer_id (it_record x)"
  "tt_transfer_id (it_record (end_transfer st code now x)) = tt_transfer_id (it_record x)"
  "tt_transfer_id (it_record (record_report x node rp now)) = tt_transfer_id (it_record x)"
  "tt_transfer_id (it_record (commit_report x node rp now lt)) = tt_transfer_id (it_record x)"
  by (simp_all add: transfer_updates commit_report_def Let_def)

lemma ok_record_report:
  assumes ok: "transfer_ok x" and bytes: "tt_bytes_completed (it_record x) \<le> rp_bytes_completed rp"
      "rp_bytes_completed rp \<le> tl_size_bytes (destination_lease x)"
    and compl: "recorded_state x node (rp_state rp) = Completed \<Longrightarrow>
      rp_bytes_completed rp = tl_size_bytes (destination_lease x) \<and> rp_failure_code rp = None"
  shows "transfer_ok (record_report x node rp now)"
proof -
  have "body_bytes x rp \<le> sat_sub (tl_size_bytes (destination_lease x)) (tl_allowed_offset (destination_lease x))"
    using sat_sub_mono1 [OF bytes(2)] by (simp add: body_bytes_def)
  with ok bytes compl show ?thesis
    by (auto simp: transfer_ok_def lease_of_record_def record_report_def set_record_def Let_def intro: order_trans)
qed

lemma ok_commit_report:
  assumes "transfer_ok (record_report x node rp now)"
  shows "transfer_ok (commit_report x node rp now lt)"
  using assms by (auto simp: commit_report_def Let_def intro!: ok_updates)

lemma completion_effect_completed:
  "completion_effect ap a x node rp = Inr a' \<Longrightarrow> rp_state rp = Completed \<Longrightarrow> completion_proved x node rp"
  by (simp add: completion_effect_def Let_def split: if_splits)

lemma admit_report_bytes:
  assumes "admit_report x scope rp = Inr None"
  shows "tt_bytes_completed (it_record x) \<le> rp_bytes_completed rp"
    and "rp_bytes_completed rp \<le> tl_size_bytes (destination_lease x)"
  using assms by (auto simp: admit_report_def Let_def not_less split: if_splits)

lemma ok_report_progress:
  assumes ok: "transfers_ok r" and rep: "report_progress ap r a scope tid rp now lt = (r', a', res)"
  shows "transfers_ok r'"
proof (cases "\<exists>x. bget (ix_transfers r) tid = Some x \<and> admit_report x scope rp = Inr None")
  case False
  with rep have "r' = r" by (auto simp: report_progress_def split: option.splits sum.splits)
  with ok show ?thesis by simp
next
  case True
  then obtain x where x: "bget (ix_transfers r) tid = Some x" and adm: "admit_report x scope rp = Inr None" by blast
  define node where "node = snd (snd scope)"
  define y where "y = mark_ready x node (rp_state rp)"
  have y: "transfer_ok y" "tt_transfer_id (it_record y) = tid"
    using transfers_okD(3,4) [OF ok x] by (simp_all add: y_def ok_updates)
  have bytes: "tt_bytes_completed (it_record y) \<le> rp_bytes_completed rp" "rp_bytes_completed rp \<le> tl_size_bytes (destination_lease y)"
    using admit_report_bytes [OF adm] by (simp_all add: y_def mark_ready_def Let_def)
  have live: "\<not> terminal (transfer_state_of y)" using admit_report_permits(1) [OF adm] by (simp add: y_def)
  have commit: "transfer_ok (commit_report y node rp now lt)" if "completion_effect ap a y node rp = Inr a1" for a1
  proof (rule ok_commit_report, rule ok_record_report [OF y(1) bytes])
    assume "recorded_state y node (rp_state rp) = Completed"
    with live have "rp_state rp = Completed" by (auto simp: recorded_state_def terminal.simps split: if_splits)
    from completion_effect_completed [OF that this]
    show "rp_bytes_completed rp = tl_size_bytes (destination_lease y) \<and> rp_failure_code rp = None"
      by (simp add: completion_proved_def)
  qed
  from rep x adm have "r' = store_transfer r tid (fail_relayed now y) \<or> r' = store_transfer r tid y
      \<or> (\<exists>n a1. completion_effect ap a y node rp = Inr a1
           \<and> r' = meter_body_bytes (store_transfer r tid (commit_report y node rp now lt)) (rp_path_kind rp) n)"
    unfolding y_def node_def
    by (auto simp: report_progress_def Let_def split: if_splits sum.splits)
  then show ?thesis
    using ok_store_transfer [OF ok] y commit by (auto simp: ok_updates)
qed

lemma ok_rewrite_transfers:
  assumes "transfers_ok r" and "\<And>x. transfer_ok x \<Longrightarrow> transfer_ok (f x)"
    and "\<And>x. tt_transfer_id (it_record (f x)) = tt_transfer_id (it_record x)"
  shows "transfers_ok (rewrite_transfers p f r)"
  using assms unfolding transfers_ok_def rewrite_transfers_def
  by (auto simp: bmap_simps intro!: keyed_bmap_values)

lemma ok_retain_transfers:
  "transfers_ok r \<Longrightarrow> transfers_ok (r\<lparr>ix_transfers := bretain q (ix_transfers r)\<rparr>)"
  using keyed_bretain unfolding transfers_ok_def
  by (fastforce simp: bget_bretain keyed_def split: option.splits if_splits)

lemma ok_remove_transfer:
  "transfers_ok r \<Longrightarrow> transfers_ok (r\<lparr>ix_transfers := bremove k (ix_transfers r)\<rparr>)"
  unfolding transfers_ok_def by (auto simp: bmap_simps keyed_bremove)

lemma ok_prune: "transfers_ok r \<Longrightarrow> transfers_ok (r\<lparr>ix_transfers := prune_terminal_to_fit (ix_transfers r) c\<rparr>)"
proof (induction "ix_transfers r" c arbitrary: r rule: prune_terminal_to_fit.induct)
  case (1 c)
  show ?case
  proof (cases "c \<le> length (ix_transfers r)
      \<and> first_min_by (\<lambda>e. tt_updated_at (it_record (snd e)))
          (filter (\<lambda>e. terminal (transfer_state_of (snd e))) (ix_transfers r)) \<noteq> None")
    case True
    then obtain k x where c: "c \<le> length (ix_transfers r)" and m: "first_min_by (\<lambda>e. tt_updated_at (it_record (snd e)))
        (filter (\<lambda>e. terminal (transfer_state_of (snd e))) (ix_transfers r)) = Some (k, x)" by fastforce
    from 1(1) [OF c m refl, of "r\<lparr>ix_transfers := bremove k (ix_transfers r)\<rparr>"] ok_remove_transfer [OF 1(2)] c m
    show ?thesis by (subst prune_terminal_to_fit.simps) simp
  next
    case False
    with 1(2) show ?thesis by (subst prune_terminal_to_fit.simps) (auto split: option.split)
  qed
qed

text \<open>Pruning forgets ended transfers only.\<close>

lemma prune_keeps_live:
  "bwf m \<Longrightarrow> bget (prune_terminal_to_fit m c) tid = bget m tid
     \<or> (bget (prune_terminal_to_fit m c) tid = None \<and> (\<exists>x. bget m tid = Some x \<and> terminal (transfer_state_of x)))"
proof (induction m c rule: prune_terminal_to_fit.induct)
  case (1 m c)
  show ?case
  proof (cases "c \<le> length m
      \<and> first_min_by (\<lambda>e. tt_updated_at (it_record (snd e))) (filter (\<lambda>e. terminal (transfer_state_of (snd e))) m) \<noteq> None")
    case True
    then obtain k x where c: "c \<le> length m" and m: "first_min_by (\<lambda>e. tt_updated_at (it_record (snd e)))
        (filter (\<lambda>e. terminal (transfer_state_of (snd e))) m) = Some (k, x)" by fastforce
    from first_min_by_Some [OF m] have "(k, x) \<in> set m" and x: "terminal (transfer_state_of x)" by auto
    then have k: "bget m k = Some x" by (simp add: in_bget_Some [OF 1(2)])
    have eq: "prune_terminal_to_fit m c = prune_terminal_to_fit (bremove k m) c"
      using c m by (subst prune_terminal_to_fit.simps) simp
    from 1(1) [OF c m refl bwf_bremove [OF 1(2)]] k x show ?thesis
      unfolding eq by (auto simp: bmap_simps split: if_splits)
  next
    case False
    then have "prune_terminal_to_fit m c = m"
      by (subst prune_terminal_to_fit.simps) (auto split: option.split)
    then show ?thesis by simp
  qed
qed

lemma find_ok:
  assumes "transfers_ok r" and "find p (ix_transfers r) = Some (tid, x)"
  shows "transfer_ok x \<and> tt_transfer_id (it_record x) = tid \<and> bget (ix_transfers r) tid = Some x"
  using transfers_okD(3,4) [OF assms(1)] find_transfer(1) [OF transfers_okD(2) [OF assms(1)] assms(2)] by auto

lemma ok_transfer_step: "transfer_step r l r' \<Longrightarrow> transfers_ok r \<Longrightarrow> transfers_ok r'"
proof (induction rule: transfer_step.induct)
  case (create r tid x capacity)
  then show ?case using ok_prune [OF create(5)]
    by (auto simp: create_transfer_def Let_def intro: ok_store_transfer)
next
  case (report r a scope tid rp now lt r' a' res)
  from ok_report_progress [OF report(2,1)] show ?case .
next
  case (renew r tenant project process artifact destination now lt)
  then show ?case
    by (auto simp: renew_def Let_def dest: find_ok intro!: ok_store_transfer ok_renew_transfer split: option.split)
next
  case (poll_provider r scope now recovery)
  then show ?case
    by (auto simp: poll_provider_assignment_def Let_def dest: find_ok intro!: ok_store_transfer ok_updates split: option.split)
next
  case (poll_receiver r scope now recovery)
  then show ?case
    by (auto simp: poll_receiver_assignment_def Let_def dest: find_ok intro!: ok_store_transfer ok_updates split: option.split)
next
  case (acknowledge r scope tid role now r' st)
  then show ?case
    using transfers_okD(3,4) [OF acknowledge(2)]
    by (auto simp: acknowledge_assignment_def ok_updates intro!: ok_store_transfer split: option.splits if_splits prod.splits)
next
  case (expire r now no_progress absolute_max retention)
  then show ?case unfolding expire_transfers_def Let_def fst_conv
    by (intro ok_retain_transfers ok_rewrite_transfers) (auto simp: ok_end_transfer)
qed (auto simp: cancel_process_def cancel_node_for_hard_drain_def fail_node_def Let_def ok_end_transfer
    intro!: ok_rewrite_transfers)

lemma lifecycle_prune:
  assumes "transfers_ok r"
  shows "lifecycle_step l (lifecycle_of r) (lifecycle_of (r\<lparr>ix_transfers := prune_terminal_to_fit (ix_transfers r) c\<rparr>))"
  unfolding lifecycle_step_def
proof
  fix tid
  from prune_keeps_live [OF transfers_okD(2) [OF assms], of c tid]
  show "lifecycle_move (l = Some tid) (lifecycle_of r tid)
      (lifecycle_of (r\<lparr>ix_transfers := prune_terminal_to_fit (ix_transfers r) c\<rparr>) tid)"
    by (auto simp: lifecycle_of_def)
qed

lemma lifecycle_move_mono: "lifecycle_move False a b \<Longrightarrow> lifecycle_move n a b"
  by (cases "(n, a, b)" rule: lifecycle_move.cases) auto

lemma lifecycle_step_insert:
  assumes "lifecycle_step None a b" and "a tid = None"
  shows "lifecycle_step (Some tid) a (b(tid \<mapsto> SourceSelected))"
  using assms lifecycle_move_mono by (auto simp: lifecycle_step_def)

lemma lifecycle_retain:
  assumes step: "lifecycle_step l a (lifecycle_of r)" and bwf: "bwf (ix_transfers r)"
    and gone: "\<And>tid x. bget (ix_transfers r) tid = Some x \<Longrightarrow> \<not> q tid x \<Longrightarrow> a tid = Some (transfer_state_of x) \<and> terminal (transfer_state_of x)"
  shows "lifecycle_step l a (lifecycle_of (r\<lparr>ix_transfers := bretain q (ix_transfers r)\<rparr>))"
  unfolding lifecycle_step_def
proof
  fix tid
  have old: "lifecycle_move (l = Some tid) (a tid) (lifecycle_of r tid)" using step by (simp add: lifecycle_step_def)
  show "lifecycle_move (l = Some tid) (a tid) (lifecycle_of (r\<lparr>ix_transfers := bretain q (ix_transfers r)\<rparr>) tid)"
  proof (cases "bget (ix_transfers r) tid")
    case None
    with old show ?thesis by (simp add: lifecycle_of_def bget_bretain [OF bwf])
  next
    case (Some x)
    with old gone [OF Some] show ?thesis
      by (cases "q tid x") (simp_all add: lifecycle_of_def bget_bretain [OF bwf])
  qed
qed

lemma transfer_step_refines:
  "transfer_step r l r' \<Longrightarrow> transfers_ok r \<Longrightarrow> lifecycle_step l (lifecycle_of r) (lifecycle_of r')"
proof (induction rule: transfer_step.induct)
  case (create r tid x capacity)
  define p where "p = r\<lparr>ix_transfers := prune_terminal_to_fit (ix_transfers r) capacity\<rparr>"
  have p: "lifecycle_step l (lifecycle_of r) (lifecycle_of p)" for l
    unfolding p_def by (rule lifecycle_prune [OF create(5)])
  have "lifecycle_of (store_transfer p tid x) = (lifecycle_of p)(tid \<mapsto> SourceSelected)"
    using create(2) by (auto simp: lifecycle_of_def store_transfer_def bmap_simps)
  with lifecycle_step_insert [OF p, of tid] create(1)
  have "lifecycle_step (Some tid) (lifecycle_of r) (lifecycle_of (store_transfer p tid x))" by (simp add: lifecycle_of_def)
  with p show ?case by (simp add: create_transfer_def Let_def p_def)
next
  case (report r a scope tid rp now lt r' a' res)
  from report_lifecycle [OF report(1)] show ?case .
next
  case (renew r tenant project process artifact destination now lt)
  then show ?case
    by (auto simp: renew_def Let_def dest: find_ok intro!: lifecycle_store split: option.split)
next
  case (poll_provider r scope now recovery)
  then show ?case
    by (auto simp: poll_provider_assignment_def Let_def dest: find_ok intro!: lifecycle_store split: option.split)
next
  case (poll_receiver r scope now recovery)
  then show ?case
    by (auto simp: poll_receiver_assignment_def Let_def dest: find_ok intro!: lifecycle_store split: option.split)
next
  case (acknowledge r scope tid role now r' st)
  then show ?case
    by (auto simp: acknowledge_assignment_def intro!: lifecycle_store split: option.splits if_splits prod.splits)
next
  case (expire r now no_progress absolute_max retention)
  let ?p = "overdue now no_progress absolute_max" and ?e = "end_transfer XExpired TransferLeaseExpired now"
  let ?r1 = "rewrite_transfers ?p ?e r"
  have step: "lifecycle_step None (lifecycle_of r) (lifecycle_of ?r1)"
    by (rule lifecycle_rewrite) (auto simp: overdue_def Let_def permits_end)
  have bwf: "bwf (ix_transfers ?r1)" using transfers_okD(2) [OF expire] by (simp add: rewrite_transfers_def)
  have keep: "sat_add now retention \<ge> now" by (simp add: sat_simps)
  have gone: "lifecycle_of r tid = Some (transfer_state_of x) \<and> terminal (transfer_state_of x)"
    if get: "bget (ix_transfers ?r1) tid = Some x"
      and stale: "\<not> (transfer_live x \<or> sat_add (tt_updated_at (it_record x)) retention \<ge> now)" for tid x
  proof -
    from get obtain y where y: "bget (ix_transfers r) tid = Some y" and xy: "x = (if ?p y then ?e y else y)"
      by (auto simp: rewrite_transfers_def bmap_simps)
    have "tt_updated_at (it_record (?e y)) = now" by (simp add: end_transfer_def set_record_def)
    with stale keep xy have "x = y" by (auto split: if_splits)
    with y stale show ?thesis by (simp add: lifecycle_of_def)
  qed
  show ?case unfolding expire_transfers_def Let_def fst_conv by (rule lifecycle_retain [OF step bwf gone])
qed (auto simp: cancel_process_def cancel_node_for_hard_drain_def fail_node_def Let_def of_active_process_def
    transfer_matches_active_node_def permits_end intro!: lifecycle_rewrite)

subsection \<open>What every lifecycle machine promises\<close>

text \<open>
  A machine whose steps map to lifecycle steps: an ended transfer never moves again, and a transfer
  that has not ended is never forgotten.
\<close>

locale lifecycle_machine =
  fixes good :: "'r \<Rightarrow> bool" and step :: "'r \<Rightarrow> string option \<Rightarrow> 'r \<Rightarrow> bool" and phase :: "'r \<Rightarrow> lifecycle"
  assumes keeps: "good r \<Longrightarrow> step r l r' \<Longrightarrow> good r'"
    and refines: "good r \<Longrightarrow> step r l r' \<Longrightarrow> lifecycle_step l (phase r) (phase r')"
begin

inductive run :: "'r \<Rightarrow> string option list \<Rightarrow> 'r \<Rightarrow> bool" where
  stop: "run r [] r"
| go: "step r l r1 \<Longrightarrow> run r1 ls r' \<Longrightarrow> run r (l # ls) r'"

lemma uncreated_moves:
  assumes "good r" and "step r l r'" and "l \<noteq> Some tid"
  shows "lifecycle_move False (phase r tid) (phase r' tid)"
  using refines [OF assms(1,2), unfolded lifecycle_step_def, rule_format, of tid] assms(3) by simp

lemma ended_stays:
  "run r ls r' \<Longrightarrow> good r \<Longrightarrow> Some tid \<notin> set ls \<Longrightarrow>
     phase r tid = None \<or> (\<exists>s. phase r tid = Some s \<and> terminal s) \<Longrightarrow> phase r' tid = phase r tid \<or> phase r' tid = None"
proof (induction rule: run.induct)
  case (go r l r1 ls r')
  have "lifecycle_move False (phase r tid) (phase r1 tid)" using uncreated_moves [OF go(4,1)] go(5) by auto
  with go(6) have "phase r1 tid = phase r tid \<or> phase r1 tid = None"
    by (cases "(False, phase r tid, phase r1 tid)" rule: lifecycle_move.cases) (auto dest: terminal_permits)
  with go.IH [OF keeps [OF go(4,1)]] go(5,6) show ?case by auto
qed simp

lemma live_not_lost:
  "run r ls r' \<Longrightarrow> good r \<Longrightarrow> Some tid \<notin> set ls \<Longrightarrow> phase r tid = Some s \<Longrightarrow>
     (\<exists>s'. phase r' tid = Some s' \<and> permits_transition_to\<^sup>*\<^sup>* s s')
     \<or> (phase r' tid = None \<and> (\<exists>s'. terminal s' \<and> permits_transition_to\<^sup>*\<^sup>* s s'))"
proof (induction arbitrary: s rule: run.induct)
  case (go r l r1 ls r')
  have move: "lifecycle_move False (phase r tid) (phase r1 tid)" using uncreated_moves [OF go(4,1)] go(5) by auto
  show ?case
  proof (cases "phase r1 tid")
    case None
    with move go(6) have "terminal s" by simp
    moreover have "phase r' tid = None" using ended_stays [OF go(2) keeps [OF go(4,1)], of tid] go(5) None by auto
    ultimately show ?thesis by blast
  next
    case (Some s1)
    with move go(6) have "permits_transition_to s s1" by simp
    with go.IH [OF keeps [OF go(4,1)] _ Some] go(5) show ?thesis
      by (auto intro: converse_rtranclp_into_rtranclp)
  qed
qed auto

end

interpretation transfers: lifecycle_machine transfers_ok transfer_step lifecycle_of
  by unfold_locales (simp_all add: ok_transfer_step transfer_step_refines)

lemma transfer_steps_run: "transfer_steps r ls r' \<Longrightarrow> transfers.run r ls r'"
  by (induction rule: transfer_steps.induct) (auto intro: transfers.run.intros)

lemma ok_transfer_steps: "transfer_steps r ls r' \<Longrightarrow> transfers_ok r \<Longrightarrow> transfers_ok r'"
  by (induction rule: transfer_steps.induct) (auto dest: ok_transfer_step)

lemma ok_interchange_default: "transfers_ok interchange_registry_default"
  by (simp add: transfers_ok_def interchange_registry_default_def)

definition example_lease :: transfer_lease where
  "example_lease = \<lparr>tl_transfer_id = ''x1'', tl_tenant = ''t'', tl_project = ''p'', tl_process = ''q'',
     tl_artifact = ''app.tar'', tl_digest = ''sha256:1'', tl_size_bytes = 10, tl_source_node = ''n1'',
     tl_source_endpoint_id = ''e1'', tl_destination_node = ''n2'', tl_destination_endpoint_id = ''e2'',
     tl_allowed_offset = 0, tl_maximum_bytes = 10, tl_relay_policy = DirectRequired,
     tl_direct_path_deadline_ms = 20000, tl_expires_at = 220, tl_active_lease_expires_at = 700, tl_nonce = ''z''\<rparr>"

definition example_transfer :: "transfer_state \<Rightarrow> interchange_transfer" where
  "example_transfer st =
     (let peer = (\<lambda>n e. \<lparr>pe_node = n, pe_endpoint_id = e, pe_generation = 1, pe_direct_addresses = [], pe_relay_urls = []\<rparr>)
      in \<lparr>it_record = \<lparr>tt_transfer_id = ''x1'', tt_tenant = ''t'', tt_project = ''p'', tt_process = ''q'',
           tt_artifact = ''app.tar'', tt_source_node = ''n1'', tt_destination_node = ''n2'', tt_bytes_completed = 0,
           tt_path_kind = PathUnknown, tt_state = st, tt_created_at = 100, tt_updated_at = 100,
           tt_expires_at = 700, tt_stream_ticket_expires_at = 220, tt_last_progress_at = 100, tt_total_bytes = 10,
           tt_phase = phase_of st, tt_failure_code = None, tt_attempt_count = 1\<rparr>,
         it_destination_authorization = \<lparr>xa_lease = example_lease, xa_transfer_secret = ''s'', xa_peer = peer ''n1'' ''e1''\<rparr>,
         it_provider_authorization = \<lparr>xa_lease = example_lease, xa_transfer_secret = ''s'', xa_peer = peer ''n2'' ''e2''\<rparr>,
         it_destination_assignment = AOffered, it_provider_assignment = AOffered,
         it_destination_acknowledged_at = None, it_provider_acknowledged_at = None, it_metered_body_bytes = 0\<rparr>)"

definition example_interchange :: interchange_registry where
  "example_interchange = fst (create_transfer interchange_registry_default ''x1'' (example_transfer SourceSelected) 4096)"

lemma example_transfer_ok: "st \<noteq> Completed \<Longrightarrow> transfer_ok (example_transfer st)"
  by (simp add: transfer_ok_def lease_of_record_def example_transfer_def example_lease_def Let_def)

lemma example_interchange_step: "transfer_step interchange_registry_default (Some ''x1'') example_interchange"
  unfolding example_interchange_def
  by (rule transfer_step.create)
    (simp_all add: interchange_registry_default_def example_transfer_ok, simp_all add: example_transfer_def Let_def)

lemma example_interchange_steps: "transfer_steps interchange_registry_default [Some ''x1''] example_interchange"
  by (rule transfer_steps.cons [OF example_interchange_step transfer_steps.nil])

text \<open>
  C28. The transfer registry refines the transfer lifecycle: every operation creates at most the transfer it
  names, in state \<open>SourceSelected\<close>, moves every other transfer along a transition \<open>permits_transition_to\<close>
  allows, and forgets only transfers that have ended.
\<close>

theorem registry_refines_lifecycle:
  assumes "transfers_ok r" and "transfer_step r created r'"
  shows "transfers_ok r' \<and> lifecycle_step created (lifecycle_of r) (lifecycle_of r')"
  using ok_transfer_step [OF assms(2,1)] transfer_step_refines [OF assms(2,1)] by simp

theorem registry_refines_lifecycle_witness:
  "transfers_ok example_interchange
   \<and> lifecycle_step (Some ''x1'') (lifecycle_of interchange_registry_default) (lifecycle_of example_interchange)"
  by (rule registry_refines_lifecycle [OF ok_interchange_default example_interchange_step])

text \<open>
  C29. A transfer that has ended stays ended: along any operations that do not issue its identifier again, its
  state is unchanged until the registry forgets it.
\<close>

theorem ended_transfer_final:
  assumes "transfer_steps interchange_registry_default ls0 r" and "transfer_steps r ls r'"
    and "Some tid \<notin> set ls" and "lifecycle_of r tid = Some s" and "terminal s"
  shows "lifecycle_of r' tid = Some s \<or> lifecycle_of r' tid = None"
  using transfers.ended_stays [OF transfer_steps_run [OF assms(2)] ok_transfer_steps [OF assms(1) ok_interchange_default] assms(3)]
    assms(4,5) by auto

theorem ended_transfer_final_witness:
  "let r = fst (cancel_process example_interchange ''t'' ''p'' ''q'' 150);
       r' = fst (expire_transfers r 2000 300 None 600)
   in lifecycle_of r ''x1'' = Some XCancelled \<and> (lifecycle_of r' ''x1'' = Some XCancelled \<or> lifecycle_of r' ''x1'' = None)"
proof -
  define r where "r = fst (cancel_process example_interchange ''t'' ''p'' ''q'' 150)"
  have ended: "lifecycle_of r ''x1'' = Some XCancelled" unfolding r_def by code_simp
  have r: "transfer_steps interchange_registry_default [Some ''x1'', None] r" unfolding r_def
    by (rule transfer_steps.cons [OF example_interchange_step transfer_steps.cons [OF transfer_step.cancel transfer_steps.nil]])
  have "transfer_steps r [None] (fst (expire_transfers r 2000 300 None 600))"
    by (rule transfer_steps.cons [OF transfer_step.expire transfer_steps.nil])
  from ended_transfer_final [OF r this _ ended] show ?thesis
    using ended unfolding r_def [symmetric] Let_def by (simp add: terminal.simps)
qed

text \<open>
  C30. No transfer outlives its lease: after an expiry at time \<open>now\<close>, every transfer still under way has an
  unexpired lease, has reported progress within the timeout and is younger than the absolute maximum, and every
  overdue transfer is expired. The sweep touches nothing else: a transfer that is not overdue keeps its record,
  except that an ended one is forgotten once its retention is over. The holds returned for release are exactly
  those of the transfers it expired.
\<close>

theorem expiry_ends_stalled_transfers:
  assumes "transfers_ok r"
  shows "let (r', holds) = expire_transfers r now no_progress absolute_max retention in
      (\<forall>tid x. bget (ix_transfers r') tid = Some x \<longrightarrow> \<not> overdue now no_progress absolute_max x)
      \<and> (\<forall>tid x. bget (ix_transfers r) tid = Some x \<longrightarrow>
           (if overdue now no_progress absolute_max x then lifecycle_of r' tid = Some XExpired
            else bget (ix_transfers r') tid =
                   (if transfer_live x \<or> sat_add (tt_updated_at (it_record x)) retention \<ge> now then Some x else None)))
      \<and> set holds = {active_hold x | tid x. bget (ix_transfers r) tid = Some x \<and> overdue now no_progress absolute_max x}"
proof -
  let ?p = "overdue now no_progress absolute_max" and ?e = "end_transfer XExpired TransferLeaseExpired now"
  let ?q = "\<lambda>_ x. transfer_live x \<or> sat_add (tt_updated_at (it_record x)) retention \<ge> now"
  have bwf: "bwf (ix_transfers (rewrite_transfers ?p ?e r))"
    using transfers_okD(2) [OF assms] by (simp add: rewrite_transfers_def)
  have get: "bget (ix_transfers (fst (expire_transfers r now no_progress absolute_max retention))) tid =
      (case bget (ix_transfers r) tid of None \<Rightarrow> None
       | Some y \<Rightarrow> let x = (if ?p y then ?e y else y) in if ?q tid x then Some x else None)" for tid
    unfolding expire_transfers_def Let_def fst_conv
    by (simp add: bget_bretain [OF bwf]) (simp add: rewrite_transfers_def bmap_simps split: option.split)
  have ended: "\<not> ?p (?e y)" "tt_updated_at (it_record (?e y)) = now" "transfer_state_of (?e y) = XExpired" for y
    by (auto simp: overdue_def Let_def terminal.simps end_transfer_def set_record_def)
  have keep: "sat_add now retention \<ge> now" by (simp add: sat_simps)
  define r' where "r' = fst (expire_transfers r now no_progress absolute_max retention)"
  have "\<not> ?p x" if "bget (ix_transfers r') tid = Some x" for tid x
    using that ended(1) by (auto simp: r'_def get Let_def split: option.splits if_splits)
  moreover have "lifecycle_of r' tid = Some XExpired" if "bget (ix_transfers r) tid = Some x" "?p x" for tid x
    using that ended keep by (simp add: r'_def get lifecycle_of_def)
  moreover have "bget (ix_transfers r') tid = (if ?q tid x then Some x else None)"
    if "bget (ix_transfers r) tid = Some x" "\<not> ?p x" for tid x
    using that by (simp add: r'_def get)
  moreover have "set (selected ?p r) = {x. \<exists>tid. bget (ix_transfers r) tid = Some x \<and> ?p x}"
    using in_bget_Some [OF transfers_okD(2) [OF assms]] bget_Some_in by (force simp: selected_def)
  moreover have "expire_transfers r now no_progress absolute_max retention = (r', map active_hold (selected ?p r))"
    by (simp add: r'_def expire_transfers_def Let_def)
  ultimately show ?thesis by (auto simp: image_Collect)
qed

theorem expiry_ends_stalled_transfers_witness:
  "let (r', holds) = expire_transfers example_interchange 401 300 None 600 in
     lifecycle_of r' ''x1'' = Some XExpired \<and> ((''t'', ''p'', ''app.tar''), ActiveTransfer ''x1'') \<in> set holds"
proof -
  have "transfers_ok example_interchange" by (rule ok_transfer_steps [OF example_interchange_steps ok_interchange_default])
  from expiry_ends_stalled_transfers [OF this, of 401 300 None 600]
  have ends: "bget (ix_transfers example_interchange) tid = Some x \<Longrightarrow> overdue 401 300 None x \<Longrightarrow>
      lifecycle_of (fst (expire_transfers example_interchange 401 300 None 600)) tid = Some XExpired
      \<and> active_hold x \<in> set (snd (expire_transfers example_interchange 401 300 None 600))" for tid x
    unfolding Let_def split_beta by (metis (mono_tags, lifting) mem_Collect_eq)
  have x: "bget (ix_transfers example_interchange) ''x1'' = Some (example_transfer SourceSelected)"
    "overdue 401 300 None (example_transfer SourceSelected)"
    and hold: "active_hold (example_transfer SourceSelected) = ((''t'', ''p'', ''app.tar''), ActiveTransfer ''x1'')"
    by code_simp+
  from ends [OF x] hold show ?thesis by (simp add: split_beta Let_def)
qed

subsection \<open>A renewed ticket may outlast its lease\<close>

text \<open>
  Renewing the stream ticket of a transfer that is already moving bytes leaves the active lease as it is, so
  the ticket may end after the lease; the lease then fails the bounds both nodes check before they use it.
\<close>

lemma renewed_lease_rejected:
  assumes "transfer_ok x" and "transfer_state_of x \<in> {Transferring, Verifying}"
    and "tt_expires_at (it_record x) < sat_add now (lt_ticket_ttl lt)" and "tt_expires_at (it_record x) \<noteq> 0"
    and "lt_ticket_ttl lt \<le> lt_active_ttl lt" and "lt_absolute_max lt = None"
  shows "validate_lease_bounds (destination_lease (renew_transfer now lt x)) \<noteq> Inr ()"
proof -
  have "sat_add now (lt_ticket_ttl lt) \<le> sat_add now (lt_active_ttl lt)" using assms(5) by (simp add: sat_add_mono)
  then have "tl_expires_at (destination_lease (renew_transfer now lt x)) = sat_add now (lt_ticket_ttl lt)"
    using assms(2,6) by (auto simp: renew_transfer_def renewed_expiry_def transfer_updates Let_def)
  moreover have "tl_active_lease_expires_at (destination_lease (renew_transfer now lt x)) = tt_expires_at (it_record x)"
    using assms(1,2) by (auto simp: renew_transfer_def transfer_updates Let_def transfer_ok_def lease_of_record_def)
  ultimately show ?thesis using assms(3,4)
    by (auto simp: validate_lease_bounds_def split: sum.split)
qed

end
