(* ===== verification/CF_Vfs.thy ===== *)
theory CF_Vfs
  imports CF_Ids
begin

text \<open>
  The virtual file system of a task and its restart checkpoints (\<open>clusterflux-core/src/vfs.rs\<close> and
  \<open>checkpoint.rs\<close>): validated paths, the overlay whose writes become visible only by a flush, the manifests
  it publishes, and the policy that decides whether a task restarts from a checkpoint.
\<close>

section \<open>Paths\<close>

type_synonym vfs_path = string

definition max_vfs_path_bytes :: nat where
  "max_vfs_path_bytes = 4096"

text \<open>\<open>str::split\<close> at a character: the empty text has one empty component.\<close>

fun str_split :: "char \<Rightarrow> string \<Rightarrow> string list" where
  "str_split sep [] = [[]]"
| "str_split sep (c # cs) =
     (if c = sep then [] # str_split sep cs
      else case str_split sep cs of [] \<Rightarrow> [[c]] | w # ws \<Rightarrow> (c # w) # ws)"

datatype vfs_error = InvalidPath string string | NotVisible vfs_path

definition vfs_root :: string where
  "vfs_root = ''/vfs/''"

definition vfs_path_new :: "string \<Rightarrow> vfs_error + vfs_path" where
  "vfs_path_new path =
     (if take (length vfs_root) path \<noteq> vfs_root then Inl (InvalidPath path ''path must start with /vfs/'')
      else if length path > max_vfs_path_bytes then Inl (InvalidPath path ''path exceeds the 4096-byte protocol limit'')
      else if has_control (map of_char path) then Inl (InvalidPath path ''control characters are forbidden'')
      else if char_of (92::nat) \<in> set path then Inl (InvalidPath path ''backslashes are forbidden'')
      else let relative = drop (length vfs_root) path in
        if relative = [] then Inl (InvalidPath path ''path after /vfs/ must not be empty'')
        else if list_ex (\<lambda>component. component = [] \<or> component = ''.'' \<or> component = ''..'') (str_split (CHR ''/'') relative)
        then Inl (InvalidPath path
                (''empty, '' @ [CHR 0x27, CHR ''.'', CHR 0x27] @ '', and '' @ [CHR 0x27, CHR ''.'', CHR ''.'', CHR 0x27]
                 @ '' path components are forbidden''))
        else Inr path)"

section \<open>Objects, manifests and the overlay\<close>

record vfs_object =
  vo_path :: vfs_path
  vo_digest :: digest
  vo_size :: u64
  vo_producer :: task_instance_id
  vo_node :: node_id

record vfs_manifest =
  vm_epoch :: u64
  vm_producer :: task_instance_id
  vm_node :: node_id
  vm_objects :: "(vfs_path, vfs_object) bmap"
  vm_large_bytes_uploaded :: bool

datatype sync_policy = MetadataOnly | SyncExplicitNode node_id | SyncExplicitStore string

datatype vfs_sync_decision = NoBytesMoved | MoveBytesToNode node_id | MoveBytesToStore string

datatype reuse_decision = SameNodeZeroCopy | NeedsTransfer node_id node_id | ReuseUnavailable

record vfs_overlay =
  ov_task :: task_instance_id
  ov_node :: node_id
  ov_epoch :: u64
  ov_pending :: "(vfs_path, vfs_object) bmap"
  ov_published :: "(vfs_path, vfs_object) bmap"

definition overlay_new :: "task_instance_id \<Rightarrow> node_id \<Rightarrow> vfs_overlay" where
  "overlay_new task node = \<lparr>ov_task = task, ov_node = node, ov_epoch = 0, ov_pending = [], ov_published = []\<rparr>"

definition overlay_write :: "vfs_overlay \<Rightarrow> vfs_path \<Rightarrow> digest \<Rightarrow> u64 \<Rightarrow> vfs_overlay \<times> vfs_object" where
  "overlay_write v path d n =
     (let object = \<lparr>vo_path = path, vo_digest = d, vo_size = n, vo_producer = ov_task v, vo_node = ov_node v\<rparr>
      in (v\<lparr>ov_pending := binsert path object (ov_pending v)\<rparr>, object))"

text \<open>\<open>BTreeMap::append\<close> moves every entry, replacing those of the same key.\<close>

definition bappend :: "('k::linorder, 'v) bmap \<Rightarrow> ('k, 'v) bmap \<Rightarrow> ('k, 'v) bmap" where
  "bappend m others = fold (\<lambda>e m. binsert (fst e) (snd e) m) others m"

definition overlay_flush :: "vfs_overlay \<Rightarrow> vfs_overlay \<times> vfs_manifest" where
  "overlay_flush v =
     (let v = v\<lparr>ov_epoch := ov_epoch v + 1, ov_published := bappend (ov_published v) (ov_pending v), ov_pending := []\<rparr>
      in (v, \<lparr>vm_epoch = ov_epoch v, vm_producer = ov_task v, vm_node = ov_node v, vm_objects = ov_published v,
              vm_large_bytes_uploaded = False\<rparr>))"

fun overlay_sync :: "vfs_overlay \<Rightarrow> sync_policy \<Rightarrow> vfs_sync_decision" where
  "overlay_sync v MetadataOnly = NoBytesMoved"
| "overlay_sync v (SyncExplicitNode node) = MoveBytesToNode node"
| "overlay_sync v (SyncExplicitStore store) = MoveBytesToStore store"

definition read_published :: "vfs_manifest \<Rightarrow> vfs_path \<Rightarrow> vfs_error + vfs_object" where
  "read_published manifest path =
     (case bget (vm_objects manifest) path of None \<Rightarrow> Inl (NotVisible path) | Some object \<Rightarrow> Inr object)"

definition reuse_for_consumer :: "vfs_manifest \<Rightarrow> vfs_path \<Rightarrow> node_id \<Rightarrow> reuse_decision" where
  "reuse_for_consumer manifest path consumer_node =
     (case bget (vm_objects manifest) path of
        None \<Rightarrow> ReuseUnavailable
      | Some object \<Rightarrow> if vo_node object = consumer_node then SameNodeZeroCopy else NeedsTransfer (vo_node object) consumer_node)"

definition discard_unflushed :: "vfs_overlay \<Rightarrow> vfs_overlay" where
  "discard_unflushed v = v\<lparr>ov_pending := []\<rparr>"

section \<open>Restart checkpoints\<close>

record checkpoint_boundary =
  cb_task_entrypoint :: string
  cb_serialized_args :: digest
  cb_environment_digest :: digest
  cb_vfs_epoch :: u64
  cb_task_abi :: digest

record task_checkpoint =
  tc_task :: task_instance_id
  tc_boundary :: checkpoint_boundary
  tc_vfs_manifest :: vfs_manifest
  tc_depends_on_live_stack :: bool
  tc_depends_on_live_socket :: bool
  tc_depends_on_ephemeral_artifact_durability :: bool

record restart_request =
  rr_task :: task_instance_id
  rr_entrypoint :: string
  rr_serialized_args :: digest
  rr_environment_digest :: digest
  rr_task_abi :: digest
  rr_source_edited :: bool

datatype restart_decision =
    RestartTask task_instance_id u64 bool
  | RestartWholeVirtualProcess string

datatype compatibility_failure =
    FailEntrypoint | FailArgs | FailEnvironment | FailTaskAbi | FailLiveStack | FailLiveSocket
  | FailEphemeralArtifactDurability

fun compatibility_failure_text :: "compatibility_failure \<Rightarrow> string" where
  "compatibility_failure_text FailEntrypoint = ''task entrypoint changed''"
| "compatibility_failure_text FailArgs = ''serialized task arguments changed''"
| "compatibility_failure_text FailEnvironment = ''environment digest changed''"
| "compatibility_failure_text FailTaskAbi = ''task ABI changed''"
| "compatibility_failure_text FailLiveStack = ''checkpoint depends on unsupported live stack migration''"
| "compatibility_failure_text FailLiveSocket = ''checkpoint depends on unsupported live socket checkpointing''"
| "compatibility_failure_text FailEphemeralArtifactDurability =
     ''checkpoint incorrectly treats ephemeral artifacts as durable''"

definition compatibility_failure_of :: "task_checkpoint \<Rightarrow> restart_request \<Rightarrow> compatibility_failure option" where
  "compatibility_failure_of c request =
     (if tc_depends_on_live_stack c then Some FailLiveStack
      else if tc_depends_on_live_socket c then Some FailLiveSocket
      else if tc_depends_on_ephemeral_artifact_durability c then Some FailEphemeralArtifactDurability
      else if cb_task_entrypoint (tc_boundary c) \<noteq> rr_entrypoint request then Some FailEntrypoint
      else if cb_serialized_args (tc_boundary c) \<noteq> rr_serialized_args request then Some FailArgs
      else if cb_environment_digest (tc_boundary c) \<noteq> rr_environment_digest request then Some FailEnvironment
      else if cb_task_abi (tc_boundary c) \<noteq> rr_task_abi request then Some FailTaskAbi
      else None)"

definition restart_decide :: "task_checkpoint \<Rightarrow> restart_request \<Rightarrow> restart_decision" where
  "restart_decide c request =
     (case compatibility_failure_of c request of
        None \<Rightarrow> RestartTask (tc_task c) (cb_vfs_epoch (tc_boundary c)) True
      | Some failure \<Rightarrow>
        RestartWholeVirtualProcess
          (''cannot restart selected task `'' @ tc_task c @ ''` from checkpoint: '' @ compatibility_failure_text failure
           @ ''; restart the whole virtual process''))"

section \<open>Lemmas\<close>

lemma str_split_not_Nil [simp]: "str_split sep cs \<noteq> []"
  by (induction cs) (auto split: list.split)

text \<open>The components are the text between the separators, in order.\<close>

lemma str_split_join: "concat (map (\<lambda>w. sep # w) (str_split sep cs)) = sep # cs"
proof (induction cs)
  case (Cons c cs)
  then show ?case by (cases "str_split sep cs") auto
qed simp

lemma str_split_no_sep: "w \<in> set (str_split sep cs) \<Longrightarrow> sep \<notin> set w"
proof (induction cs arbitrary: w)
  case (Cons c cs)
  then show ?case by (cases "str_split sep cs") (auto split: if_splits)
qed simp

lemma if_Inl_Inr: "(if c then Inl e else x) = Inr y \<longleftrightarrow> \<not> c \<and> x = Inr y"
  by simp

lemma vfs_path_new_Inr:
  "vfs_path_new path = Inr p \<longleftrightarrow> p = path \<and> take (length vfs_root) path = vfs_root \<and> length path \<le> max_vfs_path_bytes
     \<and> \<not> has_control (map of_char path) \<and> char_of (92::nat) \<notin> set path \<and> drop (length vfs_root) path \<noteq> []
     \<and> list_all (\<lambda>component. component \<noteq> [] \<and> component \<noteq> ''.'' \<and> component \<noteq> ''..'')
          (str_split (CHR ''/'') (drop (length vfs_root) path))"
proof -
  have neg: "\<not> list_ex (\<lambda>c. c = [] \<or> c = ''.'' \<or> c = ''..'') ws \<longleftrightarrow> list_all (\<lambda>c. c \<noteq> [] \<and> c \<noteq> ''.'' \<and> c \<noteq> ''..'') ws" for ws
    by (induction ws) auto
  show ?thesis unfolding vfs_path_new_def Let_def if_Inl_Inr neg sum.inject not_less not_not by blast
qed

lemma bget_bappend: "bwf others \<Longrightarrow> bget (bappend m others) k = (case bget others k of Some v \<Rightarrow> Some v | None \<Rightarrow> bget m k)"
proof (induction others arbitrary: m)
  case Nil
  then show ?case by (simp add: bappend_def)
next
  case (Cons e others)
  then have "k = fst e \<Longrightarrow> bget others k = None" and "bwf others"
    by (auto simp: bwf_def map_of_eq_None_iff)
  with Cons.IH [of "binsert (fst e) (snd e) m"] show ?case
    by (cases e) (auto simp: bappend_def bget_binsert split: option.split)
qed

lemma bwf_bappend: "bwf m \<Longrightarrow> bwf (bappend m others)"
  unfolding bappend_def by (induction others arbitrary: m) (simp_all add: bwf_binsert)

text \<open>A write stays invisible until a flush; a flush publishes the last write of every path and loses no earlier one.\<close>

lemma flush_publishes:
  assumes "bwf (ov_pending v)"
  shows "read_published (snd (overlay_flush v)) path =
     (case bget (ov_pending v) path of
        Some object \<Rightarrow> Inr object
      | None \<Rightarrow> (case bget (ov_published v) path of Some object \<Rightarrow> Inr object | None \<Rightarrow> Inl (NotVisible path)))"
  using assms by (simp add: overlay_flush_def Let_def read_published_def bget_bappend split: option.split)

lemma write_then_flush:
  assumes "bwf (ov_pending v)"
  shows "read_published (snd (overlay_flush (fst (overlay_write v path d n)))) path = Inr (snd (overlay_write v path d n))"
  using assms by (simp add: flush_publishes overlay_write_def Let_def bwf_binsert bget_binsert)

lemma restart_decide_iff:
  "(\<exists>task epoch discard. restart_decide c request = RestartTask task epoch discard) \<longleftrightarrow>
     \<not> tc_depends_on_live_stack c \<and> \<not> tc_depends_on_live_socket c \<and> \<not> tc_depends_on_ephemeral_artifact_durability c
     \<and> cb_task_entrypoint (tc_boundary c) = rr_entrypoint request \<and> cb_serialized_args (tc_boundary c) = rr_serialized_args request
     \<and> cb_environment_digest (tc_boundary c) = rr_environment_digest request \<and> cb_task_abi (tc_boundary c) = rr_task_abi request"
  by (auto simp: restart_decide_def compatibility_failure_of_def)

end
