(* ===== verification/CF_Assignments.thy ===== *)
theory CF_Assignments
  imports CF_Replay CF_Vfs
begin

text \<open>
  The durable authority of assignments: offer, acknowledgement, authorization, termination and the
  recorded terminal mutations (the associated functions of \<open>TaskRegistry\<close> over \<open>DurableState\<close> in
  \<open>clusterflux-coordinator/src/service/task_registry.rs\<close>, the records of \<open>durable.rs\<close>), the
  authorization of signed assignment requests (\<open>service/signed_nodes.rs\<close>) and the reconciliation
  after a restart (\<open>service/processes.rs\<close>). Of the durable state only the two collections these
  functions use are kept. The run record carried by one response and the responses that are not
  terminal mutations are opaque: the type variables \<open>'run\<close> and \<open>'other\<close>.
\<close>

section \<open>Records\<close>

datatype assignment_kind =
    WorkflowCompiler (ak_run_id: run_id)
  | ProcessTask (ak_process: process_id) (ak_task: task_instance_id)

datatype assignment_state = Pending | Offered | Acknowledged | Running | Terminal

datatype ('run, 'other) coordinator_response =
    RVfsMetadataRecorded process_id task_instance_id "vfs_path option" bool
  | RTaskRecorded process_id task_instance_id nat
  | RSystemTaskRecorded 'run
  | ROther 'other

datatype 'run assignment_mutation_response =
    VfsMetadataRecorded process_id task_instance_id "vfs_path option" bool
  | TaskRecorded process_id task_instance_id nat
  | SystemTaskRecorded 'run

fun from_coordinator_response ::
  "('run, 'other) coordinator_response \<Rightarrow> 'run assignment_mutation_response option" where
  "from_coordinator_response (RVfsMetadataRecorded process task path large) =
     Some (VfsMetadataRecorded process task path large)"
| "from_coordinator_response (RTaskRecorded process task events) =
     Some (TaskRecorded process task events)"
| "from_coordinator_response (RSystemTaskRecorded run) = Some (SystemTaskRecorded run)"
| "from_coordinator_response (ROther _) = None"

fun coordinator_response_of ::
  "'run assignment_mutation_response \<Rightarrow> ('run, 'other) coordinator_response" where
  "coordinator_response_of (VfsMetadataRecorded process task path large) =
     RVfsMetadataRecorded process task path large"
| "coordinator_response_of (TaskRecorded process task events) = RTaskRecorded process task events"
| "coordinator_response_of (SystemTaskRecorded run) = RSystemTaskRecorded run"

record 'run assignment_mutation_record =
  am_process :: process_id
  am_task :: task_instance_id
  am_operation_id :: string
  am_payload_digest :: digest
  am_response :: "'run assignment_mutation_response"

record 'run active_assignment_record =
  aa_id :: string
  aa_kind :: assignment_kind
  aa_tenant :: tenant_id
  aa_project :: project_id
  aa_node :: node_id
  aa_attempt :: string
  aa_epoch :: u64
  aa_state :: assignment_state
  aa_offered_at :: u64
  aa_acknowledged_at :: "u64 option"
  aa_lease_expires_at :: u64
  aa_terminal_mutations :: "'run assignment_mutation_record list"

record 'run terminal_assignment_record =
  ta_id :: string
  ta_tenant :: tenant_id
  ta_project :: project_id
  ta_node :: node_id
  ta_attempt :: string
  ta_epoch :: u64
  ta_terminal_at :: u64
  ta_replay_allowed :: bool
  ta_terminal_mutations :: "'run assignment_mutation_record list"

record 'run durable_assignments =
  da_active :: "(string, 'run active_assignment_record) bmap"
  da_terminal_history :: "'run terminal_assignment_record list"

definition durable_assignments_default :: "'run durable_assignments" where
  "durable_assignments_default = \<lparr>da_active = [], da_terminal_history = []\<rparr>"

definition max_terminal_assignment_history :: nat where
  "max_terminal_assignment_history = 4096"

definition max_terminal_mutations_per_assignment :: nat where
  "max_terminal_mutations_per_assignment = 256"

section \<open>Operations\<close>

fun trim_start_matches :: "string \<Rightarrow> string \<Rightarrow> string" where
  "trim_start_matches pat s =
     (if pat \<noteq> [] \<and> take (length pat) s = pat \<and> s \<noteq> [] then trim_start_matches pat (drop (length pat) s) else s)"

declare trim_start_matches.simps [simp del]

definition assignment_id_for :: "sha256_fn \<Rightarrow> string \<Rightarrow> string \<Rightarrow> u64 \<Rightarrow> string" where
  "assignment_id_for sha256_hex owner_identity attempt_id offer_epoch =
     (let zero = [char_of (0 :: nat)];
          identity = owner_identity @ zero @ attempt_id @ zero @ u64_to_string offer_epoch
      in ''assignment-'' @ trim_start_matches ''sha256:'' (digest_sha256 sha256_hex identity))"

definition offer_active_assignment ::
  "sha256_fn \<Rightarrow> 'run durable_assignments \<Rightarrow> assignment_kind \<Rightarrow> tenant_id \<Rightarrow> project_id \<Rightarrow> node_id
     \<Rightarrow> string \<Rightarrow> u64 \<Rightarrow> u64 \<Rightarrow> u64 \<Rightarrow> string \<Rightarrow> 'run durable_assignments \<times> assignment_authority" where
  "offer_active_assignment sha256_hex d kind tenant project node attempt_id offer_epoch now
     offer_seconds owner_identity =
     (let assignment_id = assignment_id_for sha256_hex owner_identity attempt_id offer_epoch
      in (d\<lparr>da_active := binsert assignment_id
              \<lparr>aa_id = assignment_id, aa_kind = kind, aa_tenant = tenant, aa_project = project,
               aa_node = node, aa_attempt = attempt_id, aa_epoch = offer_epoch, aa_state = Offered,
               aa_offered_at = now, aa_acknowledged_at = None,
               aa_lease_expires_at = sat_add now offer_seconds, aa_terminal_mutations = []\<rparr>
              (da_active d)\<rparr>,
          \<lparr>aa_assignment_id = assignment_id, aa_attempt_id = attempt_id, aa_offer_epoch = offer_epoch\<rparr>))"

definition terminal_assignment_matches ::
  "'run durable_assignments \<Rightarrow> node_scope_key \<Rightarrow> assignment_authority \<Rightarrow> bool" where
  "terminal_assignment_matches d scope authority =
     (case find (\<lambda>t. ta_id t = aa_assignment_id authority) (rev (da_terminal_history d)) of
        None \<Rightarrow> False
      | Some t \<Rightarrow> ta_replay_allowed t \<and> (ta_tenant t, ta_project t, ta_node t) = scope
          \<and> ta_attempt t = aa_attempt_id authority \<and> ta_epoch t = aa_offer_epoch authority)"

text \<open>The node and the attempt a record belongs to, as the guards compare them.\<close>

definition active_owned_by ::
  "'run active_assignment_record \<Rightarrow> node_scope_key \<Rightarrow> assignment_authority \<Rightarrow> bool" where
  "active_owned_by a scope authority \<longleftrightarrow>
     (aa_tenant a, aa_project a, aa_node a) = scope
     \<and> aa_attempt a = aa_attempt_id authority \<and> aa_epoch a = aa_offer_epoch authority"

definition acknowledge_active_assignment ::
  "'run durable_assignments \<Rightarrow> node_scope_key \<Rightarrow> assignment_authority \<Rightarrow> u64 \<Rightarrow> u64
     \<Rightarrow> 'run durable_assignments \<times> bool" where
  "acknowledge_active_assignment d scope authority now assignment_seconds =
     (case bget (da_active d) (aa_assignment_id authority) of
        None \<Rightarrow> (d, terminal_assignment_matches d scope authority)
      | Some a \<Rightarrow>
        if \<not> active_owned_by a scope authority \<or> aa_lease_expires_at a < now
           \<or> aa_state a \<notin> {Offered, Acknowledged, Running}
        then (d, False)
        else (d\<lparr>da_active := binsert (aa_assignment_id authority)
               (a\<lparr>aa_acknowledged_at := (if aa_acknowledged_at a = None then Some now
                                         else aa_acknowledged_at a),
                  aa_state := Acknowledged, aa_lease_expires_at := sat_add now assignment_seconds\<rparr>)
               (da_active d)\<rparr>, True))"

definition authorize_active_assignment ::
  "'run durable_assignments \<Rightarrow> node_scope_key \<Rightarrow> assignment_authority \<Rightarrow> u64 \<Rightarrow> u64
     \<Rightarrow> 'run durable_assignments \<times> bool" where
  "authorize_active_assignment d scope authority now assignment_seconds =
     (case bget (da_active d) (aa_assignment_id authority) of
        None \<Rightarrow> (d, False)
      | Some a \<Rightarrow>
        if \<not> active_owned_by a scope authority \<or> aa_acknowledged_at a = None
           \<or> aa_lease_expires_at a < now \<or> aa_state a \<notin> {Acknowledged, Running}
        then (d, False)
        else (d\<lparr>da_active := binsert (aa_assignment_id authority)
               (a\<lparr>aa_state := Running, aa_lease_expires_at := sat_add now assignment_seconds\<rparr>)
               (da_active d)\<rparr>, True))"

definition active_assignment_is_authorized ::
  "'run durable_assignments \<Rightarrow> node_scope_key \<Rightarrow> assignment_authority \<Rightarrow> u64 \<Rightarrow> bool" where
  "active_assignment_is_authorized d scope authority now =
     (case bget (da_active d) (aa_assignment_id authority) of
        None \<Rightarrow> False
      | Some a \<Rightarrow> active_owned_by a scope authority \<and> aa_acknowledged_at a \<noteq> None
          \<and> aa_lease_expires_at a \<ge> now \<and> aa_state a \<in> {Acknowledged, Running})"

definition terminalize_active_assignment ::
  "'run durable_assignments \<Rightarrow> assignment_authority \<Rightarrow> u64 \<Rightarrow> bool
     \<Rightarrow> 'run durable_assignments \<times> 'run active_assignment_record option" where
  "terminalize_active_assignment d authority now replay_allowed =
     (case bget (da_active d) (aa_assignment_id authority) of
        None \<Rightarrow> (d, None)
      | Some a \<Rightarrow>
        let rest = bremove (aa_assignment_id authority) (da_active d)
        in if aa_attempt a \<noteq> aa_attempt_id authority \<or> aa_epoch a \<noteq> aa_offer_epoch authority
           then (d\<lparr>da_active := binsert (aa_id a) a rest\<rparr>, None)
           else (d\<lparr>da_active := rest,
                   da_terminal_history :=
                     pop_while_ge max_terminal_assignment_history (da_terminal_history d)
                     @ [\<lparr>ta_id = aa_id a, ta_tenant = aa_tenant a, ta_project = aa_project a,
                         ta_node = aa_node a, ta_attempt = aa_attempt a, ta_epoch = aa_epoch a,
                         ta_terminal_at = now, ta_replay_allowed = replay_allowed,
                         ta_terminal_mutations = aa_terminal_mutations a\<rparr>]\<rparr>,
                 Some (a\<lparr>aa_state := Terminal, aa_terminal_mutations := []\<rparr>)))"

definition expired_active_assignments ::
  "'run durable_assignments \<Rightarrow> u64 \<Rightarrow> 'run active_assignment_record list" where
  "expired_active_assignments d now = filter (\<lambda>a. aa_lease_expires_at a < now) (bvalues (da_active d))"

definition active_assignment_for_kind ::
  "'run durable_assignments \<Rightarrow> assignment_kind \<Rightarrow> 'run active_assignment_record option" where
  "active_assignment_for_kind d kind = find (\<lambda>a. aa_kind a = kind) (bvalues (da_active d))"

datatype ('run, 'other) assignment_mutation_replay =
    ReplayMissing
  | ReplayExact "('run, 'other) coordinator_response"
  | ReplayConflict

definition terminal_owned_by ::
  "'run terminal_assignment_record \<Rightarrow> node_scope_key \<Rightarrow> assignment_authority \<Rightarrow> bool" where
  "terminal_owned_by t scope authority \<longleftrightarrow>
     ta_replay_allowed t \<and> ta_id t = aa_assignment_id authority
     \<and> (ta_tenant t, ta_project t, ta_node t) = scope
     \<and> ta_attempt t = aa_attempt_id authority \<and> ta_epoch t = aa_offer_epoch authority"

definition recorded_mutations ::
  "'run durable_assignments \<Rightarrow> node_scope_key \<Rightarrow> assignment_authority
     \<Rightarrow> 'run assignment_mutation_record list option" where
  "recorded_mutations d scope authority =
     (case (case bget (da_active d) (aa_assignment_id authority) of
              None \<Rightarrow> None | Some a \<Rightarrow> if active_owned_by a scope authority then Some a else None) of
        Some a \<Rightarrow> Some (aa_terminal_mutations a)
      | None \<Rightarrow> map_option ta_terminal_mutations
          (find (\<lambda>t. terminal_owned_by t scope authority) (rev (da_terminal_history d))))"

definition assignment_mutation_replay ::
  "'run durable_assignments \<Rightarrow> node_scope_key \<Rightarrow> assignment_authority \<Rightarrow> process_id
     \<Rightarrow> task_instance_id \<Rightarrow> string \<Rightarrow> digest \<Rightarrow> ('run, 'other) assignment_mutation_replay" where
  "assignment_mutation_replay d scope authority process task operation_id payload_digest =
     (case Option.bind (recorded_mutations d scope authority)
         (\<lambda>ms. find (\<lambda>m. am_process m = process \<and> am_task m = task \<and> am_operation_id m = operation_id)
                 (rev ms)) of
        None \<Rightarrow> ReplayMissing
      | Some m \<Rightarrow>
          if am_payload_digest m = payload_digest
          then ReplayExact (coordinator_response_of (am_response m)) else ReplayConflict)"

text \<open>Applies \<open>f\<close> to the last element that satisfies \<open>P\<close>: \<open>iter_mut().rev().find(P)\<close>.\<close>

definition update_last :: "('a \<Rightarrow> bool) \<Rightarrow> ('a \<Rightarrow> 'a) \<Rightarrow> 'a list \<Rightarrow> 'a list option" where
  "update_last P f xs =
     (case List.extract P (rev xs) of
        None \<Rightarrow> None | Some (ys, x, zs) \<Rightarrow> Some (rev zs @ [f x] @ rev ys))"

definition record_assignment_mutation ::
  "'run durable_assignments \<Rightarrow> assignment_authority \<Rightarrow> process_id \<Rightarrow> task_instance_id \<Rightarrow> string
     \<Rightarrow> digest \<Rightarrow> ('run, 'other) coordinator_response \<Rightarrow> 'run durable_assignments \<times> bool" where
  "record_assignment_mutation d authority process task operation_id payload_digest response =
     (case from_coordinator_response response of
        None \<Rightarrow> (d, False)
      | Some resp \<Rightarrow>
        let push = (\<lambda>ms. pop_while_ge max_terminal_mutations_per_assignment ms
              @ [\<lparr>am_process = process, am_task = task, am_operation_id = operation_id,
                  am_payload_digest = payload_digest, am_response = resp\<rparr>])
        in case (case bget (da_active d) (aa_assignment_id authority) of
                   None \<Rightarrow> None
                 | Some a \<Rightarrow> if aa_attempt a = aa_attempt_id authority
                               \<and> aa_epoch a = aa_offer_epoch authority then Some a else None) of
             Some a \<Rightarrow>
               (d\<lparr>da_active := binsert (aa_assignment_id authority)
                   (a\<lparr>aa_terminal_mutations := push (aa_terminal_mutations a)\<rparr>) (da_active d)\<rparr>, True)
           | None \<Rightarrow>
             (case update_last (\<lambda>t. ta_replay_allowed t \<and> ta_id t = aa_assignment_id authority
                       \<and> ta_attempt t = aa_attempt_id authority \<and> ta_epoch t = aa_offer_epoch authority)
                     (\<lambda>t. t\<lparr>ta_terminal_mutations := push (ta_terminal_mutations t)\<rparr>)
                     (da_terminal_history d) of
                None \<Rightarrow> (d, False)
              | Some h \<Rightarrow> (d\<lparr>da_terminal_history := h\<rparr>, True)))"

section \<open>Histories of operations\<close>

datatype 'run assignment_op =
    OpOffer assignment_kind tenant_id project_id node_id string u64 u64 u64 string
  | OpAcknowledge node_scope_key assignment_authority u64 u64
  | OpAuthorize node_scope_key assignment_authority u64 u64
  | OpTerminalize assignment_authority u64 bool
  | OpRecord assignment_authority process_id task_instance_id string digest
      "('run, unit) coordinator_response"

fun apply_assignment_op ::
  "sha256_fn \<Rightarrow> 'run assignment_op \<Rightarrow> 'run durable_assignments \<Rightarrow> 'run durable_assignments" where
  "apply_assignment_op H (OpOffer kind tenant project node attempt epoch now secs owner) d =
     fst (offer_active_assignment H d kind tenant project node attempt epoch now secs owner)"
| "apply_assignment_op H (OpAcknowledge scope authority now secs) d =
     fst (acknowledge_active_assignment d scope authority now secs)"
| "apply_assignment_op H (OpAuthorize scope authority now secs) d =
     fst (authorize_active_assignment d scope authority now secs)"
| "apply_assignment_op H (OpTerminalize authority now replay) d =
     fst (terminalize_active_assignment d authority now replay)"
| "apply_assignment_op H (OpRecord authority process task operation digest response) d =
     fst (record_assignment_mutation d authority process task operation digest response)"

definition assignment_run ::
  "sha256_fn \<Rightarrow> 'run assignment_op list \<Rightarrow> 'run durable_assignments \<Rightarrow> 'run durable_assignments" where
  "assignment_run H ops d = fold (apply_assignment_op H) ops d"

lemma assignment_run_simps [simp]:
  "assignment_run H [] d = d"
  "assignment_run H (x # ops) d = assignment_run H ops (apply_assignment_op H x d)"
  by (simp_all add: assignment_run_def)

section \<open>Invariant\<close>

definition active_record_ok :: "'run active_assignment_record \<Rightarrow> bool" where
  "active_record_ok a \<longleftrightarrow>
     aa_state a \<in> {Offered, Acknowledged, Running}
     \<and> (aa_acknowledged_at a = None \<longleftrightarrow> aa_state a = Offered)
     \<and> length (aa_terminal_mutations a) \<le> max_terminal_mutations_per_assignment"

definition assignments_ok :: "'run durable_assignments \<Rightarrow> bool" where
  "assignments_ok d \<longleftrightarrow>
     bwf (da_active d)
     \<and> (\<forall>i a. bget (da_active d) i = Some a \<longrightarrow> aa_id a = i \<and> active_record_ok a)
     \<and> length (da_terminal_history d) \<le> max_terminal_assignment_history
     \<and> (\<forall>t\<in>set (da_terminal_history d).
          length (ta_terminal_mutations t) \<le> max_terminal_mutations_per_assignment)"

lemma assignments_ok_default: "assignments_ok durable_assignments_default"
  by (simp add: assignments_ok_def durable_assignments_default_def)

lemma assignments_ok_binsert:
  "assignments_ok d \<Longrightarrow> aa_id a = i \<Longrightarrow> active_record_ok a
    \<Longrightarrow> assignments_ok (d\<lparr>da_active := binsert i a (da_active d)\<rparr>)"
  by (auto simp: assignments_ok_def bmap_simps)

lemma assignments_okD:
  assumes "assignments_ok d" and "bget (da_active d) i = Some a"
  shows "aa_id a = i" and "active_record_ok a"
  using assms by (auto simp: assignments_ok_def)

lemma assignments_ok_wf: "assignments_ok d \<Longrightarrow> bwf (da_active d)"
  by (simp add: assignments_ok_def)

lemma length_push_bounded:
  "0 < cap \<Longrightarrow> length (pop_while_ge cap xs @ [x]) \<le> cap"
  using length_pop_while_ge [of cap xs] by simp

lemma update_last_SomeE:
  assumes "update_last P f xs = Some ys"
  obtains as x bs where "xs = as @ x # bs" and "ys = as @ f x # bs" and "P x" and "\<forall>b\<in>set bs. \<not> P b"
proof -
  from assms obtain us x vs where "List.extract P (rev xs) = Some (us, x, vs)"
      and ys: "ys = rev vs @ [f x] @ rev us"
    by (auto simp: update_last_def split: option.splits)
  then have "rev xs = us @ x # vs" "P x" "\<forall>y\<in>set us. \<not> P y"
    by (auto simp: extract_Some_iff)
  then have "xs = rev vs @ x # rev us"
    by (metis append.assoc append_Cons append_Nil rev.simps(2) rev_append rev_rev_ident)
  with ys \<open>P x\<close> \<open>\<forall>y\<in>set us. \<not> P y\<close> show ?thesis
    by (intro that [of "rev vs" x "rev us"]) auto
qed

lemma assignments_ok_offer:
  "assignments_ok d \<Longrightarrow> assignments_ok
     (fst (offer_active_assignment H d kind tenant project node attempt epoch now secs owner))"
  unfolding offer_active_assignment_def Let_def fst_conv
  by (rule assignments_ok_binsert) (simp_all add: active_record_ok_def)

lemma assignments_ok_acknowledge:
  assumes "assignments_ok d"
  shows "assignments_ok (fst (acknowledge_active_assignment d scope authority now secs))"
  using assms assignments_okD [OF assms]
  by (auto simp: acknowledge_active_assignment_def active_record_ok_def
      intro!: assignments_ok_binsert split: option.split)

lemma assignments_ok_authorize:
  assumes "assignments_ok d"
  shows "assignments_ok (fst (authorize_active_assignment d scope authority now secs))"
  using assms assignments_okD [OF assms]
  by (auto simp: authorize_active_assignment_def active_record_ok_def
      intro!: assignments_ok_binsert split: option.split)

lemma assignments_ok_terminalize:
  assumes ok: "assignments_ok d"
  shows "assignments_ok (fst (terminalize_active_assignment d authority now replay))"
proof (cases "bget (da_active d) (aa_assignment_id authority)")
  case None
  with ok show ?thesis by (simp add: terminalize_active_assignment_def)
next
  case (Some a)
  note a = assignments_okD [OF ok Some] and wf = assignments_ok_wf [OF ok]
  show ?thesis
    using ok a wf length_push_bounded [of max_terminal_assignment_history "da_terminal_history d"]
    by (auto simp: Some terminalize_active_assignment_def Let_def assignments_ok_def active_record_ok_def
        bmap_simps max_terminal_assignment_history_def dest: set_pop_while_ge [THEN subsetD])
qed

lemma assignments_ok_record:
  assumes ok: "assignments_ok d"
  shows "assignments_ok (fst (record_assignment_mutation d authority process task operation digest response))"
proof -
  have push: "length (pop_while_ge max_terminal_mutations_per_assignment ms @ [m])
      \<le> max_terminal_mutations_per_assignment" for ms :: "'a assignment_mutation_record list" and m
    by (rule length_push_bounded) (simp add: max_terminal_mutations_per_assignment_def)
  have hist: "assignments_ok (d\<lparr>da_terminal_history := h\<rparr>)"
    if "update_last P (\<lambda>t. t\<lparr>ta_terminal_mutations :=
          pop_while_ge max_terminal_mutations_per_assignment (ta_terminal_mutations t) @ [m]\<rparr>)
        (da_terminal_history d) = Some h" for P h and m
    using that
  proof (rule update_last_SomeE)
    fix as x bs
    assume "da_terminal_history d = as @ x # bs"
      and "h = as @ x\<lparr>ta_terminal_mutations :=
          pop_while_ge max_terminal_mutations_per_assignment (ta_terminal_mutations x) @ [m]\<rparr> # bs"
    with ok push [of "ta_terminal_mutations x" m] show ?thesis
      by (auto simp: assignments_ok_def)
  qed
  show ?thesis
    using ok assignments_okD [OF ok] push
    by (auto simp: record_assignment_mutation_def Let_def active_record_ok_def
        intro!: assignments_ok_binsert hist split: option.split)
qed

lemma assignments_ok_apply: "assignments_ok d \<Longrightarrow> assignments_ok (apply_assignment_op H x d)"
  by (cases x) (simp_all add: assignments_ok_offer assignments_ok_acknowledge assignments_ok_authorize
      assignments_ok_terminalize assignments_ok_record)

lemma assignments_ok_run: "assignments_ok d \<Longrightarrow> assignments_ok (assignment_run H ops d)"
  by (induction ops arbitrary: d) (simp_all add: assignments_ok_apply)

text \<open>
  C5. Every history of offers, acknowledgements, authorizations, terminations and recorded
  mutations keeps the durable authority well formed: active records are filed under their own id,
  are never in the states \<open>Pending\<close> or \<open>Terminal\<close>, carry an acknowledgement time exactly when they
  have left \<open>Offered\<close>, and both the terminal history and every list of recorded mutations stay
  within their bounds.
\<close>

theorem assignment_authority_invariant:
  "assignments_ok (assignment_run H ops durable_assignments_default)"
  by (rule assignments_ok_run [OF assignments_ok_default])

section \<open>Fencing\<close>

fun offers_assignment :: "sha256_fn \<Rightarrow> string \<Rightarrow> 'run assignment_op \<Rightarrow> bool" where
  "offers_assignment H i (OpOffer kind tenant project node attempt epoch now secs owner) =
     (assignment_id_for H owner attempt epoch = i)"
| "offers_assignment H i _ = False"

lemma terminalize_mismatch:
  assumes "assignments_ok d" and "bget (da_active d) (aa_assignment_id authority) = Some a"
  shows "bget (binsert (aa_id a) a (bremove (aa_assignment_id authority) (da_active d))) i
    = bget (da_active d) i"
  using assignments_okD(1) [OF assms] assms(2) assignments_ok_wf [OF assms(1)]
  by (auto simp: bmap_simps)

lemma absent_kept:
  assumes "assignments_ok d" and "bget (da_active d) i = None" and "\<not> offers_assignment H i x"
  shows "bget (da_active (apply_assignment_op H x d)) i = None"
proof (cases x)
  case (OpTerminalize authority now replay)
  with assms show ?thesis
    using terminalize_mismatch [OF assms(1), of authority] assignments_ok_wf [OF assms(1)]
    by (auto simp: terminalize_active_assignment_def Let_def bmap_simps split: option.split)
qed (use assms in \<open>auto simp: offer_active_assignment_def acknowledge_active_assignment_def
      authorize_active_assignment_def record_assignment_mutation_def Let_def bmap_simps
      split: option.split\<close>)

lemma absent_kept_run:
  assumes "assignments_ok d" and "bget (da_active d) i = None"
    and "\<forall>x\<in>set ops. \<not> offers_assignment H i x"
  shows "bget (da_active (assignment_run H ops d)) i = None"
  using assms
  by (induction ops arbitrary: d) (simp_all add: absent_kept assignments_ok_apply)

lemma terminalize_Some:
  assumes "terminalize_active_assignment d authority now replay = (d', Some r)"
  obtains a where "bget (da_active d) (aa_assignment_id authority) = Some a"
    and "aa_attempt a = aa_attempt_id authority" and "aa_epoch a = aa_offer_epoch authority"
    and "d' = d\<lparr>da_active := bremove (aa_assignment_id authority) (da_active d),
          da_terminal_history := pop_while_ge max_terminal_assignment_history (da_terminal_history d)
            @ [\<lparr>ta_id = aa_id a, ta_tenant = aa_tenant a, ta_project = aa_project a,
                ta_node = aa_node a, ta_attempt = aa_attempt a, ta_epoch = aa_epoch a,
                ta_terminal_at = now, ta_replay_allowed = replay,
                ta_terminal_mutations = aa_terminal_mutations a\<rparr>]\<rparr>"
  using assms by (auto simp: terminalize_active_assignment_def Let_def split: option.splits if_splits)

text \<open>
  C1. Termination fences an assignment off: once an assignment has been terminalized, no later
  history that does not offer the same id again lets any node use it. Authorization under that id
  is refused for every scope, attempt and clock reading, and a late acknowledgement changes nothing.
\<close>

theorem terminalized_assignment_fenced:
  assumes "terminalize_active_assignment (assignment_run H before durable_assignments_default)
             authority now replay = (d, Some r)"
    and "\<forall>x\<in>set later. \<not> offers_assignment H (aa_assignment_id authority) x"
    and "aa_assignment_id authority' = aa_assignment_id authority"
  shows "let d' = assignment_run H later d
    in \<not> active_assignment_is_authorized d' scope authority' now'
     \<and> authorize_active_assignment d' scope authority' now' secs = (d', False)
     \<and> fst (acknowledge_active_assignment d' scope authority' now' secs) = d'"
proof -
  have ok0: "assignments_ok (assignment_run H before durable_assignments_default)"
    by (rule assignments_ok_run [OF assignments_ok_default])
  with assms(1) have ok: "assignments_ok d"
    using assignments_ok_terminalize [OF ok0, of authority now replay] by simp
  from assms(1) have "bget (da_active d) (aa_assignment_id authority) = None"
    using assignments_ok_wf [OF ok0] by (elim terminalize_Some) (simp add: bmap_simps)
  then have "bget (da_active (assignment_run H later d)) (aa_assignment_id authority') = None"
    using ok assms(2,3) by (simp add: absent_kept_run)
  then show ?thesis
    by (simp add: active_assignment_is_authorized_def authorize_active_assignment_def
        acknowledge_active_assignment_def)
qed

section \<open>Recorded mutations survive\<close>

lemma pop_while_ge_suffix:
  "length ys < cap \<Longrightarrow> \<exists>xs'. pop_while_ge cap (xs @ ys) = xs' @ ys"
proof (induction xs)
  case Nil
  then show ?case by (auto simp: pop_while_ge_id intro: exI [of _ "[]"])
next
  case (Cons x xs)
  then show ?case by (auto intro: exI [of _ "x # xs"])
qed

text \<open>
  \<open>pinned i t n d\<close>: assignment \<open>i\<close> is not active and its terminal record \<open>t\<close> is in the history
  with at most \<open>n\<close> records after it, none of them for \<open>i\<close>.
\<close>

definition pinned ::
  "string \<Rightarrow> 'run terminal_assignment_record \<Rightarrow> nat \<Rightarrow> 'run durable_assignments \<Rightarrow> bool" where
  "pinned i t n d \<longleftrightarrow> bget (da_active d) i = None \<and> ta_id t = i
     \<and> (\<exists>xs ys. da_terminal_history d = xs @ t # ys \<and> length ys \<le> n \<and> (\<forall>y\<in>set ys. ta_id y \<noteq> i))"

fun terminalizes :: "'run assignment_op \<Rightarrow> nat" where
  "terminalizes (OpTerminalize _ _ _) = 1"
| "terminalizes _ = 0"

fun records_for :: "string \<Rightarrow> 'run assignment_op \<Rightarrow> bool" where
  "records_for i (OpRecord authority _ _ _ _ _) = (aa_assignment_id authority = i)"
| "records_for i _ = False"

lemma pinned_terminalize:
  assumes ok: "assignments_ok d" and pin: "pinned i t n d" and "Suc n < max_terminal_assignment_history"
  shows "pinned i t (Suc n) (fst (terminalize_active_assignment d authority now replay))"
proof -
  from pin obtain xs ys where h: "da_terminal_history d = xs @ t # ys" "length ys \<le> n"
      "\<forall>y\<in>set ys. ta_id y \<noteq> i" and none: "bget (da_active d) i = None" "ta_id t = i"
    by (auto simp: pinned_def)
  obtain d' r where res: "terminalize_active_assignment d authority now replay = (d', r)" by fastforce
  have none': "bget (da_active d') i = None"
    using absent_kept [OF ok none(1), of undefined "OpTerminalize authority now replay"] res by simp
  show ?thesis
  proof (cases r)
    case None
    then have "da_terminal_history d' = da_terminal_history d"
      using res by (auto simp: terminalize_active_assignment_def Let_def split: option.splits if_splits)
    with h none none' show ?thesis
      unfolding pinned_def res fst_conv by (metis le_SucI)
  next
    case (Some a')
    from res [unfolded Some] obtain a where a: "bget (da_active d) (aa_assignment_id authority) = Some a"
      and hist: "\<exists>z. ta_id z = aa_id a \<and> da_terminal_history d'
          = pop_while_ge max_terminal_assignment_history (da_terminal_history d) @ [z]"
      by (elim terminalize_Some) auto
    obtain xs' where "pop_while_ge max_terminal_assignment_history (xs @ t # ys) = xs' @ t # ys"
      using pop_while_ge_suffix [of "t # ys" max_terminal_assignment_history xs] assms(3) h(2) by auto
    with hist h obtain z where "da_terminal_history d' = xs' @ t # (ys @ [z])" "ta_id z = aa_id a"
      by auto
    moreover have "aa_id a \<noteq> i"
      using assignments_okD(1) [OF ok a] a none by auto
    ultimately show ?thesis
      unfolding pinned_def res fst_conv using h none none'
      by (intro conjI exI [of _ xs'] exI [of _ "ys @ [z]"]) auto
  qed
qed

lemma split_at_two:
  "xs @ t # ys = as @ x # bs \<Longrightarrow> x \<noteq> t \<Longrightarrow>
    (\<exists>us. xs = as @ x # us \<and> bs = us @ t # ys) \<or> (\<exists>vs. as = xs @ t # vs \<and> ys = vs @ x # bs)"
proof (induction xs arbitrary: as)
  case Nil
  then show ?case by (cases as) auto
next
  case (Cons y xs)
  then show ?case by (cases as) auto
qed

lemma record_history:
  assumes "record_assignment_mutation d authority process task operation digest response = (d', b)"
    and "da_terminal_history d' \<noteq> da_terminal_history d"
  obtains as x x' bs where "da_terminal_history d = as @ x # bs" and "da_terminal_history d' = as @ x' # bs"
    and "ta_id x = aa_assignment_id authority" and "ta_id x' = ta_id x"
proof -
  from assms obtain f where upd: "update_last (\<lambda>t. ta_replay_allowed t \<and> ta_id t = aa_assignment_id authority
        \<and> ta_attempt t = aa_attempt_id authority \<and> ta_epoch t = aa_offer_epoch authority)
        (\<lambda>t. t\<lparr>ta_terminal_mutations := f t\<rparr>) (da_terminal_history d) = Some (da_terminal_history d')"
    by (auto simp: record_assignment_mutation_def Let_def split: option.splits if_splits)
  show ?thesis
  proof (rule update_last_SomeE [OF upd])
    fix as x bs
    assume "da_terminal_history d = as @ x # bs"
      and "da_terminal_history d' = as @ x\<lparr>ta_terminal_mutations := f x\<rparr> # bs"
      and "ta_replay_allowed x \<and> ta_id x = aa_assignment_id authority
        \<and> ta_attempt x = aa_attempt_id authority \<and> ta_epoch x = aa_offer_epoch authority"
    then show ?thesis
      by (intro that [of as x bs "x\<lparr>ta_terminal_mutations := f x\<rparr>"]) simp_all
  qed
qed

lemma pinned_record:
  assumes ok: "assignments_ok d" and pin: "pinned i t n d" and other: "aa_assignment_id authority \<noteq> i"
    and res: "record_assignment_mutation d authority process task operation digest
           (response :: ('run, unit) coordinator_response) = (d', b)"
  shows "pinned i t n d'"
proof -
  from pin obtain xs ys where h: "da_terminal_history d = xs @ t # ys" "length ys \<le> n"
      "\<forall>y\<in>set ys. ta_id y \<noteq> i" and none: "bget (da_active d) i = None" "ta_id t = i"
    by (auto simp: pinned_def)
  have none': "bget (da_active d') i = None"
    using absent_kept [OF ok none(1), of undefined "OpRecord authority process task operation digest response"]
    by (simp add: res)
  show ?thesis
  proof (cases "da_terminal_history d' = da_terminal_history d")
    case True
    with none' none h show ?thesis by (auto simp: pinned_def)
  next
    case False
    then obtain as x x' bs where x: "xs @ t # ys = as @ x # bs" "da_terminal_history d' = as @ x' # bs"
        "ta_id x \<noteq> i" "ta_id x' \<noteq> i"
      using record_history [OF res] h(1) other by metis
    have "x \<noteq> t" using x(3) none(2) by auto
    from split_at_two [OF x(1) this] consider us where "xs = as @ x # us" "bs = us @ t # ys"
      | vs where "as = xs @ t # vs" "ys = vs @ x # bs"
      by blast
    then show ?thesis
    proof cases
      case 1
      with x(2) none none' h(2,3) show ?thesis
        unfolding pinned_def by (intro conjI exI [of _ "as @ x' # us"] exI [of _ ys]) auto
    next
      case 2
      with x(2,4) none none' h(2,3) show ?thesis
        unfolding pinned_def by (intro conjI exI [of _ xs] exI [of _ "vs @ x' # bs"]) auto
    qed
  qed
qed

lemma pinned_apply:
  assumes "assignments_ok d" and "pinned i t n d" and "n + terminalizes x < max_terminal_assignment_history"
    and "\<not> offers_assignment H i x" and "\<not> records_for i x"
  shows "pinned i t (n + terminalizes x) (apply_assignment_op H x d)"
proof (cases x)
  case (OpTerminalize authority now replay)
  with assms pinned_terminalize [of d i t n authority now replay] show ?thesis by simp
next
  case (OpRecord authority process task operation digest response)
  with assms pinned_record [of d i t n authority process task operation digest response] show ?thesis
    by (metis apply_assignment_op.simps(5) add_0_right prod.collapse records_for.simps(1) terminalizes.simps(5))
next
  case (OpOffer kind tenant project node attempt epoch now secs owner)
  with assms absent_kept [of d i H x] show ?thesis
    by (auto simp: pinned_def offer_active_assignment_def Let_def)
next
  case (OpAcknowledge scope authority now secs)
  with assms absent_kept [of d i H x] show ?thesis
    by (auto simp: pinned_def acknowledge_active_assignment_def split: option.splits if_splits)
next
  case (OpAuthorize scope authority now secs)
  with assms absent_kept [of d i H x] show ?thesis
    by (auto simp: pinned_def authorize_active_assignment_def split: option.splits if_splits)
qed

lemma pinned_run:
  assumes "assignments_ok d" and "pinned i t n d"
    and "n + sum_list (map terminalizes ops) < max_terminal_assignment_history"
    and "\<forall>x\<in>set ops. \<not> offers_assignment H i x \<and> \<not> records_for i x"
  shows "pinned i t (n + sum_list (map terminalizes ops)) (assignment_run H ops d)"
  using assms
proof (induction ops arbitrary: d n)
  case (Cons x ops)
  have "pinned i t (n + terminalizes x) (apply_assignment_op H x d)"
    using Cons.prems by (intro pinned_apply) auto
  then have "pinned i t ((n + terminalizes x) + sum_list (map terminalizes ops))
      (assignment_run H ops (apply_assignment_op H x d))"
    using Cons.prems by (intro Cons.IH) (auto simp: assignments_ok_apply)
  then show ?case by (simp add: add.assoc)
qed simp

lemma pinned_mutations:
  assumes "pinned i t n d" and "terminal_owned_by t scope authority" and "aa_assignment_id authority = i"
  shows "recorded_mutations d scope authority = Some (ta_terminal_mutations t)"
proof -
  from assms obtain xs ys where h: "da_terminal_history d = xs @ t # ys" "\<forall>y\<in>set ys. ta_id y \<noteq> i"
      and none: "bget (da_active d) i = None"
    by (auto simp: pinned_def)
  have "find (\<lambda>t. terminal_owned_by t scope authority) (rev ys) = None"
    using h(2) assms(3) by (auto simp: find_None_iff terminal_owned_by_def)
  then have "find (\<lambda>t. terminal_owned_by t scope authority) (rev ys @ t # rev xs) = Some t"
    using assms(2) by (simp add: find_append)
  with h none assms(3) show ?thesis
    by (simp add: recorded_mutations_def)
qed

lemma record_on_active:
  assumes "bget (da_active d) (aa_assignment_id authority) = Some a"
    and "active_owned_by a scope authority" and "from_coordinator_response response = Some resp"
  shows "record_assignment_mutation d authority process task operation digest response =
    (d\<lparr>da_active := binsert (aa_assignment_id authority)
       (a\<lparr>aa_terminal_mutations := pop_while_ge max_terminal_mutations_per_assignment (aa_terminal_mutations a)
            @ [\<lparr>am_process = process, am_task = task, am_operation_id = operation,
                am_payload_digest = digest, am_response = resp\<rparr>]\<rparr>) (da_active d)\<rparr>, True)"
  using assms by (simp add: record_assignment_mutation_def active_owned_by_def)

lemma coordinator_response_round_trip:
  "from_coordinator_response response = Some resp \<Longrightarrow> coordinator_response_of resp = response"
  by (cases response) auto

lemma replay_of_last:
  assumes "recorded_mutations d scope authority = Some (ms @ [m])"
  shows "assignment_mutation_replay d scope authority (am_process m) (am_task m) (am_operation_id m) digest
    = (if am_payload_digest m = digest then ReplayExact (coordinator_response_of (am_response m))
       else ReplayConflict)"
  using assms by (simp add: assignment_mutation_replay_def)

text \<open>
  C2. Terminal mutations are idempotent: a mutation recorded against an active assignment that is
  then terminalized with replay allowed is still known after any later history that neither offers
  nor records for that assignment and terminalizes fewer than 4,096 others. A retry of the same
  operation with the same payload gets the committed response, and one with another payload is
  reported as a conflict.
\<close>

theorem terminal_mutation_idempotent:
  fixes response :: "('run, unit) coordinator_response"
  assumes active: "bget (da_active (assignment_run H before durable_assignments_default))
        (aa_assignment_id authority) = Some a" "active_owned_by a scope authority"
    and resp: "from_coordinator_response response = Some resp"
    and later: "\<forall>x\<in>set later. \<not> offers_assignment H (aa_assignment_id authority) x
        \<and> \<not> records_for (aa_assignment_id authority) x"
      "sum_list (map terminalizes later) < 4096"
  shows "assignment_mutation_replay
     (assignment_run H (before @ [OpRecord authority process task operation digest response,
         OpTerminalize authority now True] @ later) durable_assignments_default)
     scope authority process task operation digest'
   = (if digest' = digest then ReplayExact response else ReplayConflict)"
proof -
  define d where "d = assignment_run H before durable_assignments_default"
  define m where "m = \<lparr>am_process = process, am_task = task, am_operation_id = operation,
    am_payload_digest = digest, am_response = resp\<rparr>"
  define ms where "ms = pop_while_ge max_terminal_mutations_per_assignment (aa_terminal_mutations a)"
  define d1 where "d1 = apply_assignment_op H (OpRecord authority process task operation digest response) d"
  define d2 where "d2 = apply_assignment_op H (OpTerminalize authority now True) d1"
  define t where "t = \<lparr>ta_id = aa_id a, ta_tenant = aa_tenant a, ta_project = aa_project a,
    ta_node = aa_node a, ta_attempt = aa_attempt a, ta_epoch = aa_epoch a, ta_terminal_at = now,
    ta_replay_allowed = True, ta_terminal_mutations = ms @ [m]\<rparr>"
  have ok: "assignments_ok d" unfolding d_def by (rule assignments_ok_run [OF assignments_ok_default])
  have ok2: "assignments_ok d2" unfolding d2_def d1_def by (intro assignments_ok_apply ok)
  have id: "aa_id a = aa_assignment_id authority"
    using assignments_okD(1) [OF ok] active(1) by (simp add: d_def)
  have d1: "d1 = d\<lparr>da_active := binsert (aa_assignment_id authority)
      (a\<lparr>aa_terminal_mutations := ms @ [m]\<rparr>) (da_active d)\<rparr>"
    using record_on_active [OF active resp, of process task operation digest]
    by (simp add: d1_def d_def ms_def m_def)
  have "d2 = d1\<lparr>da_active := bremove (aa_assignment_id authority) (da_active d1),
      da_terminal_history := pop_while_ge max_terminal_assignment_history (da_terminal_history d1) @ [t]\<rparr>"
    using active(2) unfolding d2_def
    by (simp add: terminalize_active_assignment_def d1 bmap_simps active_owned_by_def t_def)
  then have "pinned (aa_assignment_id authority) t 0 d2"
    using assignments_ok_wf [OF ok] id
    by (auto simp: pinned_def d1 bmap_simps t_def)
  then have pin: "pinned (aa_assignment_id authority) t (0 + sum_list (map terminalizes later))
      (assignment_run H later d2)"
    using ok2 later by (intro pinned_run) (auto simp: max_terminal_assignment_history_def)
  have "terminal_owned_by t scope authority"
    using active(2) id by (simp add: terminal_owned_by_def active_owned_by_def t_def)
  from pinned_mutations [OF pin this] have
    "recorded_mutations (assignment_run H later d2) scope authority = Some (ms @ [m])"
    by (simp add: t_def)
  from replay_of_last [OF this, of digest']
  have "assignment_mutation_replay (assignment_run H later d2) scope authority process task operation digest'
      = (if digest' = digest then ReplayExact response else ReplayConflict)"
    using coordinator_response_round_trip [OF resp] by (auto simp: m_def)
  moreover have "assignment_run H (before @ [OpRecord authority process task operation digest response,
      OpTerminalize authority now True] @ later) durable_assignments_default = assignment_run H later d2"
    by (simp add: assignment_run_def d2_def d1_def d_def del: apply_assignment_op.simps)
  ultimately show ?thesis by (simp only:)
qed

section \<open>Leases\<close>

text \<open>
  C7. Authorization is the lease check: it succeeds exactly when the read-only check does, which
  holds for one node scope only; on success the authority stays usable exactly until the renewed
  lease runs out, and no other assignment is touched.
\<close>

theorem authorization_renews_lease:
  "let (d', granted) = authorize_active_assignment d scope authority now secs
   in granted = active_assignment_is_authorized d scope authority now
    \<and> (granted \<longrightarrow> (\<forall>scope' now'. active_assignment_is_authorized d' scope' authority now'
          \<longleftrightarrow> scope' = scope \<and> now' \<le> sat_add now secs))
    \<and> (\<not> granted \<longrightarrow> d' = d)
    \<and> (\<forall>i. i \<noteq> aa_assignment_id authority \<longrightarrow> bget (da_active d') i = bget (da_active d) i)"
  by (auto simp: authorize_active_assignment_def active_assignment_is_authorized_def active_owned_by_def
      bmap_simps split: option.split)

section \<open>Restart\<close>

definition authority_of :: "'run active_assignment_record \<Rightarrow> assignment_authority" where
  "authority_of a =
     \<lparr>aa_assignment_id = aa_id a, aa_attempt_id = aa_attempt a, aa_offer_epoch = aa_epoch a\<rparr>"

text \<open>The loop over the collected authorities.\<close>

definition terminalize_each ::
  "u64 \<Rightarrow> assignment_authority list \<Rightarrow> 'run durable_assignments \<Rightarrow> 'run durable_assignments" where
  "terminalize_each now authorities d =
     fold (\<lambda>authority d. fst (terminalize_active_assignment d authority now False)) authorities d"

definition reconcile_active_assignments_after_restart ::
  "'run durable_assignments \<Rightarrow> u64 \<Rightarrow> 'run durable_assignments \<times> nat" where
  "reconcile_active_assignments_after_restart d now =
     (let authorities = map authority_of (bvalues (da_active d))
      in if authorities = [] then (d, 0)
         else (terminalize_each now authorities d, length authorities))"

definition retired :: "string set \<Rightarrow> 'run durable_assignments \<Rightarrow> bool" where
  "retired ids d \<longleftrightarrow> (\<forall>i\<in>ids. bget (da_active d) i = None
     \<and> (\<forall>t. find (\<lambda>t. ta_id t = i) (rev (da_terminal_history d)) = Some t \<longrightarrow> \<not> ta_replay_allowed t))"

lemma find_rev_drop:
  "find P (rev (drop n xs)) = Some x \<Longrightarrow> find P (rev xs) = Some x"
proof -
  have "rev xs = rev (drop n xs) @ rev (take n xs)"
    by (metis append_take_drop_id rev_append)
  then show "find P (rev (drop n xs)) = Some x \<Longrightarrow> find P (rev xs) = Some x"
    by (simp add: find_append)
qed

lemma find_rev_pop_while_ge:
  "find P (rev (pop_while_ge cap xs)) = Some x \<Longrightarrow> find P (rev xs) = Some x"
  using find_rev_drop pop_while_ge_drop by metis

lemma retired_terminalize:
  assumes ok: "assignments_ok d" and ret: "retired ids d"
    and a: "bget (da_active d) (aa_id a) = Some a"
  shows "retired (insert (aa_id a) ids) (fst (terminalize_active_assignment d (authority_of a) now False))"
    and "bget (da_active (fst (terminalize_active_assignment d (authority_of a) now False))) i
      = (if i = aa_id a then None else bget (da_active d) i)"
  using assms assignments_ok_wf [OF ok]
  by (auto simp: retired_def terminalize_active_assignment_def authority_of_def Let_def bmap_simps
      dest!: find_rev_pop_while_ge)

lemma terminalize_all:
  assumes "assignments_ok d" and "retired ids d" and "distinct (map aa_id as)"
    and "\<forall>a\<in>set as. bget (da_active d) (aa_id a) = Some a"
  shows "retired (ids \<union> aa_id ` set as) (terminalize_each now (map authority_of as) d)
    \<and> bget (da_active (terminalize_each now (map authority_of as) d)) i
      = (if i \<in> aa_id ` set as then None else bget (da_active d) i)"
  using assms
proof (induction as arbitrary: d ids)
  case Nil
  then show ?case by (simp add: terminalize_each_def)
next
  case (Cons a as)
  let ?d = "fst (terminalize_active_assignment d (authority_of a) now False)"
  have a: "bget (da_active d) (aa_id a) = Some a" using Cons.prems by simp
  note step = retired_terminalize [OF Cons.prems(1,2) a, of now]
  have "\<forall>b\<in>set as. bget (da_active ?d) (aa_id b) = Some b"
  proof
    fix b
    assume b: "b \<in> set as"
    with Cons.prems(3) have "aa_id b \<noteq> aa_id a" by (metis distinct.simps(2) image_eqI list.set_map list.simps(9))
    with b Cons.prems(4) show "bget (da_active ?d) (aa_id b) = Some b" by (simp add: step(2))
  qed
  from Cons.IH [OF assignments_ok_terminalize [OF Cons.prems(1)] step(1) _ this] Cons.prems(3)
  have "retired (insert (aa_id a) ids \<union> aa_id ` set as) (terminalize_each now (map authority_of as) ?d)
    \<and> bget (da_active (terminalize_each now (map authority_of as) ?d)) i
      = (if i \<in> aa_id ` set as then None else bget (da_active ?d) i)"
    by simp
  moreover have "terminalize_each now (map authority_of (a # as)) d
      = terminalize_each now (map authority_of as) ?d"
    by (simp add: terminalize_each_def)
  ultimately show ?case by (simp add: step(2))
qed

text \<open>Retiring assignments adds no terminal entry under another identifier: what is found there was there before.\<close>

lemma terminalize_other_history:
  assumes "assignments_ok d" and "i \<noteq> aa_assignment_id authority"
    and "find (\<lambda>t. ta_id t = i) (rev (da_terminal_history (fst (terminalize_active_assignment d authority now replay)))) = Some t"
  shows "find (\<lambda>t. ta_id t = i) (rev (da_terminal_history d)) = Some t"
  using assms assignments_okD(1) [OF assms(1)]
  by (fastforce simp: terminalize_active_assignment_def Let_def dest: find_rev_pop_while_ge
      split: option.splits if_splits)

lemma terminalize_each_other_history:
  assumes "assignments_ok d" and "i \<notin> aa_assignment_id ` set authorities"
    and "find (\<lambda>t. ta_id t = i) (rev (da_terminal_history (terminalize_each now authorities d))) = Some t"
  shows "find (\<lambda>t. ta_id t = i) (rev (da_terminal_history d)) = Some t"
  using assms
proof (induction authorities arbitrary: d)
  case (Cons authority authorities)
  let ?d = "fst (terminalize_active_assignment d authority now False)"
  have "find (\<lambda>t. ta_id t = i) (rev (da_terminal_history ?d)) = Some t"
    using Cons.IH [OF assignments_ok_terminalize [OF Cons.prems(1)]] Cons.prems(2,3)
    by (simp add: terminalize_each_def)
  from terminalize_other_history [OF Cons.prems(1) _ this] Cons.prems(2) show ?case by simp
qed (simp add: terminalize_each_def)

lemma values_are_entries:
  assumes "assignments_ok d" and "a \<in> set (bvalues (da_active d))"
  shows "bget (da_active d) (aa_id a) = Some a"
proof -
  from assms(2) obtain i where "(i, a) \<in> set (da_active d)" by auto
  then have "bget (da_active d) i = Some a"
    using assignments_ok_wf [OF assms(1)] by (simp add: in_bget_Some)
  then show ?thesis using assignments_okD(1) [OF assms(1)] by auto
qed

lemma bget_all_None: "(\<And>i. bget m i = None) \<Longrightarrow> m = []"
proof (cases m)
  case (Cons e m')
  assume "\<And>i. bget m i = None"
  then have "bget m (fst e) = None" .
  then show ?thesis by (simp add: Cons)
qed simp

text \<open>
  C8. After a coordinator restart no assignment is live: reconciliation empties the active set and reports how
  many it retired, and no authority whatever is authorized afterwards. An acknowledgement is still answered
  only as a replay: it changes nothing, and its assignment had already ended before the restart, on that node,
  attempt and epoch, with replays allowed. So no authority that was active at the restart is acknowledged.
\<close>

theorem restart_retires_every_assignment:
  assumes d: "d = assignment_run H ops durable_assignments_default"
    and res: "reconcile_active_assignments_after_restart d now = (d', n)"
  shows "da_active d' = [] \<and> n = length (da_active d)
    \<and> (\<forall>authority scope now' secs.
         \<not> snd (authorize_active_assignment d' scope authority now' secs)
         \<and> fst (acknowledge_active_assignment d' scope authority now' secs) = d'
         \<and> (snd (acknowledge_active_assignment d' scope authority now' secs) \<longrightarrow>
              \<not> bcontains (da_active d) (aa_assignment_id authority) \<and> terminal_assignment_matches d scope authority))"
proof -
  let ?as = "bvalues (da_active d)"
  have ok: "assignments_ok d" unfolding d by (rule assignments_ok_run [OF assignments_ok_default])
  note entry = values_are_entries [OF ok]
  have keys: "map aa_id ?as = bkeys (da_active d)"
    using assignments_okD(1) [OF ok] in_bget_Some [OF assignments_ok_wf [OF ok]]
    by (auto intro!: map_cong)
  have dist: "distinct (map aa_id ?as)"
    unfolding keys by (rule bwf_distinct [OF assignments_ok_wf [OF ok]])
  have d': "d' = terminalize_each now (map authority_of ?as) d" "n = length (da_active d)"
    using res by (auto simp: reconcile_active_assignments_after_restart_def Let_def terminalize_each_def
        split: if_splits)
  have "retired {} d" by (simp add: retired_def)
  from terminalize_all [OF ok this dist, of now] entry d'
  have ret: "retired (aa_id ` set ?as) d'"
    and act: "\<And>i. bget (da_active d') i = (if i \<in> aa_id ` set ?as then None else bget (da_active d) i)"
    by auto
  have ids: "i \<in> aa_id ` set ?as \<longleftrightarrow> bcontains (da_active d) i" for i
    using keys by (metis bcontains_def list.set_map)
  have none: "bget (da_active d') i = None" for i
    using act [of i] ids [of i] by (metis bcontains_iff)
  have replay: "\<not> bcontains (da_active d) (aa_assignment_id authority) \<and> terminal_assignment_matches d scope authority"
    if m: "terminal_assignment_matches d' scope authority" for scope authority
  proof
    from m obtain t where t: "find (\<lambda>t. ta_id t = aa_assignment_id authority) (rev (da_terminal_history d')) = Some t"
      and "ta_replay_allowed t" by (auto simp: terminal_assignment_matches_def split: option.splits)
    with ret show new: "\<not> bcontains (da_active d) (aa_assignment_id authority)"
      unfolding ids [symmetric] retired_def by blast
    have "aa_assignment_id ` set (map authority_of ?as) = aa_id ` set ?as" by (simp add: authority_of_def image_image)
    with new ids have "aa_assignment_id authority \<notin> aa_assignment_id ` set (map authority_of ?as)" by blast
    from terminalize_each_other_history [OF ok this] t m d'(1) show "terminal_assignment_matches d scope authority"
      by (auto simp: terminal_assignment_matches_def)
  qed
  show ?thesis
    using none replay d'(2) bget_all_None [OF none]
    by (simp add: acknowledge_active_assignment_def authorize_active_assignment_def)
qed

section \<open>Signed requests that need an assignment\<close>

text \<open>
  The requests of a node that \<open>authorize_signed_assignment_request\<close> tells apart, with the process
  and task it reads from them (the parent task for the two child requests).
\<close>

datatype node_request =
    PollTaskSecretGrant process_id task_instance_id
  | PollTaskControl process_id task_instance_id
  | PollDebugCommand process_id task_instance_id
  | ReportDebugState process_id task_instance_id
  | ReportDebugProbeHit process_id task_instance_id
  | ReportTaskLog process_id task_instance_id
  | ReportTaskLogChunk process_id task_instance_id
  | ReportVfsMetadata process_id task_instance_id
  | TaskCompleted process_id task_instance_id
  | LaunchChildTask process_id task_instance_id
  | JoinChildTask process_id task_instance_id
  | ReleaseArtifact process_id task_instance_id
  | OtherNodeRequest

fun process_target :: "node_request \<Rightarrow> (process_id \<times> task_instance_id \<times> bool) option" where
  "process_target (PollTaskSecretGrant process task) = Some (process, task, False)"
| "process_target (PollTaskControl process task) = Some (process, task, False)"
| "process_target (PollDebugCommand process task) = Some (process, task, False)"
| "process_target (ReportDebugState process task) = Some (process, task, False)"
| "process_target (ReportDebugProbeHit process task) = Some (process, task, False)"
| "process_target (ReportTaskLog process task) = Some (process, task, False)"
| "process_target (ReportTaskLogChunk process task) = Some (process, task, False)"
| "process_target (ReportVfsMetadata process task) = Some (process, task, False)"
| "process_target (TaskCompleted process task) = Some (process, task, True)"
| "process_target (LaunchChildTask process task) = Some (process, task, False)"
| "process_target (JoinChildTask process task) = Some (process, task, False)"
| "process_target (ReleaseArtifact process task) = Some (process, task, False)"
| "process_target OtherNodeRequest = None"

definition authorize_signed_assignment_request ::
  "'run durable_assignments \<Rightarrow> node_scope_key \<Rightarrow> node_request \<Rightarrow> assignment_authority option \<Rightarrow> u64
     \<Rightarrow> 'run durable_assignments \<times> (coordinator_error + assignment_authority option)" where
  "authorize_signed_assignment_request d scope request authority now =
     (case process_target request of
        None \<Rightarrow> (d, Inr None)
      | Some (process, task, is_terminal) \<Rightarrow>
     (case authority of
        None \<Rightarrow> (d, Inl (Unauthorized
          ''assignment-owned node request omitted its signed assignment authority''))
      | Some authority \<Rightarrow>
     (case bget (da_active d) (aa_assignment_id authority) of
        None \<Rightarrow> (d, Inl (Unauthorized
          ''assignment-owned node request refers to stale or terminal authority''))
      | Some active \<Rightarrow>
     (case aa_kind active of
        WorkflowCompiler _ \<Rightarrow> (d, Inl (Unauthorized
          ''process task request used system-assignment authority''))
      | ProcessTask active_process active_task \<Rightarrow>
        if active_process \<noteq> process \<or> task \<noteq> active_task
        then (d, Inl (Unauthorized ''assignment authority does not own the requested process task''))
        else (case authorize_active_assignment d scope authority now 180 of
            (d', False) \<Rightarrow> (d', Inl (Unauthorized
              ''assignment authority is stale, expired, or belongs to another node''))
          | (d', True) \<Rightarrow> (d', Inr (if is_terminal then Some authority else None)))))))"

text \<open>
  C6. A node's request about a process task gets past authorization only under an assignment that
  is active for exactly that process and task, was offered to the requesting node at the attempt
  and epoch it presents, has been acknowledged and is within its lease. The lease is then renewed
  for 180 seconds, and only a completion reports the authority to be retired.
\<close>

theorem signed_request_needs_owned_assignment:
  assumes "process_target request = Some (process, task, is_terminal)"
    and "authorize_signed_assignment_request d scope request authority now = (d', Inr retire)"
  shows "\<exists>au a. authority = Some au \<and> bget (da_active d) (aa_assignment_id au) = Some a
     \<and> aa_kind a = ProcessTask process task \<and> (aa_tenant a, aa_project a, aa_node a) = scope
     \<and> aa_attempt a = aa_attempt_id au \<and> aa_epoch a = aa_offer_epoch au
     \<and> aa_acknowledged_at a \<noteq> None \<and> now \<le> aa_lease_expires_at a
     \<and> bget (da_active d') (aa_assignment_id au)
         = Some (a\<lparr>aa_state := Running, aa_lease_expires_at := sat_add now 180\<rparr>)
     \<and> retire = (if is_terminal then Some au else None)"
  using assms
  by (auto simp: authorize_signed_assignment_request_def authorize_active_assignment_def active_owned_by_def
      bmap_simps not_less split: option.splits assignment_kind.splits if_splits)

section \<open>Witnesses\<close>

text \<open>One assignment offered to node \<open>n\<close>, acknowledged at 5, with a constant hash function.\<close>

definition example_authority :: assignment_authority where
  "example_authority = \<lparr>aa_assignment_id = ''assignment-h'', aa_attempt_id = ''a1'', aa_offer_epoch = 1\<rparr>"

definition example_ops :: "nat assignment_op list" where
  "example_ops =
     [OpOffer (ProcessTask ''v'' ''k'') ''t'' ''p'' ''n'' ''a1'' 1 0 30 ''o'',
      OpAcknowledge (''t'', ''p'', ''n'') example_authority 5 180]"

definition example_record :: "nat active_assignment_record" where
  "example_record =
     \<lparr>aa_id = ''assignment-h'', aa_kind = ProcessTask ''v'' ''k'', aa_tenant = ''t'', aa_project = ''p'',
      aa_node = ''n'', aa_attempt = ''a1'', aa_epoch = 1, aa_state = Acknowledged, aa_offered_at = 0,
      aa_acknowledged_at = Some 5, aa_lease_expires_at = 185, aa_terminal_mutations = []\<rparr>"

lemma example_run:
  "assignment_run (\<lambda>_. ''h'') example_ops durable_assignments_default
     = \<lparr>da_active = [(''assignment-h'', example_record)], da_terminal_history = []\<rparr>"
  by code_simp

theorem terminalized_assignment_fenced_witness:
  "let d = fst (terminalize_active_assignment
         (assignment_run (\<lambda>_. ''h'') example_ops durable_assignments_default) example_authority 9 True)
   in \<not> snd (authorize_active_assignment d (''t'', ''p'', ''n'') example_authority 10 180)"
proof -
  define d where "d = fst (terminalize_active_assignment
         (assignment_run (\<lambda>_. ''h'') example_ops durable_assignments_default) example_authority 9 True)"
  obtain r where "terminalize_active_assignment
      (assignment_run (\<lambda>_. ''h'') example_ops durable_assignments_default) example_authority 9 True = (d, Some r)"
    unfolding d_def example_run
    by (simp add: terminalize_active_assignment_def example_authority_def example_record_def)
  from terminalized_assignment_fenced [OF this, of "[]" example_authority "(''t'', ''p'', ''n'')" 10 180]
  show ?thesis unfolding d_def [symmetric] by (simp add: Let_def)
qed

theorem terminal_mutation_idempotent_witness:
  "assignment_mutation_replay
     (assignment_run (\<lambda>_. ''h'')
        (example_ops @ [OpRecord example_authority ''v'' ''k'' ''op'' ''dg'' (RTaskRecorded ''v'' ''k'' 1),
           OpTerminalize example_authority 9 True] @ [])
        durable_assignments_default)
     (''t'', ''p'', ''n'') example_authority ''v'' ''k'' ''op'' ''dg''
   = ReplayExact (RTaskRecorded ''v'' ''k'' 1 :: (nat, unit) coordinator_response)"
proof -
  have "bget (da_active (assignment_run (\<lambda>_. ''h'') example_ops durable_assignments_default))
      (aa_assignment_id example_authority) = Some example_record"
    unfolding example_run by (simp add: example_authority_def)
  moreover have "active_owned_by example_record (''t'', ''p'', ''n'') example_authority"
    by (simp add: active_owned_by_def example_record_def example_authority_def)
  ultimately show ?thesis
    using terminal_mutation_idempotent [of "\<lambda>_. ''h''" example_ops example_authority example_record
        "(''t'', ''p'', ''n'')" "RTaskRecorded ''v'' ''k'' 1" "TaskRecorded ''v'' ''k'' 1" "[]"
        "''v''" "''k''" "''op''" "''dg''" 9 "''dg''"]
    by simp
qed

theorem restart_retires_every_assignment_witness:
  "let d = assignment_run (\<lambda>_. ''h'') example_ops durable_assignments_default;
       (d', n) = reconcile_active_assignments_after_restart d 20
   in n = 1 \<and> da_active d' = []
    \<and> \<not> snd (authorize_active_assignment d' (''t'', ''p'', ''n'') example_authority 21 180)
    \<and> \<not> snd (acknowledge_active_assignment d' (''t'', ''p'', ''n'') example_authority 21 180)"
proof -
  define d where "d = assignment_run (\<lambda>_. ''h'') example_ops durable_assignments_default"
  obtain d' n where res: "reconcile_active_assignments_after_restart d 20 = (d', n)" by fastforce
  have active: "length (da_active d) = 1" "bcontains (da_active d) (aa_assignment_id example_authority)"
    unfolding d_def example_run by (simp_all add: bcontains_def example_authority_def)
  note restart = restart_retires_every_assignment [OF d_def res]
  have "\<not> snd (authorize_active_assignment d' (''t'', ''p'', ''n'') example_authority 21 180)"
    "\<not> snd (acknowledge_active_assignment d' (''t'', ''p'', ''n'') example_authority 21 180)"
    using restart active(2) by blast+
  with restart active(1) show ?thesis by (simp add: d_def [symmetric] res)
qed

theorem signed_request_needs_owned_assignment_witness:
  "let d = assignment_run (\<lambda>_. ''h'') example_ops durable_assignments_default;
       (d', res) = authorize_signed_assignment_request d (''t'', ''p'', ''n'') (TaskCompleted ''v'' ''k'')
          (Some example_authority) 100
   in res = Inr (Some example_authority)
    \<and> map_option aa_lease_expires_at (bget (da_active d') ''assignment-h'') = Some 280"
proof -
  define d where "d = assignment_run (\<lambda>_. ''h'') example_ops durable_assignments_default"
  have sat: "sat_add 100 180 = 280" by code_simp
  have id: "aa_assignment_id example_authority = ''assignment-h''" by (simp add: example_authority_def)
  have "snd (authorize_signed_assignment_request d (''t'', ''p'', ''n'') (TaskCompleted ''v'' ''k'')
          (Some example_authority) 100) = Inr (Some example_authority)"
    unfolding d_def example_run by code_simp
  then obtain d' where res: "authorize_signed_assignment_request d (''t'', ''p'', ''n'')
      (TaskCompleted ''v'' ''k'') (Some example_authority) 100 = (d', Inr (Some example_authority))"
    by (metis prod.collapse)
  from signed_request_needs_owned_assignment [OF _ res, of "''v''" "''k''" True] show ?thesis
    unfolding d_def [symmetric] Let_def by (auto simp: res id sat)
qed

theorem authorization_renews_lease_witness:
  "let d = assignment_run (\<lambda>_. ''h'') example_ops durable_assignments_default;
       (d', granted) = authorize_active_assignment d (''t'', ''p'', ''n'') example_authority 100 50
   in granted \<and> active_assignment_is_authorized d' (''t'', ''p'', ''n'') example_authority 150
    \<and> \<not> active_assignment_is_authorized d' (''t'', ''p'', ''n'') example_authority 151
    \<and> \<not> active_assignment_is_authorized d' (''t'', ''p'', ''m'') example_authority 150"
proof -
  define d where "d = assignment_run (\<lambda>_. ''h'') example_ops durable_assignments_default"
  have sat: "sat_add 100 50 = 150" by code_simp
  obtain d' granted where res:
    "authorize_active_assignment d (''t'', ''p'', ''n'') example_authority 100 50 = (d', granted)" by fastforce
  have "active_assignment_is_authorized d (''t'', ''p'', ''n'') example_authority 100"
    unfolding d_def example_run by code_simp
  with authorization_renews_lease [of d "(''t'', ''p'', ''n'')" example_authority 100 50]
  show ?thesis unfolding d_def [symmetric] by (simp add: res sat)
qed

end
