(* ===== verification/CF_Execution.thy ===== *)
theory CF_Execution
  imports CF_Scheduler CF_Vfs "HOL-Library.Multiset"
begin

text \<open>
  What crosses the boundary of a task (\<open>clusterflux-core/src/execution.rs\<close>): boundary values whose JSON carries
  placeholders for the handles of a table, task specifications with the dependencies derived from their
  arguments, the requests a Wasm guest makes of its host, and the result of joining a task.
  JSON values are those of the \<open>serde_json\<close> crate; its number type is the type variable \<open>'n\<close>, with the
  conversions from and to \<open>u64\<close> as the argument \<open>json_numbers\<close>.
\<close>

section \<open>JSON values\<close>

datatype 'n json =
    JNull
  | JBool bool
  | JNumber 'n
  | JString string
  | JArray "'n json list"
  | JObject "(string \<times> 'n json) list"

record 'n json_numbers =
  jn_as_u64 :: "'n \<Rightarrow> u64 option"
  jn_from_u64 :: "u64 \<Rightarrow> 'n"

section \<open>Boundary values\<close>

record artifact_handle =
  ah_id :: artifact_id
  ah_digest :: digest
  ah_size_bytes :: u64

datatype task_boundary_handle =
    HSourceSnapshot digest
  | HBlob digest
  | HArtifact artifact_handle
  | HVfsManifest digest

record 'n structured_task_boundary =
  bs_value :: "'n json"
  bs_handles :: "task_boundary_handle list"

datatype 'n task_boundary_value =
    SmallJson "'n json"
  | Structured "'n structured_task_boundary"
  | BSourceSnapshot digest
  | BBlob digest
  | BArtifact artifact_handle
  | BVfsManifest digest

definition task_handle_placeholder_key :: string where
  "task_handle_placeholder_key = ''$task_handle''"

fun handle_kind :: "task_boundary_handle \<Rightarrow> string" where
  "handle_kind (HSourceSnapshot _) = ''source_snapshot''"
| "handle_kind (HBlob _) = ''blob''"
| "handle_kind (HArtifact _) = ''artifact''"
| "handle_kind (HVfsManifest _) = ''vfs_manifest''"

definition validate_artifact_handle :: "artifact_handle \<Rightarrow> string + unit" where
  "validate_artifact_handle a =
     (if str_is_blank (ah_id a) \<or> length (ah_id a) > 256 then Inl ''artifact handle has an invalid ID''
      else if \<not> is_valid_sha256 (ah_digest a) then Inl ''artifact handle has an invalid digest''
      else Inr ())"

fun validate_handle :: "task_boundary_handle \<Rightarrow> string + unit" where
  "validate_handle (HArtifact a) = validate_artifact_handle a"
| "validate_handle (HSourceSnapshot d) =
     (if \<not> is_valid_sha256 d then Inl ''source_snapshot handle has an invalid digest'' else Inr ())"
| "validate_handle (HBlob d) = (if \<not> is_valid_sha256 d then Inl ''blob handle has an invalid digest'' else Inr ())"
| "validate_handle (HVfsManifest d) =
     (if \<not> is_valid_sha256 d then Inl ''vfs_manifest handle has an invalid digest'' else Inr ())"

definition digest_json :: "digest \<Rightarrow> 'n json" where
  "digest_json d = JObject [(''digest'', JString d)]"

definition artifact_json :: "'n json_numbers \<Rightarrow> artifact_handle \<Rightarrow> 'n json" where
  "artifact_json N a =
     JObject [(''digest'', JString (ah_digest a)), (''id'', JString (ah_id a)),
              (''size_bytes'', JNumber (jn_from_u64 N (ah_size_bytes a)))]"

fun materialized_value :: "'n json_numbers \<Rightarrow> task_boundary_handle \<Rightarrow> 'n json" where
  "materialized_value N (HArtifact a) = artifact_json N a"
| "materialized_value N (HSourceSnapshot d) = digest_json d"
| "materialized_value N (HBlob d) = digest_json d"
| "materialized_value N (HVfsManifest d) = digest_json d"

text \<open>A fallible loop stops at the first error.\<close>

fun first_error :: "('a \<Rightarrow> 'e + unit) \<Rightarrow> 'a list \<Rightarrow> 'e + unit" where
  "first_error f [] = Inr ()"
| "first_error f (x # xs) = (case f x of Inl e \<Rightarrow> Inl e | Inr _ \<Rightarrow> first_error f xs)"

subsection \<open>Placeholders\<close>

fun json_as_u64 :: "'n json_numbers \<Rightarrow> 'n json option \<Rightarrow> u64 option" where
  "json_as_u64 N (Some (JNumber n)) = jn_as_u64 N n"
| "json_as_u64 N _ = None"

fun json_as_str :: "'n json option \<Rightarrow> string option" where
  "json_as_str (Some (JString s)) = Some s"
| "json_as_str _ = None"

text \<open>The checks on one placeholder object, with the table of handles already used.\<close>

definition use_placeholder ::
  "'n json_numbers \<Rightarrow> (string \<times> 'n json) list \<Rightarrow> 'n json \<Rightarrow> task_boundary_handle list \<Rightarrow> bool list \<Rightarrow> string + bool list" where
  "use_placeholder N object placeholder handles used =
     (if length object \<noteq> 1 then Inl ''task handle placeholder must be the only object field''
      else case placeholder of
        JObject payload \<Rightarrow>
          if length payload \<noteq> 2 \<or> \<not> bcontains payload ''index'' \<or> \<not> bcontains payload ''kind''
          then Inl ''task handle placeholder must contain exactly index and kind''
          else (case json_as_u64 N (bget payload ''index'') of
              None \<Rightarrow> Inl ''task handle placeholder index is invalid''
            | Some index \<Rightarrow>
              (case json_as_str (bget payload ''kind'') of
                 None \<Rightarrow> Inl ''task handle placeholder kind is invalid''
               | Some kind \<Rightarrow>
                 let i = unat index in
                 if i \<ge> length handles
                 then Inl (''task handle placeholder index '' @ nat_to_string i @ '' is out of range'')
                 else if handle_kind (handles ! i) \<noteq> kind
                 then Inl (''task handle placeholder '' @ nat_to_string i @ '' expects kind '' @ kind
                        @ '', but the table contains '' @ handle_kind (handles ! i))
                 else if used ! i
                 then Inl (''task handle placeholder index '' @ nat_to_string i @ '' is used more than once'')
                 else Inr (used[i := True])))
      | _ \<Rightarrow> Inl ''task handle placeholder payload must be an object'')"

fun validate_task_handle_placeholders ::
  "'n json_numbers \<Rightarrow> task_boundary_handle list \<Rightarrow> 'n json \<Rightarrow> bool list \<Rightarrow> string + bool list"
and validate_placeholder_values ::
  "'n json_numbers \<Rightarrow> task_boundary_handle list \<Rightarrow> 'n json list \<Rightarrow> bool list \<Rightarrow> string + bool list"
and validate_placeholder_fields ::
  "'n json_numbers \<Rightarrow> task_boundary_handle list \<Rightarrow> (string \<times> 'n json) list \<Rightarrow> bool list \<Rightarrow> string + bool list" where
  "validate_task_handle_placeholders N handles (JArray values) used = validate_placeholder_values N handles values used"
| "validate_task_handle_placeholders N handles (JObject object) used =
     (case bget object task_handle_placeholder_key of
        Some placeholder \<Rightarrow> use_placeholder N object placeholder handles used
      | None \<Rightarrow> validate_placeholder_fields N handles object used)"
| "validate_task_handle_placeholders N handles _ used = Inr used"
| "validate_placeholder_values N handles [] used = Inr used"
| "validate_placeholder_values N handles (v # vs) used =
     (case validate_task_handle_placeholders N handles v used of
        Inl e \<Rightarrow> Inl e | Inr used \<Rightarrow> validate_placeholder_values N handles vs used)"
| "validate_placeholder_fields N handles [] used = Inr used"
| "validate_placeholder_fields N handles ((k, v) # fs) used =
     (case validate_task_handle_placeholders N handles v used of
        Inl e \<Rightarrow> Inl e | Inr used \<Rightarrow> validate_placeholder_fields N handles fs used)"

definition validate_structured :: "'n json_numbers \<Rightarrow> 'n structured_task_boundary \<Rightarrow> string + unit" where
  "validate_structured N b =
     (if length (bs_handles b) > 256 then Inl ''structured task argument exceeds 256 handles''
      else case first_error validate_handle (bs_handles b) of
        Inl e \<Rightarrow> Inl e
      | Inr _ \<Rightarrow>
        (case validate_task_handle_placeholders N (bs_handles b) (bs_value b) (replicate (length (bs_handles b)) False) of
           Inl e \<Rightarrow> Inl e
         | Inr used \<Rightarrow>
           (case find (\<lambda>i. \<not> used ! i) [0..<length used] of
              Some i \<Rightarrow> Inl (''structured task argument contains unused handle-table entry '' @ nat_to_string i)
            | None \<Rightarrow> Inr ())))"

definition placeholder_field :: "'n json \<Rightarrow> string \<Rightarrow> 'n json option" where
  "placeholder_field v key = (case v of JObject object \<Rightarrow> bget object key | _ \<Rightarrow> None)"

fun materialize_task_handle_placeholders ::
  "'n json_numbers \<Rightarrow> task_boundary_handle list \<Rightarrow> 'n json \<Rightarrow> string + 'n json"
and materialize_values :: "'n json_numbers \<Rightarrow> task_boundary_handle list \<Rightarrow> 'n json list \<Rightarrow> string + 'n json list"
and materialize_fields ::
  "'n json_numbers \<Rightarrow> task_boundary_handle list \<Rightarrow> (string \<times> 'n json) list \<Rightarrow> string + (string \<times> 'n json) list" where
  "materialize_task_handle_placeholders N handles (JArray values) = map_sum id JArray (materialize_values N handles values)"
| "materialize_task_handle_placeholders N handles (JObject object) =
     (case bget object task_handle_placeholder_key of
        Some placeholder \<Rightarrow>
          (case json_as_u64 N (placeholder_field placeholder ''index'') of
             None \<Rightarrow> Inl ''validated task handle placeholder lost its index''
           | Some index \<Rightarrow>
             if unat index \<ge> length handles then Inl ''validated task handle placeholder became invalid''
             else Inr (materialized_value N (handles ! unat index)))
      | None \<Rightarrow> map_sum id JObject (materialize_fields N handles object))"
| "materialize_task_handle_placeholders N handles v = Inr v"
| "materialize_values N handles [] = Inr []"
| "materialize_values N handles (v # vs) =
     (case materialize_task_handle_placeholders N handles v of
        Inl e \<Rightarrow> Inl e | Inr v \<Rightarrow> map_sum id (Cons v) (materialize_values N handles vs))"
| "materialize_fields N handles [] = Inr []"
| "materialize_fields N handles ((k, v) # fs) =
     (case materialize_task_handle_placeholders N handles v of
        Inl e \<Rightarrow> Inl e | Inr v \<Rightarrow> map_sum id (Cons (k, v)) (materialize_fields N handles fs))"

definition materialize_structured :: "'n json_numbers \<Rightarrow> 'n structured_task_boundary \<Rightarrow> string + 'n json" where
  "materialize_structured N b =
     (case validate_structured N b of
        Inl e \<Rightarrow> Inl e | Inr _ \<Rightarrow> materialize_task_handle_placeholders N (bs_handles b) (bs_value b))"

subsection \<open>Values\<close>

text \<open>Digest values of all three kinds are checked as a source snapshot handle, as in the code.\<close>

fun validate_boundary_value :: "'n json_numbers \<Rightarrow> 'n task_boundary_value \<Rightarrow> string + unit" where
  "validate_boundary_value N (SmallJson _) = Inr ()"
| "validate_boundary_value N (Structured b) = validate_structured N b"
| "validate_boundary_value N (BSourceSnapshot d) = validate_handle (HSourceSnapshot d)"
| "validate_boundary_value N (BBlob d) = validate_handle (HSourceSnapshot d)"
| "validate_boundary_value N (BVfsManifest d) = validate_handle (HSourceSnapshot d)"
| "validate_boundary_value N (BArtifact a) = validate_handle (HArtifact a)"

fun materialize_boundary_value :: "'n json_numbers \<Rightarrow> 'n task_boundary_value \<Rightarrow> string + 'n json" where
  "materialize_boundary_value N (SmallJson v) = Inr v"
| "materialize_boundary_value N (Structured b) = materialize_structured N b"
| "materialize_boundary_value N (BSourceSnapshot d) = map_sum id (\<lambda>_. digest_json d) (validate_handle (HSourceSnapshot d))"
| "materialize_boundary_value N (BBlob d) = map_sum id (\<lambda>_. digest_json d) (validate_handle (HSourceSnapshot d))"
| "materialize_boundary_value N (BVfsManifest d) = map_sum id (\<lambda>_. digest_json d) (validate_handle (HSourceSnapshot d))"
| "materialize_boundary_value N (BArtifact a) = map_sum id (\<lambda>_. artifact_json N a) (validate_handle (HArtifact a))"

fun handle_artifact :: "task_boundary_handle \<Rightarrow> artifact_handle option" where
  "handle_artifact (HArtifact a) = Some a"
| "handle_artifact _ = None"

fun handle_source :: "task_boundary_handle \<Rightarrow> digest option" where
  "handle_source (HSourceSnapshot d) = Some d"
| "handle_source _ = None"

fun value_artifact_handles :: "'n task_boundary_value \<Rightarrow> artifact_handle list" where
  "value_artifact_handles (BArtifact a) = [a]"
| "value_artifact_handles (Structured b) = List.map_filter handle_artifact (bs_handles b)"
| "value_artifact_handles _ = []"

fun value_required_artifacts :: "'n task_boundary_value \<Rightarrow> artifact_id list" where
  "value_required_artifacts (BArtifact a) = [ah_id a]"
| "value_required_artifacts (Structured b) = List.map_filter (map_option ah_id \<circ> handle_artifact) (bs_handles b)"
| "value_required_artifacts _ = []"

fun value_source_snapshots :: "'n task_boundary_value \<Rightarrow> digest list" where
  "value_source_snapshots (BSourceSnapshot d) = [d]"
| "value_source_snapshots (Structured b) = List.map_filter handle_source (bs_handles b)"
| "value_source_snapshots _ = []"

fun rebind_handle :: "digest \<Rightarrow> task_boundary_handle \<Rightarrow> task_boundary_handle" where
  "rebind_handle replacement (HSourceSnapshot _) = HSourceSnapshot replacement"
| "rebind_handle replacement h = h"

fun value_rebind_source_snapshot :: "digest \<Rightarrow> 'n task_boundary_value \<Rightarrow> 'n task_boundary_value \<times> nat" where
  "value_rebind_source_snapshot replacement (BSourceSnapshot _) = (BSourceSnapshot replacement, 1)"
| "value_rebind_source_snapshot replacement (Structured b) =
     (Structured (b\<lparr>bs_handles := map (rebind_handle replacement) (bs_handles b)\<rparr>),
      sum_list (map (\<lambda>h. if handle_source h = None then 0 else 1) (bs_handles b)))"
| "value_rebind_source_snapshot replacement v = (v, 0)"

section \<open>Task specifications\<close>

datatype wasm_export_abi = EntrypointV1 | TaskV1

datatype task_dispatch = CoordinatorNodeWasm "string option" wasm_export_abi

datatype task_failure_policy = FailFast | AwaitOperator

record repository_revision =
  rv_repository_id :: string
  rv_clone_url :: string
  rv_commit_sha :: string
  rv_source_snapshot :: digest

text \<open>\<open>validate_bounded_text\<close> of \<open>core/src/automation.rs\<close>.\<close>

definition validate_bounded_text :: "string \<Rightarrow> string \<Rightarrow> nat \<Rightarrow> string + unit" where
  "validate_bounded_text label v maximum =
     (if str_is_blank v \<or> length v > maximum \<or> has_control (map of_char v)
      then Inl (label @ '' is empty, too large, or contains control characters'') else Inr ())"

definition validate_public_clone_url :: "string \<Rightarrow> string + unit" where
  "validate_public_clone_url url =
     (case validate_bounded_text ''public clone URL'' url 2048 of
        Inl e \<Rightarrow> Inl e
      | Inr _ \<Rightarrow>
        if take 8 url \<noteq> ''https://'' \<or> CHR ''@'' \<in> set url
        then Inl ''public clone URL must use HTTPS without credentials'' else Inr ())"

definition validate_commit_sha :: "string \<Rightarrow> string + unit" where
  "validate_commit_sha sha =
     (if length sha \<noteq> 40 \<or> \<not> list_all lower_hex_digit sha
      then Inl ''commit SHA must be exactly 40 lowercase hexadecimal characters'' else Inr ())"

definition validate_revision :: "repository_revision \<Rightarrow> string + unit" where
  "validate_revision r =
     (case validate_public_clone_url (rv_clone_url r) of
        Inl e \<Rightarrow> Inl e
      | Inr _ \<Rightarrow>
        (case validate_commit_sha (rv_commit_sha r) of
           Inl e \<Rightarrow> Inl e
         | Inr _ \<Rightarrow>
           if \<not> is_valid_sha256 (rv_source_snapshot r) then Inl ''repository source snapshot is not a SHA-256 digest''
           else Inr ()))"

record 'n task_spec =
  sp_tenant :: tenant_id
  sp_project :: project_id
  sp_process :: process_id
  sp_task_definition :: task_definition_id
  sp_task_instance :: task_instance_id
  sp_dispatch :: task_dispatch
  sp_environment_id :: "string option"
  sp_environment :: "environment_requirements option"
  sp_environment_digest :: "digest option"
  sp_required_capabilities :: "capability bset"
  sp_dependency_cache :: "digest option"
  sp_source_snapshot :: "digest option"
  sp_source_revision :: "repository_revision option"
  sp_required_artifacts :: "artifact_id list"
  sp_args :: "'n task_boundary_value list"
  sp_requested_secrets :: "string list"
  sp_vfs_epoch :: u64
  sp_failure_policy :: task_failure_policy
  sp_bundle_digest :: "digest option"

definition valid_secret_name :: "string \<Rightarrow> bool" where
  "valid_secret_name name \<longleftrightarrow> name \<noteq> [] \<and> length name \<le> 128
     \<and> list_all (\<lambda>b. ascii_lower b \<or> ascii_upper b \<or> ascii_digit b \<or> b \<in> set ''-_.'') name"

definition validate_secret_names :: "string list \<Rightarrow> string + unit" where
  "validate_secret_names names =
     (if length names > 16 then Inl ''task requests more than 16 secrets''
      else if \<not> list_all valid_secret_name names \<or> \<not> distinct names then Inl ''task secret name is invalid or duplicated''
      else Inr ())"

definition derived_boundary_dependencies :: "'n json_numbers \<Rightarrow> 'n task_spec \<Rightarrow> string + digest option \<times> artifact_id list" where
  "derived_boundary_dependencies N t =
     (case first_error (validate_boundary_value N) (sp_args t) of
        Inl e \<Rightarrow> Inl e
      | Inr _ \<Rightarrow>
        let snapshots = sextend (concat (map value_source_snapshots (sp_args t))) [] in
        if length snapshots > 1 then Inl ''one task invocation cannot require multiple distinct source snapshots''
        else Inr (case snapshots of [] \<Rightarrow> None | d # _ \<Rightarrow> Some d,
                  sextend (concat (map value_required_artifacts (sp_args t))) []))"

definition process_source_context :: "'n task_spec \<Rightarrow> digest option \<Rightarrow> bool" where
  "process_source_context t source =
     ((case sp_dispatch t of CoordinatorNodeWasm _ abi \<Rightarrow> abi = EntrypointV1)
      \<or> SourceFilesystem \<in> set (sp_required_capabilities t) \<and> source = None)"

definition validate_boundary_authority :: "'n json_numbers \<Rightarrow> 'n task_spec \<Rightarrow> string + unit" where
  "validate_boundary_authority N t =
     (case validate_secret_names (sp_requested_secrets t) of
        Inl e \<Rightarrow> Inl e
      | Inr _ \<Rightarrow>
        (case derived_boundary_dependencies N t of
           Inl e \<Rightarrow> Inl e
         | Inr (source, artifacts) \<Rightarrow>
           if \<not> process_source_context t source \<and> sp_source_snapshot t \<noteq> source
           then Inl ''task source dependency does not exactly match the canonical argument handle table''
           else (case (case sp_source_revision t of
                     None \<Rightarrow> Inr ()
                   | Some revision \<Rightarrow>
                     (case validate_revision revision of
                        Inl e \<Rightarrow> Inl e
                      | Inr _ \<Rightarrow>
                        if sp_source_snapshot t \<noteq> Some (rv_source_snapshot revision)
                        then Inl ''task Git revision does not match its canonical source handle'' else Inr ())) of
               Inl e \<Rightarrow> Inl e
             | Inr _ \<Rightarrow>
               if sp_required_artifacts t \<noteq> artifacts
               then Inl ''task artifact dependencies do not exactly match the canonical argument handle table''
               else Inr ())))"

text \<open>The specification is rebound in place: a failure of the last check leaves the new arguments behind.\<close>

definition rebind_source_snapshot :: "'n json_numbers \<Rightarrow> 'n task_spec \<Rightarrow> digest \<Rightarrow> 'n task_spec \<times> (string + unit)" where
  "rebind_source_snapshot N t replacement =
     (case validate_boundary_authority N t of
        Inl e \<Rightarrow> (t, Inl e)
      | Inr _ \<Rightarrow>
        if sp_source_snapshot t = None then (t, Inl ''task has no SourceSnapshot argument handle to rebind'')
        else let rebound = map (value_rebind_source_snapshot replacement) (sp_args t);
                 t = t\<lparr>sp_args := map fst rebound\<rparr>
             in if sum_list (map snd rebound) = 0
                then (t, Inl ''task source dependency has no canonical argument handle'')
                else let t = t\<lparr>sp_source_snapshot := Some replacement\<rparr> in (t, validate_boundary_authority N t))"

section \<open>Guest requests\<close>

definition wasm_task_abi_version :: u32 where
  "wasm_task_abi_version = 1"

definition max_wasm_task_envelope_bytes :: nat where
  "max_wasm_task_envelope_bytes = 64 * 1024"

definition abi_version_error :: "string \<Rightarrow> u32 \<Rightarrow> string" where
  "abi_version_error what v =
     ''unsupported Wasm '' @ what @ '' ABI version '' @ nat_to_string (unat v) @ ''; expected '' @ nat_to_string (unat wasm_task_abi_version)"

datatype command_network_policy = NetworkDisabled | NetworkEnabled

record wasm_host_command_request =
  hc_abi_version :: u32
  hc_program :: string
  hc_args :: "string list"
  hc_working_directory :: string
  hc_environment_variables :: "(string, string) bmap"
  hc_secret_environment_variables :: "(string, string) bmap"
  hc_timeout_ms :: u64
  hc_network :: command_network_policy

definition validate_command_working_directory :: "string \<Rightarrow> string + unit" where
  "validate_command_working_directory path =
     (let permitted_root = (path = ''/workspace'' \<or> take 11 path = ''/workspace/''
             \<or> path = ''/clusterflux/output'' \<or> take 20 path = ''/clusterflux/output/'')
      in if \<not> permitted_root \<or> length path > 4096 \<or> char_of (0::nat) \<in> set path \<or> char_of (92::nat) \<in> set path
            \<or> list_ex (\<lambda>component. component = ''..'') (str_split (CHR ''/'') path)
         then Inl ''Wasm command working directory must stay under /workspace or /clusterflux/output''
         else Inr ())"

definition valid_environment_name :: "string \<Rightarrow> bool" where
  "valid_environment_name name =
     (case name of
        [] \<Rightarrow> False
      | c # cs \<Rightarrow> (c = CHR ''_'' \<or> ascii_lower c \<or> ascii_upper c)
          \<and> list_all (\<lambda>c. c = CHR ''_'' \<or> ascii_lower c \<or> ascii_upper c \<or> ascii_digit c) cs)"

text \<open>The loop over the environment variables adds their sizes; a size of \<open>usize\<close> cannot overflow here.\<close>

fun environment_bytes :: "(string \<times> string) list \<Rightarrow> nat \<Rightarrow> string + nat" where
  "environment_bytes [] acc = Inr acc"
| "environment_bytes ((name, v) # vars) acc =
     (if \<not> valid_environment_name name \<or> char_of (0::nat) \<in> set v
      then Inl ''Wasm command environment contains an invalid variable''
      else if length name > 128 \<or> length v > 16 * 1024 then Inl ''Wasm command environment variable exceeds ABI limits''
      else if acc + (length name + length v) > usize_max then Inl ''Wasm command environment size overflowed''
      else environment_bytes vars (acc + (length name + length v)))"

text \<open>The length of the JSON encoding is an argument: \<open>serde_json::to_vec\<close> with its error.\<close>

definition validate_command_request ::
  "(wasm_host_command_request \<Rightarrow> string + nat) \<Rightarrow> wasm_host_command_request \<Rightarrow> string + unit" where
  "validate_command_request encoded r =
     (if hc_abi_version r \<noteq> wasm_task_abi_version then Inl (abi_version_error ''command'' (hc_abi_version r))
      else if str_is_blank (hc_program r) \<or> length (hc_program r) > 4096 then Inl ''Wasm command program is invalid''
      else if length (hc_args r) > 1024 \<or> list_ex (\<lambda>arg. length arg > 16 * 1024) (hc_args r)
      then Inl ''Wasm command argument list exceeds ABI limits''
      else case validate_command_working_directory (hc_working_directory r) of
        Inl e \<Rightarrow> Inl e
      | Inr _ \<Rightarrow>
        if length (hc_environment_variables r) > 128 then Inl ''Wasm command environment exceeds 128 variables''
        else if length (hc_secret_environment_variables r) > 16
          \<or> list_ex (\<lambda>name. \<not> valid_environment_name name \<or> bcontains (hc_environment_variables r) name)
              (bkeys (hc_secret_environment_variables r))
        then Inl ''Wasm command secret environment is invalid or too large''
        else (case validate_secret_names (bvalues (hc_secret_environment_variables r)) of
            Inl e \<Rightarrow> Inl e
          | Inr _ \<Rightarrow>
            (case environment_bytes (hc_environment_variables r) 0 of
               Inl e \<Rightarrow> Inl e
             | Inr bytes \<Rightarrow>
               if bytes > 32 * 1024 then Inl ''Wasm command environment exceeds the 32 KiB limit''
               else if hc_timeout_ms r < 1000 \<or> hc_timeout_ms r > 60 * 60 * 1000
               then Inl ''Wasm command timeout must be between 1 second and 1 hour''
               else (case encoded r of
                   Inl e \<Rightarrow> Inl e
                 | Inr bytes \<Rightarrow>
                   if bytes > max_wasm_task_envelope_bytes then Inl ''Wasm command request exceeds the task ABI limit''
                   else Inr ()))))"

definition validate_task_relative_path :: "string \<Rightarrow> string + unit" where
  "validate_task_relative_path path =
     (if path = [] \<or> length path > 240 \<or> hd path = CHR ''/'' \<or> hd path = char_of (92::nat)
         \<or> list_ex (\<lambda>component. component = [] \<or> component = ''.'' \<or> component = ''..''
              \<or> \<not> list_all (\<lambda>c. ascii_lower c \<or> ascii_upper c \<or> ascii_digit c \<or> c \<in> set ''._-'') component)
            (str_split (CHR ''/'') path)
      then Inl ''Wasm VFS path must be a safe task-output-relative path''
      else Inr ())"

datatype wasm_host_vfs_operation =
    FlushOutput string
  | MaterializeArtifact artifact_handle string
  | ReleaseArtifact artifact_handle

fun vfs_operation_path :: "wasm_host_vfs_operation \<Rightarrow> string option" where
  "vfs_operation_path (FlushOutput path) = Some path"
| "vfs_operation_path (MaterializeArtifact _ path) = Some path"
| "vfs_operation_path (ReleaseArtifact _) = None"

fun vfs_operation_artifact :: "wasm_host_vfs_operation \<Rightarrow> artifact_handle option" where
  "vfs_operation_artifact (FlushOutput _) = None"
| "vfs_operation_artifact (MaterializeArtifact a _) = Some a"
| "vfs_operation_artifact (ReleaseArtifact a) = Some a"

record wasm_host_vfs_request =
  hv_abi_version :: u32
  hv_operation :: wasm_host_vfs_operation

definition validate_vfs_request :: "(wasm_host_vfs_request \<Rightarrow> string + nat) \<Rightarrow> wasm_host_vfs_request \<Rightarrow> string + unit" where
  "validate_vfs_request encoded r =
     (if hv_abi_version r \<noteq> wasm_task_abi_version then Inl (abi_version_error ''VFS'' (hv_abi_version r))
      else case (case vfs_operation_path (hv_operation r) of None \<Rightarrow> Inr () | Some path \<Rightarrow> validate_task_relative_path path) of
        Inl e \<Rightarrow> Inl e
      | Inr _ \<Rightarrow>
        if (case vfs_operation_artifact (hv_operation r) of None \<Rightarrow> False | Some a \<Rightarrow> \<not> is_valid_sha256 (ah_digest a))
        then Inl ''Wasm VFS artifact digest is invalid''
        else (case encoded r of
            Inl e \<Rightarrow> Inl e
          | Inr bytes \<Rightarrow>
            if bytes > max_wasm_task_envelope_bytes then Inl ''Wasm VFS request exceeds the task ABI limit'' else Inr ()))"

record native_command_policy =
  nc_hosted_control_plane :: bool
  nc_node_has_command_capability :: bool

definition authorize_native_command :: "native_command_policy \<Rightarrow> string + unit" where
  "authorize_native_command policy =
     (if nc_hosted_control_plane policy then Inl ''hosted coordinator control plane cannot run native commands''
      else if \<not> nc_node_has_command_capability policy then Inl ''selected node or task lacks native command capability''
      else Inr ())"

record 'n wasm_task_invocation =
  wi_abi_version :: u32
  wi_task_definition :: task_definition_id
  wi_task_instance :: task_instance_id
  wi_args :: "'n task_boundary_value list"

definition validate_invocation ::
  "'n json_numbers \<Rightarrow> ('n wasm_task_invocation \<Rightarrow> string + nat) \<Rightarrow> 'n wasm_task_invocation \<Rightarrow> string + unit" where
  "validate_invocation N encoded r =
     (if wi_abi_version r \<noteq> wasm_task_abi_version then Inl (abi_version_error ''task'' (wi_abi_version r))
      else if length (wi_task_definition r) > 128 then Inl ''Wasm task invocation has an invalid task-definition id''
      else if length (wi_task_instance r) > 192 then Inl ''Wasm task invocation has an invalid task-instance id''
      else case first_error (validate_boundary_value N) (wi_args r) of
        Inl e \<Rightarrow> Inl e
      | Inr _ \<Rightarrow>
        (case encoded r of
           Inl e \<Rightarrow> Inl e
         | Inr bytes \<Rightarrow>
           if bytes > max_wasm_task_envelope_bytes
           then Inl (''Wasm task invocation is '' @ nat_to_string bytes @ '' bytes; maximum is ''
                  @ nat_to_string max_wasm_task_envelope_bytes)
           else Inr ()))"

record 'n wasm_host_task_start_request =
  hs_abi_version :: u32
  hs_task_definition :: task_definition_id
  hs_environment_id :: "string option"
  hs_args :: "'n task_boundary_value list"
  hs_requested_secrets :: "string list"
  hs_failure_policy :: task_failure_policy

definition validate_task_start_request ::
  "'n json_numbers \<Rightarrow> ('n wasm_task_invocation \<Rightarrow> string + nat) \<Rightarrow> 'n wasm_host_task_start_request \<Rightarrow> string + unit" where
  "validate_task_start_request N encoded r =
     (case validate_invocation N encoded
             \<lparr>wi_abi_version = hs_abi_version r, wi_task_definition = hs_task_definition r,
              wi_task_instance = ''validation-only-instance'', wi_args = hs_args r\<rparr> of
        Inl e \<Rightarrow> Inl e
      | Inr _ \<Rightarrow>
        if (case hs_environment_id r of None \<Rightarrow> False | Some e \<Rightarrow> str_is_blank e \<or> length e > 128)
        then Inl ''Wasm child task environment id is invalid''
        else validate_secret_names (hs_requested_secrets r))"

record source_location =
  sl_source_path :: string
  sl_line :: u32
  sl_column :: "u32 option"
  sl_probe_id :: string

definition probe_symbol_ok :: "string \<Rightarrow> bool" where
  "probe_symbol_ok symbol \<longleftrightarrow> \<not> str_is_blank symbol \<and> length symbol \<le> 256
     \<and> list_all (\<lambda>c. ascii_lower c \<or> ascii_upper c \<or> ascii_digit c \<or> c \<in> set ''._:-/'') symbol"

record wasm_host_debug_probe_request =
  hp_abi_version :: u32
  hp_symbol :: string
  hp_source_location :: "source_location option"

definition validate_debug_probe_request :: "wasm_host_debug_probe_request \<Rightarrow> string + unit" where
  "validate_debug_probe_request r =
     (if hp_abi_version r \<noteq> wasm_task_abi_version then Inl (abi_version_error ''debug-probe'' (hp_abi_version r))
      else if \<not> probe_symbol_ok (hp_symbol r) then Inl ''Wasm debug probe symbol is invalid''
      else if (case hp_source_location r of
            None \<Rightarrow> False
          | Some l \<Rightarrow>
            let path = sl_source_path l;
                windows_absolute = (length path > 2 \<and> path ! 1 = CHR '':'' \<and> path ! 2 = CHR ''/'')
            in sl_probe_id l \<noteq> hp_symbol r \<or> path = [] \<or> length path > 512 \<or> hd path = CHR ''/'' \<or> windows_absolute
               \<or> list_ex (\<lambda>part. part = ''..'') (str_split (CHR ''/'') path) \<or> sl_line l = 0 \<or> sl_column l = Some 0)
      then Inl ''Wasm debug probe source location is invalid''
      else Inr ())"

datatype wasm_task_outcome = OutcomeCompleted | OutcomeFailed

record 'n wasm_task_result =
  wr_abi_version :: u32
  wr_task_instance :: task_instance_id
  wr_outcome :: wasm_task_outcome
  wr_result :: "'n task_boundary_value option"
  wr_error :: "string option"

definition validate_result_for :: "'n json_numbers \<Rightarrow> 'n wasm_task_result \<Rightarrow> task_instance_id \<Rightarrow> string + unit" where
  "validate_result_for N r expected =
     (if wr_abi_version r \<noteq> wasm_task_abi_version then Inl (abi_version_error ''task result'' (wr_abi_version r))
      else if wr_task_instance r \<noteq> expected
      then Inl (''Wasm task result belongs to '' @ wr_task_instance r @ '' instead of '' @ expected)
      else case (wr_outcome r, wr_result r, wr_error r) of
        (OutcomeCompleted, Some v, None) \<Rightarrow> validate_boundary_value N v
      | (OutcomeFailed, None, Some _) \<Rightarrow> Inr ()
      | _ \<Rightarrow> Inl ''Wasm task result has inconsistent outcome fields'')"

section \<open>Joins\<close>

datatype task_join_state = JoinPending | JoinCompleted | JoinFailed | JoinCancelled

record 'n task_join_result =
  tj_process :: process_id
  tj_task_instance :: task_instance_id
  tj_node :: "node_id option"
  tj_state :: task_join_state
  tj_result :: "'n task_boundary_value option"
  tj_status_code :: "int option"
  tj_remote_completion_observed :: bool
  tj_message :: string

definition join_pending :: "process_id \<Rightarrow> task_instance_id \<Rightarrow> string \<Rightarrow> 'n task_join_result" where
  "join_pending process task message =
     \<lparr>tj_process = process, tj_task_instance = task, tj_node = None, tj_state = JoinPending, tj_result = None,
      tj_status_code = None, tj_remote_completion_observed = False, tj_message = message\<rparr>"

definition join_from_remote_completion ::
  "process_id \<Rightarrow> task_instance_id \<Rightarrow> node_id \<Rightarrow> task_join_state \<Rightarrow> 'n task_boundary_value option \<Rightarrow> int option \<Rightarrow> string
     \<Rightarrow> 'n task_join_result" where
  "join_from_remote_completion process task node st result status_code message =
     \<lparr>tj_process = process, tj_task_instance = task, tj_node = Some node, tj_state = st, tj_result = result,
      tj_status_code = status_code, tj_remote_completion_observed = True, tj_message = message\<rparr>"

section \<open>Placeholders and handles\<close>

text \<open>
  The reference reading of a structured value: the placeholders in the order of the text, the table index of
  each, and the value with every placeholder replaced.
\<close>

fun placeholders :: "'n json \<Rightarrow> 'n json list"
and placeholders_values :: "'n json list \<Rightarrow> 'n json list"
and placeholders_fields :: "(string \<times> 'n json) list \<Rightarrow> 'n json list" where
  "placeholders (JArray values) = placeholders_values values"
| "placeholders (JObject object) =
     (case bget object task_handle_placeholder_key of Some p \<Rightarrow> [p] | None \<Rightarrow> placeholders_fields object)"
| "placeholders _ = []"
| "placeholders_values [] = []"
| "placeholders_values (v # vs) = placeholders v @ placeholders_values vs"
| "placeholders_fields [] = []"
| "placeholders_fields ((k, v) # fs) = placeholders v @ placeholders_fields fs"

definition placeholder_index :: "'n json_numbers \<Rightarrow> 'n json \<Rightarrow> nat" where
  "placeholder_index N p = unat (the (json_as_u64 N (placeholder_field p ''index'')))"

fun substitute :: "('n json \<Rightarrow> 'n json) \<Rightarrow> 'n json \<Rightarrow> 'n json"
and substitute_values :: "('n json \<Rightarrow> 'n json) \<Rightarrow> 'n json list \<Rightarrow> 'n json list"
and substitute_fields :: "('n json \<Rightarrow> 'n json) \<Rightarrow> (string \<times> 'n json) list \<Rightarrow> (string \<times> 'n json) list" where
  "substitute f (JArray values) = JArray (substitute_values f values)"
| "substitute f (JObject object) =
     (case bget object task_handle_placeholder_key of Some p \<Rightarrow> f p | None \<Rightarrow> JObject (substitute_fields f object))"
| "substitute f v = v"
| "substitute_values f [] = []"
| "substitute_values f (v # vs) = substitute f v # substitute_values f vs"
| "substitute_fields f [] = []"
| "substitute_fields f ((k, v) # fs) = (k, substitute f v) # substitute_fields f fs"

definition handle_value :: "'n json_numbers \<Rightarrow> task_boundary_handle list \<Rightarrow> 'n json \<Rightarrow> 'n json" where
  "handle_value N handles p = materialized_value N (handles ! placeholder_index N p)"

text \<open>What a successful check of part of a value shows of its placeholders \<open>ps\<close>.\<close>

definition uses_once ::
  "'n json_numbers \<Rightarrow> task_boundary_handle list \<Rightarrow> 'n json list \<Rightarrow> bool list \<Rightarrow> bool list \<Rightarrow> bool" where
  "uses_once N handles ps used used' \<longleftrightarrow>
     length used' = length used \<and> distinct (map (placeholder_index N) ps)
     \<and> (\<forall>p \<in> set ps. placeholder_index N p < length handles \<and> \<not> used ! placeholder_index N p
           \<and> json_as_str (placeholder_field p ''kind'') = Some (handle_kind (handles ! placeholder_index N p)))
     \<and> (\<forall>i < length used. used' ! i \<longleftrightarrow> used ! i \<or> i \<in> placeholder_index N ` set ps)"

lemma uses_once_Nil: "uses_once N handles [] used used' \<longleftrightarrow> used' = used"
  by (auto simp: uses_once_def intro: nth_equalityI)

lemma uses_once_append:
  assumes "uses_once N handles ps used used1" and "uses_once N handles qs used1 used2" and "length used = length handles"
  shows "uses_once N handles (ps @ qs) used used2"
  using assms by (auto simp: uses_once_def)

lemma use_placeholder_once:
  assumes "use_placeholder N object p handles used = Inr used'" and "length used = length handles"
  shows "uses_once N handles [p] used used'" and "json_as_u64 N (placeholder_field p ''index'') \<noteq> None"
    and "placeholder_index N p < length handles"
proof -
  from assms(1) obtain payload index kind where p: "p = JObject payload" "json_as_u64 N (bget payload ''index'') = Some index"
    "json_as_str (bget payload ''kind'') = Some kind" "unat index < length handles" "handle_kind (handles ! unat index) = kind"
    "\<not> used ! unat index" "used' = used[unat index := True]"
    by (auto simp: use_placeholder_def Let_def split: if_splits json.splits option.splits)
  then have "placeholder_index N p = unat index" by (simp add: placeholder_index_def placeholder_field_def)
  with p assms(2) show "uses_once N handles [p] used used'" "json_as_u64 N (placeholder_field p ''index'') \<noteq> None"
    "placeholder_index N p < length handles"
    by (auto simp: uses_once_def placeholder_field_def nth_list_update)
qed

lemma validated_placeholders:
  "validate_task_handle_placeholders N handles v used = Inr used' \<Longrightarrow> length used = length handles \<Longrightarrow>
     uses_once N handles (placeholders v) used used'
     \<and> materialize_task_handle_placeholders N handles v = Inr (substitute (handle_value N handles) v)"
  "validate_placeholder_values N handles vs used = Inr used' \<Longrightarrow> length used = length handles \<Longrightarrow>
     uses_once N handles (placeholders_values vs) used used'
     \<and> materialize_values N handles vs = Inr (substitute_values (handle_value N handles) vs)"
  "validate_placeholder_fields N handles fs used = Inr used' \<Longrightarrow> length used = length handles \<Longrightarrow>
     uses_once N handles (placeholders_fields fs) used used'
     \<and> materialize_fields N handles fs = Inr (substitute_fields (handle_value N handles) fs)"
proof (induction N handles v used and N handles vs used and N handles fs used arbitrary: used' and used' and used'
    rule: validate_task_handle_placeholders_validate_placeholder_values_validate_placeholder_fields.induct)
  case (2 N handles object used)
  show ?case
  proof (cases "bget object task_handle_placeholder_key")
    case (Some p)
    with 2 use_placeholder_once [of N object p handles used used'] show ?thesis
      by (auto simp: placeholder_index_def handle_value_def)
  qed (use 2 in simp)
next
  case (5 N handles v vs used)
  then obtain used1 where "validate_task_handle_placeholders N handles v used = Inr used1"
    "validate_placeholder_values N handles vs used1 = Inr used'" by (auto split: sum.splits)
  moreover from this 5 have "length used1 = length handles" by (auto simp: uses_once_def)
  ultimately show ?case using 5 uses_once_append by fastforce
next
  case (7 N handles k v fs used)
  then obtain used1 where "validate_task_handle_placeholders N handles v used = Inr used1"
    "validate_placeholder_fields N handles fs used1 = Inr used'" by (auto split: sum.splits)
  moreover from this 7 have "length used1 = length handles" by (auto simp: uses_once_def)
  ultimately show ?case using 7 uses_once_append by fastforce
qed (simp_all add: uses_once_Nil)

lemma no_placeholder_in_handle [simp]: "placeholders (materialized_value N h) = []"
  by (cases h) (simp_all add: artifact_json_def digest_json_def task_handle_placeholder_key_def)

lemma bget_substitute_fields: "bget (substitute_fields f fs) k = map_option (substitute f) (bget fs k)"
  by (induction fs) auto

lemma substituted_placeholders:
  fixes f :: "'n json \<Rightarrow> 'n json" and v :: "'n json"
  assumes "\<And>p. placeholders (f p) = []"
  shows "placeholders (substitute f v) = []" "placeholders_values (substitute_values f vs) = []"
    "placeholders_fields (substitute_fields f fs) = []"
  using assms by (induction f v and f vs and f fs rule: substitute_substitute_values_substitute_fields.induct)
    (auto simp: bget_substitute_fields split: option.split)

lemma validate_structuredD:
  assumes "validate_structured N b = Inr ()"
  obtains used where "validate_task_handle_placeholders N (bs_handles b) (bs_value b) (replicate (length (bs_handles b)) False) = Inr used"
    and "\<And>i. i < length used \<Longrightarrow> used ! i" and "first_error validate_handle (bs_handles b) = Inr ()"
proof -
  from assms obtain used where used: "validate_task_handle_placeholders N (bs_handles b) (bs_value b)
      (replicate (length (bs_handles b)) False) = Inr used" "find (\<lambda>i. \<not> used ! i) [0..<length used] = None"
      "first_error validate_handle (bs_handles b) = Inr ()"
    by (auto simp: validate_structured_def split: if_splits sum.splits option.splits)
  then show thesis using that [of used] by (auto simp: find_None_iff)
qed

text \<open>
  C40. A structured task argument that passes validation always materializes (the two error branches of
  materialization are unreachable): the result is its JSON with every placeholder replaced by the value of the
  table entry it names, of the kind it names, no placeholder is left, and every entry of the table is used
  exactly once.
\<close>

theorem structured_argument_materializes:
  assumes "validate_structured N b = Inr ()"
  shows "materialize_structured N b = Inr (substitute (handle_value N (bs_handles b)) (bs_value b))
    \<and> placeholders (substitute (handle_value N (bs_handles b)) (bs_value b)) = []
    \<and> mset (map (placeholder_index N) (placeholders (bs_value b))) = mset [0..<length (bs_handles b)]
    \<and> list_all (\<lambda>p. json_as_str (placeholder_field p ''kind'') = Some (handle_kind (bs_handles b ! placeholder_index N p)))
        (placeholders (bs_value b))"
proof -
  obtain used where used: "validate_task_handle_placeholders N (bs_handles b) (bs_value b)
      (replicate (length (bs_handles b)) False) = Inr used" "\<And>i. i < length used \<Longrightarrow> used ! i"
    by (rule validate_structuredD [OF assms]) blast
  with validated_placeholders(1) [OF used(1)]
  have once: "uses_once N (bs_handles b) (placeholders (bs_value b)) (replicate (length (bs_handles b)) False) used"
    and mat: "materialize_task_handle_placeholders N (bs_handles b) (bs_value b)
        = Inr (substitute (handle_value N (bs_handles b)) (bs_value b))" by simp_all
  have "set (map (placeholder_index N) (placeholders (bs_value b))) = set [0..<length (bs_handles b)]"
    using once used(2) by (auto simp: uses_once_def)
  with once have "mset (map (placeholder_index N) (placeholders (bs_value b))) = mset [0..<length (bs_handles b)]"
    by (subst set_eq_iff_mset_eq_distinct [symmetric]) (simp_all add: uses_once_def)
  moreover have "placeholders (substitute (handle_value N (bs_handles b)) (bs_value b)) = []"
    by (rule substituted_placeholders) (simp add: handle_value_def)
  ultimately show ?thesis
    using assms mat once by (simp add: materialize_structured_def uses_once_def list_all_iff)
qed

text \<open>Witness: an object whose one field is the placeholder of the one artifact of the table.\<close>

definition example_numbers :: "u64 json_numbers" where
  "example_numbers = \<lparr>jn_as_u64 = Some, jn_from_u64 = id\<rparr>"

definition example_digest :: digest where
  "example_digest = ''sha256:'' @ replicate 64 (CHR ''0'')"

definition example_structured :: "u64 structured_task_boundary" where
  "example_structured =
     \<lparr>bs_value = JObject [(''app'', JObject [(task_handle_placeholder_key, JObject [(''index'', JNumber 0), (''kind'', JString ''artifact'')])])],
      bs_handles = [HArtifact \<lparr>ah_id = ''app.tar'', ah_digest = example_digest, ah_size_bytes = 3\<rparr>]\<rparr>"

theorem structured_argument_materializes_witness:
  "validate_structured example_numbers example_structured = Inr ()
   \<and> mset (map (placeholder_index example_numbers) (placeholders (bs_value example_structured))) = mset [0]"
proof -
  have v: "validate_structured example_numbers example_structured = Inr ()" by code_simp
  have "length (bs_handles example_structured) = 1" by (simp add: example_structured_def)
  with structured_argument_materializes [OF v] v show ?thesis by simp
qed

section \<open>Rebinding the source\<close>

lemma first_error_Inr: "first_error f xs = Inr () \<longleftrightarrow> list_all (\<lambda>x. f x = Inr ()) xs"
  by (induction xs) (auto split: sum.split)

lemma use_placeholder_kinds:
  assumes "map handle_kind hs = map handle_kind hs'"
  shows "use_placeholder N object p hs used = use_placeholder N object p hs' used"
proof -
  have len: "length hs = length hs'" using assms by (rule map_eq_imp_length_eq)
  moreover have "handle_kind (hs ! i) = handle_kind (hs' ! i)" if "i < length hs'" for i
    using that assms len by (metis nth_map)
  ultimately show ?thesis by (simp add: use_placeholder_def Let_def cong: if_cong split: json.split option.split)
qed

lemma placeholders_kinds:
  assumes "map handle_kind hs = map handle_kind hs'"
  shows "validate_task_handle_placeholders N hs v used = validate_task_handle_placeholders N hs' v used"
    "validate_placeholder_values N hs vs used = validate_placeholder_values N hs' vs used"
    "validate_placeholder_fields N hs fs used = validate_placeholder_fields N hs' fs used"
  using assms
proof (induction N hs v used and N hs vs used and N hs fs used
    rule: validate_task_handle_placeholders_validate_placeholder_values_validate_placeholder_fields.induct)
  case (2 N hs object used)
  from 2(2) have "use_placeholder N object p hs used = use_placeholder N object p hs' used" for p
    by (rule use_placeholder_kinds)
  with 2 show ?case by (simp split: option.split)
qed (simp_all split: sum.split)

lemma handle_kind_rebind [simp]: "handle_kind (rebind_handle r h) = handle_kind h"
  by (cases h) simp_all

lemma validate_rebind_handle: "is_valid_sha256 r \<Longrightarrow> validate_handle h = Inr () \<Longrightarrow> validate_handle (rebind_handle r h) = Inr ()"
  by (cases h) simp_all

lemma validate_rebind_structured:
  assumes "is_valid_sha256 r" and "validate_structured N b = Inr ()"
  shows "validate_structured N (b\<lparr>bs_handles := map (rebind_handle r) (bs_handles b)\<rparr>) = Inr ()"
proof -
  have "map handle_kind (map (rebind_handle r) (bs_handles b)) = map handle_kind (bs_handles b)" by simp
  then have same: "validate_task_handle_placeholders N (map (rebind_handle r) (bs_handles b)) v used
      = validate_task_handle_placeholders N (bs_handles b) v used" for v used by (rule placeholders_kinds)
  from assms have "list_all (\<lambda>h. validate_handle h = Inr ()) (bs_handles b)"
    by (auto simp: validate_structured_def first_error_Inr split: if_splits sum.splits)
  with assms(1) have "first_error validate_handle (map (rebind_handle r) (bs_handles b)) = Inr ()"
    by (auto simp: first_error_Inr list_all_iff intro: validate_rebind_handle)
  with assms(2) show ?thesis
    by (auto simp: validate_structured_def same split: if_splits sum.splits option.splits)
qed

lemma validate_rebind_value:
  "is_valid_sha256 r \<Longrightarrow> validate_boundary_value N v = Inr () \<Longrightarrow>
     validate_boundary_value N (fst (value_rebind_source_snapshot r v)) = Inr ()"
  by (cases v) (simp_all add: validate_rebind_structured)

lemma map_filter_rebind:
  "List.map_filter handle_source (map (rebind_handle r) hs) = map (\<lambda>_. r) (List.map_filter handle_source hs)"
  "List.map_filter (map_option ah_id \<circ> handle_artifact) (map (rebind_handle r) hs)
     = List.map_filter (map_option ah_id \<circ> handle_artifact) hs"
proof (induction hs)
  case (Cons h hs)
  { case 1 show ?case using Cons by (cases h) (simp_all add: List.map_filter_simps) }
  { case 2 show ?case using Cons by (cases h) (simp_all add: List.map_filter_simps) }
qed simp_all

lemma rebind_value:
  "value_source_snapshots (fst (value_rebind_source_snapshot r v)) = map (\<lambda>_. r) (value_source_snapshots v)"
  "value_required_artifacts (fst (value_rebind_source_snapshot r v)) = value_required_artifacts v"
  "snd (value_rebind_source_snapshot r v) = length (value_source_snapshots v)"
proof -
  have "sum_list (map (\<lambda>h. if handle_source h = None then 0 else 1) hs) = length (List.map_filter handle_source hs)" for hs
    by (induction hs) (auto simp: List.map_filter_simps split: option.split)
  then show "snd (value_rebind_source_snapshot r v) = length (value_source_snapshots v)" by (cases v) simp_all
qed (cases v; simp add: map_filter_rebind; fail)+

lemma sextend_replicate: "xs \<noteq> [] \<Longrightarrow> sextend (map (\<lambda>_. r) xs) [] = [r]"
proof (induction xs)
  case (Cons x xs)
  have "fold sinsert (map (\<lambda>_. r) xs) [r] = [r]" by (induction xs) simp_all
  then show ?case by (simp add: sextend_def)
qed simp

definition spec_sources :: "'n task_spec \<Rightarrow> digest list" where
  "spec_sources t = concat (map value_source_snapshots (sp_args t))"

definition rebound_spec :: "digest \<Rightarrow> 'n task_spec \<Rightarrow> 'n task_spec" where
  "rebound_spec r t = t\<lparr>sp_args := map (fst \<circ> value_rebind_source_snapshot r) (sp_args t), sp_source_snapshot := Some r\<rparr>"

lemma derived_rebound:
  assumes "is_valid_sha256 r" and "spec_sources t \<noteq> []" and "derived_boundary_dependencies N t = Inr (source, artifacts)"
  shows "derived_boundary_dependencies N (rebound_spec r t) = Inr (Some r, artifacts)"
proof -
  have sources: "concat (map value_source_snapshots (sp_args (rebound_spec r t))) = map (\<lambda>_. r) (spec_sources t)"
    by (simp add: rebound_spec_def spec_sources_def rebind_value map_concat comp_def)
  have artifacts: "map value_required_artifacts (sp_args (rebound_spec r t)) = map value_required_artifacts (sp_args t)"
    by (simp add: rebound_spec_def rebind_value)
  from assms(3) have "list_all (\<lambda>v. validate_boundary_value N v = Inr ()) (sp_args t)"
    by (auto simp: derived_boundary_dependencies_def first_error_Inr split: sum.splits)
  with assms(1) have "first_error (validate_boundary_value N) (sp_args (rebound_spec r t)) = Inr ()"
    by (auto simp: first_error_Inr list_all_iff rebound_spec_def intro: validate_rebind_value)
  with assms(2,3) show ?thesis
    by (auto simp: derived_boundary_dependencies_def sources artifacts sextend_replicate Let_def split: sum.splits if_splits)
qed

lemma invalid_rebound:
  assumes "\<not> is_valid_sha256 r" and "spec_sources t \<noteq> []"
  shows "derived_boundary_dependencies N (rebound_spec r t) \<noteq> Inr d"
proof
  assume "derived_boundary_dependencies N (rebound_spec r t) = Inr d"
  then have all: "list_all (\<lambda>v. validate_boundary_value N v = Inr ()) (sp_args (rebound_spec r t))"
    by (auto simp: derived_boundary_dependencies_def first_error_Inr split: sum.splits)
  from assms(2) obtain v where "v \<in> set (sp_args t)" "value_source_snapshots v \<noteq> []" by (auto simp: spec_sources_def)
  then obtain d where v: "v \<in> set (sp_args t)" "d \<in> set (value_source_snapshots v)" using hd_in_set by blast
  with all have ok: "validate_boundary_value N (fst (value_rebind_source_snapshot r v)) = Inr ()"
    by (auto simp: list_all_iff rebound_spec_def)
  show False
  proof (cases v)
    case (Structured b)
    with v(2) obtain h where "h \<in> set (bs_handles b)" "handle_source h = Some d"
      by (auto simp: List.map_filter_def)
    moreover from ok Structured have "list_all (\<lambda>h. validate_handle (rebind_handle r h) = Inr ()) (bs_handles b)"
      by (auto simp: validate_structured_def first_error_Inr list_all_iff split: if_splits sum.splits)
    ultimately have "validate_handle (rebind_handle r h) = Inr ()" "handle_source h = Some d" by (auto simp: list_all_iff)
    then show False using assms(1) by (cases h rule: handle_source.cases) simp_all
  qed (use v(2) ok assms(1) in auto)
qed

text \<open>
  Rebinding the source of a task succeeds exactly when the task is valid, names a source snapshot and
  carries a source handle, the new snapshot is a digest and a Git revision of the task names it. The rebound
  task is valid again and differs only in its source handles and its source snapshot, which both are the new
  one; its artifact dependencies are those of before.
\<close>

lemma rebind_source_exact:
  "rebind_source_snapshot N t r = (t', Inr ()) \<longleftrightarrow>
     validate_boundary_authority N t = Inr () \<and> sp_source_snapshot t \<noteq> None \<and> spec_sources t \<noteq> [] \<and> is_valid_sha256 r
     \<and> (case sp_source_revision t of None \<Rightarrow> True | Some revision \<Rightarrow> rv_source_snapshot revision = r)
     \<and> t' = rebound_spec r t \<and> derived_boundary_dependencies N t' = Inr (Some r, sp_required_artifacts t)
     \<and> validate_boundary_authority N t' = Inr ()"
proof (cases "validate_boundary_authority N t = Inr () \<and> sp_source_snapshot t \<noteq> None \<and> spec_sources t \<noteq> []")
  case False
  have "sum_list (map snd (map (value_rebind_source_snapshot r) (sp_args t))) = length (spec_sources t)"
    by (simp add: rebind_value spec_sources_def length_concat comp_def)
  with False show ?thesis by (auto simp: rebind_source_snapshot_def Let_def split: sum.splits if_splits)
next
  case True
  then have "\<exists>v \<in> set (sp_args t). snd (value_rebind_source_snapshot r v) \<noteq> 0"
    by (auto simp: rebind_value spec_sources_def)
  with True have res: "rebind_source_snapshot N t r = (rebound_spec r t, validate_boundary_authority N (rebound_spec r t))"
    by (auto simp: rebind_source_snapshot_def rebound_spec_def Let_def comp_def split: sum.splits)
  from True obtain source where d: "derived_boundary_dependencies N t = Inr (source, sp_required_artifacts t)"
    by (auto simp: validate_boundary_authority_def split: sum.splits if_splits)
  show ?thesis
  proof (cases "is_valid_sha256 r")
    case False
    with invalid_rebound [OF False] True show ?thesis
      by (auto simp: res validate_boundary_authority_def split: sum.splits)
  next
    case valid: True
    note d' = derived_rebound [OF valid _ d]
    have "validate_boundary_authority N (rebound_spec r t) = Inr () \<longleftrightarrow>
        (case sp_source_revision t of None \<Rightarrow> True | Some revision \<Rightarrow> rv_source_snapshot revision = r)"
      using True d d'
      by (auto simp: validate_boundary_authority_def rebound_spec_def process_source_context_def
          split: sum.splits if_splits option.splits)
    with True valid d' show ?thesis by (auto simp: res)
  qed
qed

end
