(* ===== verification/CF_Tasks.thy ===== *)
theory CF_Tasks
  imports CF_Assignments CF_Execution
begin

text \<open>
  The task registry of the coordinator (\<open>clusterflux-coordinator/src/service/task_registry.rs\<close>, from
  \<open>active_task_spec\<close> on; the assignment authority is in \<open>CF_Assignments\<close>): the twelve collections
  of remote-task lifecycle state, keyed as in \<open>service/keys.rs\<close>, with the records of
  \<open>clusterflux-protocol/src/tasks.rs\<close>. The type variable is that of the JSON numbers of boundary values.
\<close>

section \<open>Keys and records\<close>

type_synonym task_control_key = "tenant_id \<times> project_id \<times> process_id \<times> node_id \<times> task_instance_id"
type_synonym task_restart_key = "tenant_id \<times> project_id \<times> process_id \<times> task_instance_id"
type_synonym task_assignment_key = "tenant_id \<times> project_id \<times> node_id"
type_synonym process_control_key = "tenant_id \<times> project_id \<times> process_id"

datatype task_terminal_state = TCompleted | TFailed | TCancelled

definition terminal_from_status_code :: "int option \<Rightarrow> task_terminal_state" where
  "terminal_from_status_code status_code = (if status_code = Some 0 then TCompleted else TFailed)"

datatype task_failure_resolution = AcceptFailure | CancelFailure

datatype task_executor = CoordinatorMain | ExecutorNode

record 'x task_completion_event =
  te_tenant :: tenant_id
  te_project :: project_id
  te_process :: process_id
  te_node :: node_id
  te_executor :: task_executor
  te_task_definition :: task_definition_id
  te_task :: task_instance_id
  te_attempt_id :: "string option"
  te_placement :: "placement option"
  te_terminal_state :: task_terminal_state
  te_status_code :: "int option"
  te_stdout_bytes :: u64
  te_stderr_bytes :: u64
  te_stdout_tail :: string
  te_stderr_tail :: string
  te_stdout_truncated :: bool
  te_stderr_truncated :: bool
  te_artifact_path :: "vfs_path option"
  te_artifact_digest :: "digest option"
  te_artifact_size_bytes :: "u64 option"
  te_result :: "'x task_boundary_value option"

datatype task_attempt_state =
  AQueued | ARunning | AFailedAwaitingAction | ACompleted | AFailed | ACancelled

record task_attempt_snapshot =
  ts_process :: process_id
  ts_task :: task_instance_id
  ts_attempt_id :: string
  ts_attempt_number :: u32
  ts_task_definition :: task_definition_id
  ts_display_name :: string
  ts_state :: task_attempt_state
  ts_current :: bool
  ts_node :: "node_id option"
  ts_environment_id :: "string option"
  ts_environment_digest :: "digest option"
  ts_argument_summary :: "string list"
  ts_handle_summary :: "string list"
  ts_command_state :: "string option"
  ts_waiting_reason :: "string option"
  ts_vfs_checkpoint :: string
  ts_probe_symbol :: "string option"
  ts_source_path :: "string option"
  ts_source_line :: "u32 option"
  ts_restart_compatible :: bool
  ts_failure_policy :: task_failure_policy
  ts_artifact_path :: "vfs_path option"
  ts_artifact_digest :: "digest option"
  ts_artifact_size_bytes :: "u64 option"
  ts_status_code :: "int option"
  ts_error :: "string option"

record 'x task_assignment =
  tk_assignment_id :: string
  tk_attempt_id :: string
  tk_offer_epoch :: u64
  tk_offer_expires_at :: u64
  tk_tenant :: tenant_id
  tk_project :: project_id
  tk_process :: process_id
  tk_task :: task_instance_id
  tk_node :: node_id
  tk_epoch :: u64
  tk_artifact_path :: string
  tk_task_spec :: "'x task_spec"
  tk_wasm_module_base64 :: string

record 'x pending_task_launch =
  pl_tenant :: tenant_id
  pl_project :: project_id
  pl_process :: process_id
  pl_task :: task_instance_id
  pl_request :: placement_request
  pl_epoch :: u64
  pl_artifact_path :: string
  pl_task_spec :: "'x task_spec"
  pl_wasm_module_base64 :: string
  pl_offer_epoch :: u64
  pl_waiting_reason :: string

record 'x task_restart_checkpoint =
  rc_checkpoint :: task_checkpoint
  rc_assignment :: "'x task_assignment"

record 'x task_registry =
  tr_events :: "'x task_completion_event list"
  tr_terminal_states :: "(task_restart_key, task_terminal_state) bmap"
  tr_assignments :: "(task_assignment_key, 'x task_assignment list) bmap"
  tr_checkpoints :: "(task_restart_key, 'x task_restart_checkpoint) bmap"
  tr_checkpoint_order :: "task_restart_key list"
  tr_attempts :: "(task_restart_key, task_attempt_snapshot list) bmap"
  tr_restart_launches :: "task_restart_key bset"
  tr_pending :: "'x pending_task_launch list"
  tr_placements :: "(task_control_key, placement) bmap"
  tr_active :: "task_control_key bset"
  tr_cancellations :: "task_control_key bset"
  tr_aborts :: "task_control_key bset"

definition task_registry_default :: "'x task_registry" where
  "task_registry_default =
     \<lparr>tr_events = [], tr_terminal_states = [], tr_assignments = [], tr_checkpoints = [],
      tr_checkpoint_order = [], tr_attempts = [], tr_restart_launches = [], tr_pending = [],
      tr_placements = [], tr_active = [], tr_cancellations = [], tr_aborts = []\<rparr>"

text \<open>The scope tests the code spells out at each use.\<close>

fun control_in :: "process_control_key \<Rightarrow> task_control_key \<Rightarrow> bool" where
  "control_in (tenant, project, process) (t, p, v, _, _) = (t = tenant \<and> p = project \<and> v = process)"

fun restart_in :: "process_control_key \<Rightarrow> task_restart_key \<Rightarrow> bool" where
  "restart_in (tenant, project, process) (t, p, v, _) = (t = tenant \<and> p = project \<and> v = process)"

fun control_on :: "node_scope_key \<Rightarrow> task_control_key \<Rightarrow> bool" where
  "control_on (tenant, project, node) (t, p, _, n, _) = (t = tenant \<and> p = project \<and> n = node)"

definition event_in :: "process_control_key \<Rightarrow> 'x task_completion_event \<Rightarrow> bool" where
  "event_in s e \<longleftrightarrow> (te_tenant e, te_project e, te_process e) = s"

definition pending_in :: "process_control_key \<Rightarrow> 'x pending_task_launch \<Rightarrow> bool" where
  "pending_in s l \<longleftrightarrow> (pl_tenant l, pl_project l, pl_process l) = s"

definition assignment_in :: "process_control_key \<Rightarrow> 'x task_assignment \<Rightarrow> bool" where
  "assignment_in s a \<longleftrightarrow> (tk_tenant a, tk_project a, tk_process a) = s"

definition same_event_process :: "'x task_completion_event \<Rightarrow> 'x task_completion_event \<Rightarrow> bool" where
  "same_event_process l r \<longleftrightarrow>
     te_tenant l = te_tenant r \<and> te_project l = te_project r \<and> te_process l = te_process r"

fun same_restart_process :: "task_restart_key \<Rightarrow> task_restart_key \<Rightarrow> bool" where
  "same_restart_process (t, p, v, _) (t', p', v', _) = (t = t' \<and> p = p' \<and> v = v')"

fun attempt_state_is_runnable :: "task_attempt_state \<Rightarrow> bool" where
  "attempt_state_is_runnable AQueued = True"
| "attempt_state_is_runnable ARunning = True"
| "attempt_state_is_runnable AFailedAwaitingAction = True"
| "attempt_state_is_runnable _ = False"

section \<open>Events\<close>

definition active_task_spec ::
  "'x task_registry \<Rightarrow> tenant_id \<Rightarrow> project_id \<Rightarrow> process_id \<Rightarrow> node_id \<Rightarrow> task_instance_id
     \<Rightarrow> 'x task_spec option" where
  "active_task_spec r tenant project process node task =
     (if (tenant, project, process, node, task) \<notin> set (tr_active r) then None
      else map_option (tk_task_spec \<circ> rc_assignment)
             (bget (tr_checkpoints r) (tenant, project, process, task)))"

definition append_event :: "'x task_registry \<Rightarrow> 'x task_completion_event \<Rightarrow> nat \<Rightarrow> nat \<Rightarrow> 'x task_registry" where
  "append_event r e per_process_capacity total_capacity =
     r\<lparr>tr_events := append_bounded same_event_process per_process_capacity total_capacity e (tr_events r)\<rparr>"

definition remove_events_for_process :: "'x task_registry \<Rightarrow> process_control_key \<Rightarrow> 'x task_registry" where
  "remove_events_for_process r s = r\<lparr>tr_events := filter (\<lambda>e. \<not> event_in s e) (tr_events r)\<rparr>"

definition has_event_in_scope :: "'x task_registry \<Rightarrow> process_control_key \<Rightarrow> bool" where
  "has_event_in_scope r s = list_ex (event_in s) (tr_events r)"

definition has_process_event_outside_scope :: "'x task_registry \<Rightarrow> process_control_key \<Rightarrow> bool" where
  "has_process_event_outside_scope r s =
     (case s of (tenant, project, process) \<Rightarrow>
        list_ex (\<lambda>e. te_process e = process \<and> (te_tenant e \<noteq> tenant \<or> te_project e \<noteq> project)) (tr_events r))"

definition last_event_for_task ::
  "'x task_registry \<Rightarrow> process_control_key \<Rightarrow> task_instance_id \<Rightarrow> 'x task_completion_event option" where
  "last_event_for_task r s task = find (\<lambda>e. event_in s e \<and> te_task e = task) (rev (tr_events r))"

definition event_for_attempt ::
  "'x task_registry \<Rightarrow> process_control_key \<Rightarrow> task_instance_id \<Rightarrow> string
     \<Rightarrow> 'x task_completion_event option" where
  "event_for_attempt r s task attempt_id =
     find (\<lambda>e. event_in s e \<and> te_task e = task \<and> te_attempt_id e = Some attempt_id) (rev (tr_events r))"

definition set_terminal_state ::
  "'x task_registry \<Rightarrow> task_restart_key \<Rightarrow> task_terminal_state \<Rightarrow> 'x task_registry" where
  "set_terminal_state r key st = r\<lparr>tr_terminal_states := binsert key st (tr_terminal_states r)\<rparr>"

definition has_terminal_state_for_process ::
  "'x task_registry \<Rightarrow> process_control_key \<Rightarrow> task_terminal_state \<Rightarrow> bool" where
  "has_terminal_state_for_process r s st =
     list_ex (\<lambda>(key, retained). restart_in s key \<and> retained = st) (tr_terminal_states r)"

section \<open>Assignment queues\<close>

definition poll_assignment :: "'x task_registry \<Rightarrow> task_assignment_key \<Rightarrow> 'x task_assignment option" where
  "poll_assignment r key =
     (case bget (tr_assignments r) key of
        None \<Rightarrow> None | Some [] \<Rightarrow> None | Some (a # _) \<Rightarrow> Some a)"

definition acknowledge_process_assignment ::
  "'x task_registry \<Rightarrow> 'run durable_assignments \<Rightarrow> task_assignment_key \<Rightarrow> assignment_authority
     \<Rightarrow> u64 \<Rightarrow> u64 \<Rightarrow> 'x task_registry \<times> 'run durable_assignments \<times> bool" where
  "acknowledge_process_assignment r d key authority now assignment_seconds =
     (let queued_match = (case poll_assignment r key of
            None \<Rightarrow> False
          | Some front \<Rightarrow> tk_assignment_id front = aa_assignment_id authority
              \<and> tk_attempt_id front = aa_attempt_id authority
              \<and> tk_offer_epoch front = aa_offer_epoch authority)
      in case acknowledge_active_assignment d key authority now assignment_seconds of
           (d', ok) \<Rightarrow>
             if \<not> queued_match then (r, d', ok)
             else if \<not> ok then (r, d', False)
             else (let rest = (case bget (tr_assignments r) key of None \<Rightarrow> [] | Some q \<Rightarrow> tl q)
                   in (r\<lparr>tr_assignments := (if rest = [] then bremove key (tr_assignments r)
                                           else binsert key rest (tr_assignments r))\<rparr>, d', True)))"

definition enqueue_assignment :: "'x task_registry \<Rightarrow> 'x task_assignment \<Rightarrow> 'x task_registry" where
  "enqueue_assignment r a =
     (let key = (tk_tenant a, tk_project a, tk_node a);
          q = (case bget (tr_assignments r) key of None \<Rightarrow> [] | Some q \<Rightarrow> q)
      in r\<lparr>tr_assignments := binsert key (q @ [a]) (tr_assignments r)\<rparr>)"

definition assignments_for_node :: "'x task_registry \<Rightarrow> task_assignment_key \<Rightarrow> 'x task_assignment list" where
  "assignments_for_node r key = (case bget (tr_assignments r) key of None \<Rightarrow> [] | Some q \<Rightarrow> q)"

text \<open>Nested \<open>retain\<close>: filters every queue and drops the queues left empty.\<close>

definition retain_assignments :: "('x task_assignment \<Rightarrow> bool) \<Rightarrow> 'x task_registry \<Rightarrow> 'x task_registry" where
  "retain_assignments P r =
     r\<lparr>tr_assignments := bretain (\<lambda>_ q. q \<noteq> []) (bmap_values (\<lambda>_. filter P) (tr_assignments r))\<rparr>"

definition remove_assignment_for_task :: "'x task_registry \<Rightarrow> task_control_key \<Rightarrow> 'x task_registry" where
  "remove_assignment_for_task r key =
     retain_assignments
       (\<lambda>a. (tk_tenant a, tk_project a, tk_process a, tk_node a, tk_task a) \<noteq> key) r"

definition remove_assignments_for_process :: "'x task_registry \<Rightarrow> process_control_key \<Rightarrow> 'x task_registry" where
  "remove_assignments_for_process r s = retain_assignments (\<lambda>a. \<not> assignment_in s a) r"

section \<open>Pending launches\<close>

definition take_pending_launches :: "'x task_registry \<Rightarrow> 'x task_registry \<times> 'x pending_task_launch list" where
  "take_pending_launches r = (r\<lparr>tr_pending := []\<rparr>, tr_pending r)"

definition restore_pending_launches :: "'x task_registry \<Rightarrow> 'x pending_task_launch list \<Rightarrow> 'x task_registry" where
  "restore_pending_launches r launches = r\<lparr>tr_pending := launches\<rparr>"

definition push_pending_launch :: "'x task_registry \<Rightarrow> 'x pending_task_launch \<Rightarrow> 'x task_registry" where
  "push_pending_launch r launch = r\<lparr>tr_pending := tr_pending r @ [launch]\<rparr>"

definition queued_count_for_process :: "'x task_registry \<Rightarrow> process_control_key \<Rightarrow> nat" where
  "queued_count_for_process r s = length (filter (pending_in s) (tr_pending r))"

definition pending_waiting_reason_for_process :: "'x task_registry \<Rightarrow> process_control_key \<Rightarrow> string option" where
  "pending_waiting_reason_for_process r s = map_option pl_waiting_reason (find (pending_in s) (tr_pending r))"

definition active_process_tasks :: "'x task_registry \<Rightarrow> process_control_key \<Rightarrow> task_control_key list" where
  "active_process_tasks r s = filter (control_in s) (tr_active r)"

definition in_flight_count :: "'x task_registry \<Rightarrow> process_control_key \<Rightarrow> nat" where
  "in_flight_count r s = length (active_process_tasks r s) + queued_count_for_process r s"

definition remove_pending_for_process :: "'x task_registry \<Rightarrow> process_control_key \<Rightarrow> 'x task_registry" where
  "remove_pending_for_process r s = r\<lparr>tr_pending := filter (\<lambda>l. \<not> pending_in s l) (tr_pending r)\<rparr>"

section \<open>Restart checkpoints\<close>

definition remove_checkpoint :: "'x task_registry \<Rightarrow> task_restart_key \<Rightarrow> 'x task_registry \<times> bool" where
  "remove_checkpoint r key =
     (r\<lparr>tr_checkpoints := bremove key (tr_checkpoints r),
        tr_checkpoint_order := filter (\<lambda>k. k \<noteq> key) (tr_checkpoint_order r)\<rparr>,
      bcontains (tr_checkpoints r) key)"

text \<open>
  The two eviction loops of \<open>store_checkpoint\<close> over the order queue, the checkpoint map and the
  list of evicted keys: the oldest of the process while it has too many, then the oldest of all.
\<close>

function evict_process_checkpoints ::
  "(task_restart_key \<Rightarrow> bool) \<Rightarrow> nat \<Rightarrow> task_restart_key list \<Rightarrow> (task_restart_key, 'c) bmap
     \<Rightarrow> task_restart_key list
     \<Rightarrow> task_restart_key list \<times> (task_restart_key, 'c) bmap \<times> task_restart_key list" where
  "evict_process_checkpoints same cap order cps removed =
     (if length (filter same order) > cap
      then (case List.extract same order of
              None \<Rightarrow> (order, cps, removed)
            | Some (xs, expired, ys) \<Rightarrow>
                evict_process_checkpoints same cap (xs @ ys) (bremove expired cps) (removed @ [expired]))
      else (order, cps, removed))"
  by pat_completeness auto
termination
  by (relation "measure (\<lambda>(same, cap, order, cps, removed). length order)")
    (auto simp: extract_Some_iff)

declare evict_process_checkpoints.simps [simp del]

fun evict_total_checkpoints ::
  "nat \<Rightarrow> task_restart_key list \<Rightarrow> (task_restart_key, 'c) bmap \<Rightarrow> task_restart_key list
     \<Rightarrow> task_restart_key list \<times> (task_restart_key, 'c) bmap \<times> task_restart_key list" where
  "evict_total_checkpoints cap [] cps removed = ([], cps, removed)"
| "evict_total_checkpoints cap (k # order) cps removed =
     (if length (k # order) > cap
      then evict_total_checkpoints cap order (bremove k cps) (removed @ [k])
      else (k # order, cps, removed))"

definition store_checkpoint ::
  "'x task_registry \<Rightarrow> task_restart_key \<Rightarrow> 'x task_restart_checkpoint \<Rightarrow> nat \<Rightarrow> nat
     \<Rightarrow> 'x task_registry \<times> task_restart_key list" where
  "store_checkpoint r key checkpoint per_process_capacity total_capacity =
     (let (r, had) = remove_checkpoint r key;
          removed = (if had then [key] else []);
          cps = binsert key checkpoint (tr_checkpoints r);
          order = tr_checkpoint_order r @ [key];
          (order, cps, removed) = evict_process_checkpoints (\<lambda>c. same_restart_process c key)
             per_process_capacity order cps removed;
          (order, cps, removed) = evict_total_checkpoints total_capacity order cps removed
      in (r\<lparr>tr_checkpoints := cps, tr_checkpoint_order := order\<rparr>, removed))"

definition retain_process_checkpoints_for_tasks ::
  "'x task_registry \<Rightarrow> process_control_key \<Rightarrow> task_instance_id bset \<Rightarrow> 'x task_registry" where
  "retain_process_checkpoints_for_tasks r s retained_tasks =
     (let keep = (\<lambda>key. \<not> restart_in s key \<or> snd (snd (snd key)) \<in> set retained_tasks)
      in r\<lparr>tr_checkpoints := bretain (\<lambda>key _. keep key) (tr_checkpoints r),
           tr_checkpoint_order := filter keep (tr_checkpoint_order r)\<rparr>)"

section \<open>Attempts\<close>

definition attempts_settled :: "task_attempt_snapshot list \<Rightarrow> bool" where
  "attempts_settled attempts = list_all (\<lambda>a. \<not> attempt_state_is_runnable (ts_state a)) attempts"

function make_attempt_room ::
  "task_restart_key \<Rightarrow> nat \<Rightarrow> (task_restart_key, task_attempt_snapshot list) bmap
     \<Rightarrow> (task_restart_key, task_terminal_state) bmap
     \<Rightarrow> (task_restart_key, task_attempt_snapshot list) bmap
        \<times> (task_restart_key, task_terminal_state) bmap \<times> bool" where
  "make_attempt_room key cap attempts states =
     (if \<not> bcontains attempts key \<and> length attempts \<ge> cap
      then (case find (\<lambda>(_, as). attempts_settled as) attempts of
              None \<Rightarrow> (attempts, states, False)
            | Some (removable, _) \<Rightarrow>
                make_attempt_room key cap (bremove removable attempts) (bremove removable states))
      else (attempts, states, True))"
  by pat_completeness auto
termination
proof (relation "measure (\<lambda>(key, cap, attempts, states). length attempts)", goal_cases)
  case (2 key cap attempts states x removable y)
  then have "(removable, y) \<in> set attempts"
    by (metis find_Some_iff nth_mem)
  then show ?case
    by (simp add: bremove_def length_filter_less [of "(removable, y)"])
qed simp

declare make_attempt_room.simps [simp del]

definition begin_attempt ::
  "'x task_registry \<Rightarrow> task_restart_key \<Rightarrow> task_attempt_snapshot \<Rightarrow> nat \<Rightarrow> nat
     \<Rightarrow> 'x task_registry \<times> (unit + unit)" where
  "begin_attempt r key snapshot history_capacity per_task_capacity =
     (case make_attempt_room key history_capacity (tr_attempts r) (tr_terminal_states r) of
        (attempts, states, False) \<Rightarrow>
          (r\<lparr>tr_attempts := attempts, tr_terminal_states := states\<rparr>, Inl ())
      | (attempts, states, True) \<Rightarrow>
          (let as = (case bget attempts key of None \<Rightarrow> [] | Some as \<Rightarrow> as);
               as = map (\<lambda>a. a\<lparr>ts_current := False\<rparr>) as;
               as = as @ [snapshot\<lparr>ts_attempt_number := u32_of_len (length as + 1)\<rparr>];
               as = (if length as > per_task_capacity then tl as else as)
           in (r\<lparr>tr_attempts := binsert key as attempts,
                 tr_terminal_states := bremove key states\<rparr>, Inr ())))"

definition current_attempt :: "'x task_registry \<Rightarrow> task_restart_key \<Rightarrow> task_attempt_snapshot option" where
  "current_attempt r key = Option.bind (bget (tr_attempts r) key) (\<lambda>as. find ts_current (rev as))"

definition attempt_count :: "'x task_registry \<Rightarrow> task_restart_key \<Rightarrow> nat" where
  "attempt_count r key = (case bget (tr_attempts r) key of None \<Rightarrow> 0 | Some as \<Rightarrow> length as)"

definition last_attempt :: "'x task_registry \<Rightarrow> task_restart_key \<Rightarrow> task_attempt_snapshot option" where
  "last_attempt r key =
     (case bget (tr_attempts r) key of
        None \<Rightarrow> None | Some as \<Rightarrow> if as = [] then None else Some (last as))"

text \<open>The closure of \<open>update_current_attempt\<close> gives the changed attempt and a result.\<close>

definition update_current_attempt ::
  "'x task_registry \<Rightarrow> task_restart_key \<Rightarrow> (task_attempt_snapshot \<Rightarrow> task_attempt_snapshot \<times> 'res)
     \<Rightarrow> 'x task_registry \<times> 'res option" where
  "update_current_attempt r key update =
     (case bget (tr_attempts r) key of
        None \<Rightarrow> (r, None)
      | Some as \<Rightarrow>
        (case (find ts_current (rev as), update_last ts_current (\<lambda>a. fst (update a)) as) of
           (Some a, Some as') \<Rightarrow>
             (r\<lparr>tr_attempts := binsert key as' (tr_attempts r)\<rparr>, Some (snd (update a)))
         | _ \<Rightarrow> (r, None)))"

definition resolve_failed_attempt ::
  "'x task_registry \<Rightarrow> task_restart_key \<Rightarrow> task_failure_resolution \<Rightarrow> 'x task_registry \<times> string option" where
  "resolve_failed_attempt r key resolution =
     (case update_current_attempt r key (\<lambda>a.
         if ts_state a \<noteq> AFailedAwaitingAction then (a, None)
         else (a\<lparr>ts_state := (case resolution of AcceptFailure \<Rightarrow> AFailed | CancelFailure \<Rightarrow> ACancelled),
                 ts_command_state := Some (case resolution of
                    AcceptFailure \<Rightarrow> ''failure_accepted'' | CancelFailure \<Rightarrow> ''cancelled'')\<rparr>,
               Some (ts_attempt_id a))) of
        (r', res) \<Rightarrow> (r', Option.bind res (\<lambda>x. x)))"

section \<open>Control of running tasks\<close>

definition mark_restart_launch :: "'x task_registry \<Rightarrow> task_restart_key \<Rightarrow> 'x task_registry" where
  "mark_restart_launch r key = r\<lparr>tr_restart_launches := sinsert key (tr_restart_launches r)\<rparr>"

definition clear_restart_launch :: "'x task_registry \<Rightarrow> task_restart_key \<Rightarrow> 'x task_registry" where
  "clear_restart_launch r key = r\<lparr>tr_restart_launches := sremove key (tr_restart_launches r)\<rparr>"

definition is_restart_launch :: "'x task_registry \<Rightarrow> task_restart_key \<Rightarrow> bool" where
  "is_restart_launch r key \<longleftrightarrow> key \<in> set (tr_restart_launches r)"

definition set_placement :: "'x task_registry \<Rightarrow> task_control_key \<Rightarrow> placement \<Rightarrow> 'x task_registry" where
  "set_placement r key p = r\<lparr>tr_placements := binsert key p (tr_placements r)\<rparr>"

definition activate :: "'x task_registry \<Rightarrow> task_control_key \<Rightarrow> 'x task_registry" where
  "activate r key = r\<lparr>tr_active := sinsert key (tr_active r)\<rparr>"

definition task_is_active :: "'x task_registry \<Rightarrow> task_control_key \<Rightarrow> bool" where
  "task_is_active r key \<longleftrightarrow> key \<in> set (tr_active r)"

definition task_request_cancel :: "'x task_registry \<Rightarrow> task_control_key \<Rightarrow> 'x task_registry" where
  "task_request_cancel r key = r\<lparr>tr_cancellations := sinsert key (tr_cancellations r)\<rparr>"

definition task_is_cancelled :: "'x task_registry \<Rightarrow> task_control_key \<Rightarrow> bool" where
  "task_is_cancelled r key \<longleftrightarrow> key \<in> set (tr_cancellations r)"

definition task_is_aborted :: "'x task_registry \<Rightarrow> task_control_key \<Rightarrow> bool" where
  "task_is_aborted r key \<longleftrightarrow> key \<in> set (tr_aborts r)"

definition finish_task :: "'x task_registry \<Rightarrow> task_control_key \<Rightarrow> 'x task_registry \<times> placement option" where
  "finish_task r key =
     (let r = r\<lparr>tr_cancellations := sremove key (tr_cancellations r),
               tr_aborts := sremove key (tr_aborts r), tr_active := sremove key (tr_active r)\<rparr>;
          r = remove_assignment_for_task r key
      in (r\<lparr>tr_placements := bremove key (tr_placements r)\<rparr>, bget (tr_placements r) key))"

definition active_task_for_logical_task ::
  "'x task_registry \<Rightarrow> process_control_key \<Rightarrow> task_instance_id \<Rightarrow> task_control_key option" where
  "active_task_for_logical_task r s task =
     find (\<lambda>key. control_in s key \<and> snd (snd (snd (snd key))) = task) (tr_active r)"

definition request_cancel_for_process ::
  "'x task_registry \<Rightarrow> process_control_key \<Rightarrow> 'x task_registry \<times> task_control_key list" where
  "request_cancel_for_process r s =
     (let tasks = active_process_tasks r s
      in (r\<lparr>tr_cancellations := sextend tasks (tr_cancellations r)\<rparr>, tasks))"

definition request_abort_for_process ::
  "'x task_registry \<Rightarrow> process_control_key \<Rightarrow> 'x task_registry \<times> task_control_key list" where
  "request_abort_for_process r s =
     (let tasks = active_process_tasks r s
      in (r\<lparr>tr_aborts := sextend tasks (tr_aborts r)\<rparr>, tasks))"

definition clear_cancellations_for_process :: "'x task_registry \<Rightarrow> process_control_key \<Rightarrow> 'x task_registry" where
  "clear_cancellations_for_process r s =
     r\<lparr>tr_cancellations := filter (\<lambda>k. \<not> control_in s k) (tr_cancellations r)\<rparr>"

section \<open>Clean-up\<close>

definition clear_process :: "'x task_registry \<Rightarrow> process_control_key \<Rightarrow> 'x task_registry" where
  "clear_process r s =
     (let r = r\<lparr>tr_cancellations := filter (\<lambda>k. \<not> control_in s k) (tr_cancellations r),
               tr_aborts := filter (\<lambda>k. \<not> control_in s k) (tr_aborts r),
               tr_active := filter (\<lambda>k. \<not> control_in s k) (tr_active r),
               tr_placements := bretain (\<lambda>k _. \<not> control_in s k) (tr_placements r)\<rparr>;
          r = remove_assignments_for_process r s;
          r = remove_pending_for_process r s;
          r = r\<lparr>tr_checkpoints := bretain (\<lambda>k _. \<not> restart_in s k) (tr_checkpoints r),
               tr_checkpoint_order := filter (\<lambda>k. \<not> restart_in s k) (tr_checkpoint_order r)\<rparr>;
          r = remove_events_for_process r s
      in r\<lparr>tr_attempts := bretain (\<lambda>k _. \<not> restart_in s k) (tr_attempts r),
           tr_terminal_states := bretain (\<lambda>k _. \<not> restart_in s k) (tr_terminal_states r),
           tr_restart_launches := filter (\<lambda>k. \<not> restart_in s k) (tr_restart_launches r)\<rparr>)"

definition task_revoke_node :: "'x task_registry \<Rightarrow> node_scope_key \<Rightarrow> 'x task_registry \<times> nat" where
  "task_revoke_node r scope =
     (r\<lparr>tr_assignments := bremove scope (tr_assignments r),
        tr_active := filter (\<lambda>k. \<not> control_on scope k) (tr_active r),
        tr_cancellations := filter (\<lambda>k. \<not> control_on scope k) (tr_cancellations r),
        tr_aborts := filter (\<lambda>k. \<not> control_on scope k) (tr_aborts r),
        tr_placements := bretain (\<lambda>k _. \<not> control_on scope k) (tr_placements r)\<rparr>,
      case bget (tr_assignments r) scope of None \<Rightarrow> 0 | Some q \<Rightarrow> length q)"

definition hard_drain_node :: "'x task_registry \<Rightarrow> node_scope_key \<Rightarrow> 'x task_registry" where
  "hard_drain_node r scope =
     (let cps = bretain (\<lambda>_ c. (tk_tenant (rc_assignment c), tk_project (rc_assignment c),
                               tk_node (rc_assignment c)) \<noteq> scope) (tr_checkpoints r)
      in r\<lparr>tr_active := filter (\<lambda>k. \<not> control_on scope k) (tr_active r),
           tr_assignments := bremove scope (tr_assignments r),
           tr_checkpoints := cps,
           tr_checkpoint_order := filter (bcontains cps) (tr_checkpoint_order r)\<rparr>)"

section \<open>Queries over several collections\<close>

definition has_runnable_remote_work :: "'x task_registry \<Rightarrow> process_control_key \<Rightarrow> bool" where
  "has_runnable_remote_work r s \<longleftrightarrow>
     active_process_tasks r s \<noteq> []
     \<or> list_ex (pending_in s) (tr_pending r)
     \<or> list_ex (list_ex (assignment_in s)) (bvalues (tr_assignments r))
     \<or> list_ex (\<lambda>(key, as). restart_in s key
          \<and> list_ex (\<lambda>a. ts_current a \<and> attempt_state_is_runnable (ts_state a)) (rev as)) (tr_attempts r)"

definition task_is_known_or_active :: "'x task_registry \<Rightarrow> process_control_key \<Rightarrow> task_instance_id \<Rightarrow> bool" where
  "task_is_known_or_active r s task \<longleftrightarrow>
     list_ex (\<lambda>key. control_in s key \<and> snd (snd (snd (snd key))) = task) (tr_active r)
     \<or> list_ex (\<lambda>l. pending_in s l \<and> pl_task l = task) (tr_pending r)
     \<or> list_ex (list_ex (\<lambda>a. assignment_in s a \<and> tk_task a = task)) (bvalues (tr_assignments r))"

definition task_instance_exists :: "'x task_registry \<Rightarrow> process_control_key \<Rightarrow> task_instance_id \<Rightarrow> bool" where
  "task_instance_exists r s task \<longleftrightarrow>
     task_is_known_or_active r s task
     \<or> (\<not> (case s of (tenant, project, process) \<Rightarrow> is_restart_launch r (tenant, project, process, task))
        \<and> last_event_for_task r s task \<noteq> None)"

section \<open>Eviction of checkpoints\<close>

interpretation event_history: scoped_history same_event_process
  by unfold_locales (auto simp: same_event_process_def)

interpretation checkpoint_history: scoped_history same_restart_process
  by unfold_locales auto

text \<open>
  What both loops do to the queue and the map: they drop some keys from both, in step, and append
  exactly those to the list of evicted keys. The last key of the queue survives a positive capacity.
\<close>

definition evicts_to ::
  "task_restart_key list \<Rightarrow> (task_restart_key, 'c) bmap \<Rightarrow> task_restart_key list
     \<Rightarrow> task_restart_key list \<times> (task_restart_key, 'c) bmap \<times> task_restart_key list \<Rightarrow> bool" where
  "evicts_to order cps removed res \<longleftrightarrow>
     (case res of (order', cps', removed') \<Rightarrow>
        \<exists>dropped. removed' = removed @ dropped \<and> set dropped \<subseteq> set order
          \<and> order' = filter (\<lambda>k. k \<notin> set dropped) order
          \<and> cps' = filter (\<lambda>e. fst e \<notin> set dropped) cps)"

lemma evicts_to_refl: "evicts_to order cps removed (order, cps, removed)"
  by (auto simp: evicts_to_def intro: exI [of _ "[]"])

lemma evicts_to_step:
  assumes "evicts_to (filter (\<lambda>k. k \<noteq> e) order) (bremove e cps) (removed @ [e]) res" and "e \<in> set order"
  shows "evicts_to order cps removed res"
proof -
  obtain order' cps' removed' where res: "res = (order', cps', removed')" by (cases res)
  with assms(1) obtain dropped where d: "removed' = removed @ e # dropped"
      "set dropped \<subseteq> {k \<in> set order. k \<noteq> e}"
      "order' = filter (\<lambda>k. k \<notin> set dropped) (filter (\<lambda>k. k \<noteq> e) order)"
      "cps' = filter (\<lambda>x. fst x \<notin> set dropped) (bremove e cps)"
    by (auto simp: evicts_to_def)
  with assms(2) show ?thesis
    unfolding evicts_to_def res prod.case
    by (intro exI [of _ "e # dropped"]) (auto simp: bremove_def intro!: filter_cong)
qed

lemma evicts_to_trans:
  assumes "evicts_to order cps removed (order1, cps1, removed1)"
    and "evicts_to order1 cps1 removed1 res"
  shows "evicts_to order cps removed res"
proof -
  obtain order2 cps2 removed2 where res: "res = (order2, cps2, removed2)" by (cases res)
  from assms obtain d1 d2 where
      "removed1 = removed @ d1" "set d1 \<subseteq> set order" "order1 = filter (\<lambda>k. k \<notin> set d1) order"
      "cps1 = filter (\<lambda>e. fst e \<notin> set d1) cps"
      "removed2 = removed1 @ d2" "set d2 \<subseteq> set order1" "order2 = filter (\<lambda>k. k \<notin> set d2) order1"
      "cps2 = filter (\<lambda>e. fst e \<notin> set d2) cps1"
    by (auto simp: evicts_to_def res)
  then show ?thesis
    unfolding evicts_to_def res prod.case
    by (intro exI [of _ "d1 @ d2"]) (auto intro!: filter_cong)
qed

lemma extract_distinct:
  assumes "List.extract P xs = Some (us, x, vs)" and "distinct xs"
  shows "us @ vs = filter (\<lambda>y. y \<noteq> x) xs" and "x \<in> set xs" and "P x" and "\<forall>u\<in>set us. \<not> P u"
proof -
  from assms(1) have xs: "xs = us @ x # vs" "P x" "\<forall>u\<in>set us. \<not> P u"
    by (auto simp: extract_Some_iff)
  with assms(2) have "filter (\<lambda>y. y \<noteq> x) us = us" "filter (\<lambda>y. y \<noteq> x) vs = vs"
    by (auto simp: filter_id_conv)
  with xs show "us @ vs = filter (\<lambda>y. y \<noteq> x) xs" "x \<in> set xs" "P x" "\<forall>u\<in>set us. \<not> P u"
    by auto
qed

lemma evict_process_checkpoints_spec:
  assumes "distinct order"
  shows "evicts_to order cps removed (evict_process_checkpoints same cap order cps removed)
    \<and> length (filter same (fst (evict_process_checkpoints same cap order cps removed))) \<le> cap
    \<and> (0 < cap \<longrightarrow> order \<noteq> [] \<longrightarrow>
         last order \<in> set (fst (evict_process_checkpoints same cap order cps removed)))"
  using assms
proof (induction same cap order cps removed rule: evict_process_checkpoints.induct)
  case (1 same cap order cps removed)
  show ?case
  proof (cases "length (filter same order) > cap")
    case False
    then show ?thesis
      by (auto simp: evict_process_checkpoints.simps [of same cap order] evicts_to_refl)
  next
    case True
    then have "filter same order \<noteq> []" by auto
    then have "List.extract same order \<noteq> None"
      by (simp add: extract_None_iff filter_empty_conv)
    then obtain xs e ys where ex: "List.extract same order = Some (xs, e, ys)"
      by (cases "List.extract same order") auto
    note e = extract_distinct [OF ex "1.prems"]
    have split: "order = xs @ e # ys" using ex by (simp add: extract_Some_iff)
    let ?rec = "evict_process_checkpoints same cap (xs @ ys) (bremove e cps) (removed @ [e])"
    have eq: "evict_process_checkpoints same cap order cps removed = ?rec"
      using True by (simp add: evict_process_checkpoints.simps [of same cap order] ex)
    have IH: "evicts_to (xs @ ys) (bremove e cps) (removed @ [e]) ?rec
        \<and> length (filter same (fst ?rec)) \<le> cap
        \<and> (0 < cap \<longrightarrow> xs @ ys \<noteq> [] \<longrightarrow> last (xs @ ys) \<in> set (fst ?rec))"
    proof (rule "1.IH" [OF True ex refl refl])
      show "distinct (xs @ ys)" using "1.prems" by (simp add: split)
    qed
    have "evicts_to order cps removed ?rec"
      using IH e(1,2) by (auto intro: evicts_to_step [of e order])
    moreover have "last order \<in> set (fst ?rec)" if "0 < cap"
    proof -
      have "filter same xs = []" using e(4) by (simp add: filter_empty_conv)
      moreover have "1 < length (filter same (xs @ e # ys))" using True that by (simp add: split)
      ultimately have "ys \<noteq> []" by (cases "same e") auto
      then show ?thesis using IH that by (simp add: split)
    qed
    ultimately show ?thesis using IH by (simp add: eq)
  qed
qed

lemma evict_total_checkpoints_spec:
  assumes "distinct order"
  shows "evicts_to order cps removed (evict_total_checkpoints cap order cps removed)
    \<and> length (fst (evict_total_checkpoints cap order cps removed)) \<le> cap
    \<and> (0 < cap \<longrightarrow> order \<noteq> [] \<longrightarrow>
         last order \<in> set (fst (evict_total_checkpoints cap order cps removed)))"
  using assms
proof (induction cap order cps removed rule: evict_total_checkpoints.induct)
  case (1 cap cps removed)
  show ?case by (auto simp: evicts_to_def)
next
  case (2 cap k order cps removed)
  show ?case
  proof (cases "length (k # order) > cap")
    case False
    then show ?thesis by (auto simp: evicts_to_refl)
  next
    case True
    with "2.prems" have rest: "filter (\<lambda>x. x \<noteq> k) (k # order) = order"
      by (auto simp: filter_id_conv)
    from True "2.IH" "2.prems" have IH:
      "evicts_to order (bremove k cps) (removed @ [k]) (evict_total_checkpoints cap order (bremove k cps) (removed @ [k]))
        \<and> length (fst (evict_total_checkpoints cap order (bremove k cps) (removed @ [k]))) \<le> cap
        \<and> (0 < cap \<longrightarrow> order \<noteq> [] \<longrightarrow>
         last order \<in> set (fst (evict_total_checkpoints cap order (bremove k cps) (removed @ [k]))))"
      by simp
    then have "evicts_to (k # order) cps removed (evict_total_checkpoints cap order (bremove k cps) (removed @ [k]))"
      by (intro evicts_to_step [of k "k # order", unfolded rest]) auto
    with IH True show ?thesis by auto
  qed
qed

definition max_restart_checkpoints_per_process :: nat where
  "max_restart_checkpoints_per_process = 128"

definition max_restart_checkpoints_total :: nat where
  "max_restart_checkpoints_total = 4096"

text \<open>The queue lists exactly the stored checkpoints, each once, within both capacities.\<close>

definition checkpoint_index_ok ::
  "task_restart_key list \<Rightarrow> (task_restart_key, 'c) bmap \<Rightarrow> bool" where
  "checkpoint_index_ok order cps \<longleftrightarrow> bwf cps \<and> distinct order \<and> set order = set (bkeys cps)"

definition checkpoints_ok :: "'x task_registry \<Rightarrow> bool" where
  "checkpoints_ok r \<longleftrightarrow>
     checkpoint_index_ok (tr_checkpoint_order r) (tr_checkpoints r)
     \<and> scope_bounded same_restart_process max_restart_checkpoints_per_process (tr_checkpoint_order r)
     \<and> length (tr_checkpoint_order r) \<le> max_restart_checkpoints_total"

lemma checkpoint_index_filter:
  "checkpoint_index_ok order cps \<Longrightarrow> checkpoint_index_ok (filter P order) (filter (\<lambda>e. P (fst e)) cps)"
  by (auto simp: checkpoint_index_ok_def bwf_filter)

lemma checkpoint_index_push:
  "checkpoint_index_ok order cps \<Longrightarrow> key \<notin> set order
    \<Longrightarrow> checkpoint_index_ok (order @ [key]) (binsert key c cps)"
  by (simp add: checkpoint_index_ok_def fst_image_binsert)

lemma length_filter_filter_le: "length (filter Q (filter P xs)) \<le> length (filter Q xs)"
  by (induction xs) auto

lemma scope_bounded_filter: "scope_bounded same cap xs \<Longrightarrow> scope_bounded same cap (filter P xs)"
  unfolding scope_bounded_def by (blast intro: le_trans [OF length_filter_filter_le])

lemma checkpoints_ok_filter:
  assumes "checkpoints_ok r"
  shows "checkpoints_ok (r\<lparr>tr_checkpoints := filter (\<lambda>e. P (fst e)) (tr_checkpoints r),
      tr_checkpoint_order := filter P (tr_checkpoint_order r)\<rparr>)"
  using assms
  by (auto simp: checkpoints_ok_def checkpoint_index_filter scope_bounded_filter
      intro: le_trans [OF length_filter_le])

lemma evicts_to_lookup:
  assumes "evicts_to order cps removed (order', cps', removed')" and "checkpoint_index_ok order cps"
  shows "checkpoint_index_ok order' cps'"
    and "\<exists>P. order' = filter P order"
    and "\<exists>dropped. removed' = removed @ dropped
      \<and> (\<forall>k. k \<in> set dropped \<longleftrightarrow> bcontains cps k \<and> \<not> bcontains cps' k)
      \<and> (\<forall>k. k \<notin> set dropped \<longrightarrow> bget cps' k = bget cps k)"
proof -
  from assms(1) obtain dropped where d: "removed' = removed @ dropped" "set dropped \<subseteq> set order"
      "order' = filter (\<lambda>k. k \<notin> set dropped) order" "cps' = filter (\<lambda>e. fst e \<notin> set dropped) cps"
    by (auto simp: evicts_to_def)
  from d(3,4) assms(2) show "checkpoint_index_ok order' cps'"
    using checkpoint_index_filter [of order cps "\<lambda>k. k \<notin> set dropped"] by simp
  from d(3) show "\<exists>P. order' = filter P order" by blast
  have look: "bget cps' k = (if k \<in> set dropped then None else bget cps k)" for k
    by (simp add: d(4) bget_filter_keys [of "\<lambda>k. k \<notin> set dropped"])
  have "k \<in> set dropped \<longleftrightarrow> bcontains cps k \<and> \<not> bcontains cps' k" for k
    using d(2) assms(2) by (auto simp: d(4) bcontains_def checkpoint_index_ok_def)
  with d(1) look show "\<exists>dropped. removed' = removed @ dropped
      \<and> (\<forall>k. k \<in> set dropped \<longleftrightarrow> bcontains cps k \<and> \<not> bcontains cps' k)
      \<and> (\<forall>k. k \<notin> set dropped \<longrightarrow> bget cps' k = bget cps k)"
    by (intro exI [of _ dropped]) simp
qed

text \<open>The intermediate states of \<open>store_checkpoint\<close>, named once for its proofs.\<close>

lemma store_checkpoint_stages:
  assumes ok: "checkpoints_ok r" and res: "store_checkpoint r key c cap tcap = (r', removed)"
    and cap: "0 < cap" "0 < tcap"
  obtains order0 cps0 order1 cps1 rem1 where
    "order0 = filter (\<lambda>k. k \<noteq> key) (tr_checkpoint_order r) @ [key]"
    "cps0 = binsert key c (bremove key (tr_checkpoints r))"
    "checkpoint_index_ok order0 cps0"
    "evicts_to order0 cps0 (if bcontains (tr_checkpoints r) key then [key] else []) (order1, cps1, rem1)"
    "length (filter (\<lambda>k. same_restart_process k key) order1) \<le> cap" "last order0 \<in> set order1"
    "evicts_to order1 cps1 rem1 (tr_checkpoint_order r', tr_checkpoints r', removed)"
    "length (tr_checkpoint_order r') \<le> tcap" "key \<in> set (tr_checkpoint_order r')"
proof -
  define order0 where "order0 = filter (\<lambda>k. k \<noteq> key) (tr_checkpoint_order r) @ [key]"
  define cps0 where "cps0 = binsert key c (bremove key (tr_checkpoints r))"
  define rem0 where "rem0 = (if bcontains (tr_checkpoints r) key then [key] else [])"
  define same where "same = (\<lambda>k. same_restart_process k key)"
  obtain order1 cps1 rem1 where s1:
    "evict_process_checkpoints same cap order0 cps0 rem0 = (order1, cps1, rem1)" by (metis prod_cases3)
  obtain order2 cps2 rem2 where s2:
    "evict_total_checkpoints tcap order1 cps1 rem1 = (order2, cps2, rem2)" by (metis prod_cases3)
  have r': "r' = r\<lparr>tr_checkpoints := cps2, tr_checkpoint_order := order2\<rparr>" "removed = rem2"
    using res s1 s2
    by (auto simp: store_checkpoint_def remove_checkpoint_def order0_def cps0_def rem0_def same_def Let_def)
  have ix: "checkpoint_index_ok order0 cps0"
    using ok checkpoint_index_filter [of "tr_checkpoint_order r" "tr_checkpoints r" "\<lambda>k. k \<noteq> key"]
    unfolding order0_def cps0_def checkpoints_ok_def bremove_def
    by (intro checkpoint_index_push) auto
  then have dist: "distinct order0" by (simp add: checkpoint_index_ok_def)
  note e1 = evict_process_checkpoints_spec [OF dist, of cps0 rem0 same cap, unfolded s1 fst_conv]
  then have ix1: "checkpoint_index_ok order1 cps1" using evicts_to_lookup(1) ix by blast
  then have dist1: "distinct order1" by (simp add: checkpoint_index_ok_def)
  note e2 = evict_total_checkpoints_spec [OF dist1, of cps1 rem1 tcap, unfolded s2 fst_conv]
  from e1 obtain P where P: "order1 = filter P order0" using evicts_to_lookup(2) ix by blast
  have last0: "last order0 = key" "order0 \<noteq> []" by (simp_all add: order0_def)
  have in1: "key \<in> set order1" using e1 cap last0 by auto
  then have "last order1 = key" "order1 \<noteq> []"
    unfolding P order0_def by (auto split: if_splits)
  then have "key \<in> set order2" using e2 cap by auto
  then have in2: "key \<in> set (tr_checkpoint_order r')" by (simp add: r'(1))
  have e2': "evicts_to order1 cps1 rem1 (tr_checkpoint_order r', tr_checkpoints r', removed)"
      "length (tr_checkpoint_order r') \<le> tcap"
    using e2 by (simp_all add: r')
  show ?thesis
    by (rule that [OF order0_def cps0_def ix])
      (use e1 e2' in1 in2 last0 in \<open>simp_all add: rem0_def same_def\<close>)
qed

lemma checkpoints_ok_store:
  assumes ok: "checkpoints_ok r"
  shows "checkpoints_ok (fst (store_checkpoint r key c max_restart_checkpoints_per_process
           max_restart_checkpoints_total))"
proof -
  obtain r' removed where res: "store_checkpoint r key c max_restart_checkpoints_per_process
      max_restart_checkpoints_total = (r', removed)" by fastforce
  have pos: "0 < max_restart_checkpoints_per_process" "0 < max_restart_checkpoints_total"
    by (simp_all add: max_restart_checkpoints_per_process_def max_restart_checkpoints_total_def)
  show ?thesis
  proof (rule store_checkpoint_stages [OF ok res pos])
    fix order0 cps0 order1 cps1 rem1
    assume order0: "order0 = filter (\<lambda>k. k \<noteq> key) (tr_checkpoint_order r) @ [key]"
      and ix: "checkpoint_index_ok order0 cps0"
      and e1: "evicts_to order0 cps0 (if bcontains (tr_checkpoints r) key then [key] else []) (order1, cps1, rem1)"
      and le1: "length (filter (\<lambda>k. same_restart_process k key) order1) \<le> max_restart_checkpoints_per_process"
      and e2: "evicts_to order1 cps1 rem1 (tr_checkpoint_order r', tr_checkpoints r', removed)"
      and le2: "length (tr_checkpoint_order r') \<le> max_restart_checkpoints_total"
    note ix1 = evicts_to_lookup(1) [OF e1 ix]
    obtain P Q where P: "order1 = filter P order0" and Q: "tr_checkpoint_order r' = filter Q order1"
      using evicts_to_lookup(2) [OF e1 ix] evicts_to_lookup(2) [OF e2 ix1] by blast
    have "length (filter (\<lambda>k. same_restart_process k k') order1) \<le> max_restart_checkpoints_per_process" for k'
    proof (cases "same_restart_process key k'")
      case True
      then have "(\<lambda>k. same_restart_process k k') = (\<lambda>k. same_restart_process k key)"
        by (auto intro: checkpoint_history.same_trans checkpoint_history.same_sym)
      with le1 show ?thesis by simp
    next
      case False
      then have "filter (\<lambda>k. same_restart_process k k') order0
          = filter (\<lambda>k. same_restart_process k k') (filter (\<lambda>k. k \<noteq> key) (tr_checkpoint_order r))"
        by (simp add: order0)
      moreover have "scope_bounded same_restart_process max_restart_checkpoints_per_process
          (filter (\<lambda>k. k \<noteq> key) (tr_checkpoint_order r))"
        using ok by (intro scope_bounded_filter) (simp add: checkpoints_ok_def)
      ultimately have "length (filter (\<lambda>k. same_restart_process k k') order0)
          \<le> max_restart_checkpoints_per_process"
        by (metis scope_bounded_def)
      moreover have "length (filter (\<lambda>k. same_restart_process k k') order1)
          \<le> length (filter (\<lambda>k. same_restart_process k k') order0)"
        unfolding P by (rule length_filter_filter_le)
      ultimately show ?thesis by simp
    qed
    then have "scope_bounded same_restart_process max_restart_checkpoints_per_process order1"
      by (simp add: scope_bounded_def)
    then show ?thesis
      using evicts_to_lookup(1) [OF e2 ix1] le2
      by (simp add: checkpoints_ok_def res Q scope_bounded_filter)
  qed
qed

text \<open>
  C9. Storing a restart checkpoint keeps it: afterwards the registry holds exactly the new
  checkpoint for its key, and the returned list names exactly the other checkpoints that were
  evicted to stay within the capacities, so that what their owners hold can be released.
\<close>

theorem store_checkpoint_exact:
  assumes "checkpoints_ok r" and "store_checkpoint r key c cap tcap = (r', removed)"
    and "0 < cap" and "0 < tcap"
  shows "bget (tr_checkpoints r') key = Some c
    \<and> (\<forall>k. k \<noteq> key \<longrightarrow>
         (k \<in> set removed \<longleftrightarrow> bcontains (tr_checkpoints r) k \<and> \<not> bcontains (tr_checkpoints r') k)
         \<and> (k \<notin> set removed \<longrightarrow> bget (tr_checkpoints r') k = bget (tr_checkpoints r) k))"
proof (rule store_checkpoint_stages [OF assms])
  fix order0 cps0 order1 cps1 rem1
  assume cps0: "cps0 = binsert key c (bremove key (tr_checkpoints r))"
    and ix: "checkpoint_index_ok order0 cps0"
    and e1: "evicts_to order0 cps0 (if bcontains (tr_checkpoints r) key then [key] else []) (order1, cps1, rem1)"
    and e2: "evicts_to order1 cps1 rem1 (tr_checkpoint_order r', tr_checkpoints r', removed)"
    and kept: "key \<in> set (tr_checkpoint_order r')"
  note e = evicts_to_trans [OF e1 e2]
  obtain dropped where
      d: "removed = (if bcontains (tr_checkpoints r) key then [key] else []) @ dropped"
        "\<forall>k. k \<in> set dropped \<longleftrightarrow> bcontains cps0 k \<and> \<not> bcontains (tr_checkpoints r') k"
        "\<forall>k. k \<notin> set dropped \<longrightarrow> bget (tr_checkpoints r') k = bget cps0 k"
    using evicts_to_lookup(3) [OF e ix] by blast
  have look0: "bget cps0 k = (if k = key then Some c else bget (tr_checkpoints r) k)" for k
    by (simp add: cps0 bmap_simps)
  have "bcontains (tr_checkpoints r') key"
    using evicts_to_lookup(1) [OF e ix] kept by (simp add: checkpoint_index_ok_def bcontains_def)
  then have "key \<notin> set dropped" using d(2) by blast
  then have "bget (tr_checkpoints r') key = Some c" using d(3) [rule_format, of key] look0 [of key] by simp
  moreover have "k \<in> set removed \<longleftrightarrow> k \<in> set dropped" "bcontains cps0 k = bcontains (tr_checkpoints r) k"
      "bget cps0 k = bget (tr_checkpoints r) k" if "k \<noteq> key" for k
    using that look0 [of k] by (auto simp: d(1) bcontains_iff)
  ultimately show ?thesis using d(2,3) by (metis (no_types))
qed

text \<open>Witness: with room for one checkpoint per process, the second one evicts the first.\<close>

definition example_task_spec :: "u64 task_spec" where
  "example_task_spec =
     \<lparr>sp_tenant = ''t'', sp_project = ''p'', sp_process = ''v'', sp_task_definition = ''build'', sp_task_instance = ''k'',
      sp_dispatch = CoordinatorNodeWasm (Some ''build'') TaskV1, sp_environment_id = None, sp_environment = None,
      sp_environment_digest = None, sp_required_capabilities = [], sp_dependency_cache = None, sp_source_snapshot = None,
      sp_source_revision = None, sp_required_artifacts = [], sp_args = [], sp_requested_secrets = [], sp_vfs_epoch = 0,
      sp_failure_policy = FailFast, sp_bundle_digest = None\<rparr>"

definition example_assignment :: "u64 task_assignment" where
  "example_assignment =
     \<lparr>tk_assignment_id = ''i'', tk_attempt_id = ''a1'', tk_offer_epoch = 1, tk_offer_expires_at = 30,
      tk_tenant = ''t'', tk_project = ''p'', tk_process = ''v'', tk_task = ''k'', tk_node = ''n'',
      tk_epoch = 1, tk_artifact_path = ''/vfs'', tk_task_spec = example_task_spec, tk_wasm_module_base64 = ''w''\<rparr>"

definition example_task_checkpoint :: task_checkpoint where
  "example_task_checkpoint =
     \<lparr>tc_task = ''k'',
      tc_boundary = \<lparr>cb_task_entrypoint = ''build'', cb_serialized_args = ''d'', cb_environment_digest = ''e'',
        cb_vfs_epoch = 0, cb_task_abi = ''a''\<rparr>,
      tc_vfs_manifest = \<lparr>vm_epoch = 0, vm_producer = ''k'', vm_node = ''n'', vm_objects = [], vm_large_bytes_uploaded = False\<rparr>,
      tc_depends_on_live_stack = False, tc_depends_on_live_socket = False, tc_depends_on_ephemeral_artifact_durability = False\<rparr>"

definition example_checkpoint :: "u64 task_restart_checkpoint" where
  "example_checkpoint = \<lparr>rc_checkpoint = example_task_checkpoint, rc_assignment = example_assignment\<rparr>"

theorem store_checkpoint_exact_witness:
  "let r = fst (store_checkpoint task_registry_default (''t'', ''p'', ''v'', ''k1'') example_checkpoint 1 9);
       (r', removed) = store_checkpoint r (''t'', ''p'', ''v'', ''k2'') example_checkpoint 1 9
   in bget (tr_checkpoints r') (''t'', ''p'', ''v'', ''k2'') = Some example_checkpoint
    \<and> (''t'', ''p'', ''v'', ''k1'') \<in> set removed
    \<and> \<not> bcontains (tr_checkpoints r') (''t'', ''p'', ''v'', ''k1'')"
proof -
  define r where "r = fst (store_checkpoint task_registry_default (''t'', ''p'', ''v'', ''k1'') example_checkpoint 1 9)"
  obtain r' removed where res: "store_checkpoint r (''t'', ''p'', ''v'', ''k2'') example_checkpoint 1 9
      = (r', removed)" by fastforce
  have r: "tr_checkpoint_order r = [(''t'', ''p'', ''v'', ''k1'')]"
      "tr_checkpoints r = [((''t'', ''p'', ''v'', ''k1''), example_checkpoint)]"
    unfolding r_def by code_simp+
  have ok: "checkpoints_ok r"
    by (simp add: checkpoints_ok_def checkpoint_index_ok_def scope_bounded_def r bwf_def
        max_restart_checkpoints_per_process_def max_restart_checkpoints_total_def)
  have "snd (store_checkpoint r (''t'', ''p'', ''v'', ''k2'') example_checkpoint 1 9)
      = [(''t'', ''p'', ''v'', ''k1'')]"
    unfolding r_def by code_simp
  then have "removed = [(''t'', ''p'', ''v'', ''k1'')]" using res by simp
  moreover have "bget (tr_checkpoints r') (''t'', ''p'', ''v'', ''k2'') = Some example_checkpoint"
    using store_checkpoint_exact [OF ok res zero_less_one zero_less_numeral] by blast
  moreover have "(''t'', ''p'', ''v'', ''k1'') \<in> set removed \<longleftrightarrow>
      bcontains (tr_checkpoints r) (''t'', ''p'', ''v'', ''k1'')
      \<and> \<not> bcontains (tr_checkpoints r') (''t'', ''p'', ''v'', ''k1'')"
    using store_checkpoint_exact [OF ok res zero_less_one zero_less_numeral, THEN conjunct2, THEN spec,
        of "(''t'', ''p'', ''v'', ''k1'')"] by simp
  ultimately show ?thesis
    unfolding r_def [symmetric] Let_def res by auto
qed

end
