(* ===== verification/CF_Processes.thy ===== *)
theory CF_Processes
  imports CF_Tasks
begin

text \<open>
  The process registry (\<^verbatim>\<open>clusterflux-coordinator/src/service/process_registry.rs\<close>): cancellation and
  abort controls, the history of process scopes and the bounded history of process summaries. The loops
  that make room for a summary are one function with its termination proof; they are shown to give up
  finished summaries only, and the pages of the history to enumerate it without gap or repetition.
\<close>

section \<open>State\<close>

datatype process_final_result = PCompleted | PFailed | PCancelled

record stored_process_summary =
  sm_started_at :: u64
  sm_ended_at :: "u64 option"
  sm_final_result :: "process_final_result option"
  sm_connected_nodes :: "node_id list"
  sm_main_task_definition :: "string option"
  sm_main_task_instance :: "task_instance_id option"
  sm_main_terminal_state :: "task_terminal_state option"
  sm_order :: u64

record process_registry =
  pg_scope_history :: "process_control_key list"
  pg_summaries :: "(process_control_key, stored_process_summary) bmap"
  pg_summary_order :: "process_control_key list"
  pg_next_summary_order :: u64
  pg_cancellations :: "process_control_key bset"
  pg_aborts :: "process_control_key bset"

definition process_registry_default :: process_registry where
  "process_registry_default =
     \<lparr>pg_scope_history = [], pg_summaries = [], pg_summary_order = [], pg_next_summary_order = 1,
      pg_cancellations = [], pg_aborts = []\<rparr>"

definition max_recent_process_summaries_per_project :: nat where
  "max_recent_process_summaries_per_project = 32"

definition max_recent_process_summaries_total :: nat where
  "max_recent_process_summaries_total = 8192"

section \<open>Controls and scopes\<close>

definition process_is_cancelled :: "process_registry \<Rightarrow> process_control_key \<Rightarrow> bool" where
  "process_is_cancelled r key \<longleftrightarrow> key \<in> set (pg_cancellations r)"

definition process_is_aborted :: "process_registry \<Rightarrow> process_control_key \<Rightarrow> bool" where
  "process_is_aborted r key \<longleftrightarrow> key \<in> set (pg_aborts r)"

definition is_stopping :: "process_registry \<Rightarrow> process_control_key \<Rightarrow> bool" where
  "is_stopping r key \<longleftrightarrow> process_is_cancelled r key \<or> process_is_aborted r key"

definition process_request_cancel :: "process_registry \<Rightarrow> process_control_key \<Rightarrow> process_registry \<times> bool" where
  "process_request_cancel r key =
     (r\<lparr>pg_cancellations := sinsert key (pg_cancellations r)\<rparr>, key \<notin> set (pg_cancellations r))"

definition process_request_abort :: "process_registry \<Rightarrow> process_control_key \<Rightarrow> process_registry \<times> bool" where
  "process_request_abort r key = (r\<lparr>pg_aborts := sinsert key (pg_aborts r)\<rparr>, key \<notin> set (pg_aborts r))"

definition process_clear_cancel :: "process_registry \<Rightarrow> process_control_key \<Rightarrow> process_registry \<times> bool" where
  "process_clear_cancel r key =
     (r\<lparr>pg_cancellations := sremove key (pg_cancellations r)\<rparr>, key \<in> set (pg_cancellations r))"

definition process_clear_abort :: "process_registry \<Rightarrow> process_control_key \<Rightarrow> process_registry \<times> bool" where
  "process_clear_abort r key = (r\<lparr>pg_aborts := sremove key (pg_aborts r)\<rparr>, key \<in> set (pg_aborts r))"

definition clear_control :: "process_registry \<Rightarrow> process_control_key \<Rightarrow> process_registry" where
  "clear_control r key = fst (process_clear_abort (fst (process_clear_cancel r key)) key)"

text \<open>Every caller passes a positive limit.\<close>

definition record_scope :: "process_registry \<Rightarrow> process_control_key \<Rightarrow> nat \<Rightarrow> process_registry" where
  "record_scope r key limit =
     r\<lparr>pg_scope_history := pop_while_ge limit (filter (\<lambda>k. k \<noteq> key) (pg_scope_history r)) @ [key]\<rparr>"

definition scope_was_seen :: "process_registry \<Rightarrow> process_control_key \<Rightarrow> bool" where
  "scope_was_seen r key = list_ex (\<lambda>k. k = key) (pg_scope_history r)"

definition process_was_seen_outside_scope :: "process_registry \<Rightarrow> process_control_key \<Rightarrow> bool" where
  "process_was_seen_outside_scope r key =
     list_ex (\<lambda>k. snd (snd k) = snd (snd key) \<and> (fst k \<noteq> fst key \<or> fst (snd k) \<noteq> fst (snd key))) (pg_scope_history r)"

section \<open>Summaries\<close>

type_synonym summaries = "(process_control_key, stored_process_summary) bmap"

definition summary_finished :: "summaries \<Rightarrow> process_control_key \<Rightarrow> bool" where
  "summary_finished m k = (case bget m k of None \<Rightarrow> False | Some s \<Rightarrow> sm_final_result s \<noteq> None)"

text \<open>
  The two loops of \<open>start_summary\<close>: while the scope holds \<open>cap\<close> summaries, the first finished one in
  insertion order goes. The first loop runs with the scope of the project, the second with every key.
\<close>

function evict_summaries ::
  "(process_control_key \<Rightarrow> bool) \<Rightarrow> nat \<Rightarrow> summaries \<Rightarrow> process_control_key list \<Rightarrow> process_control_key list
     \<Rightarrow> summaries \<times> process_control_key list \<times> process_control_key list" where
  "evict_summaries scope cap m order evicted =
     (if length (filter scope (bkeys m)) \<ge> cap then
        case find (\<lambda>k. scope k \<and> summary_finished m k) order of
          None \<Rightarrow> (m, order, evicted)
        | Some k \<Rightarrow>
            evict_summaries scope cap (bremove k m) (filter (\<lambda>k'. k' \<noteq> k) order) (evicted @ [k])
      else (m, order, evicted))"
  by pat_completeness auto
termination
proof (relation "measure (\<lambda>(_, _, m, _, _). length m)")
  fix scope cap and m :: summaries and order evicted k
  assume "find (\<lambda>k. scope k \<and> summary_finished m k) order = Some k"
  then have "summary_finished m k" by (auto simp: find_Some_iff)
  then have "k \<in> set (map fst m)"
    by (auto simp: summary_finished_def split: option.splits) (metis map_of_eq_None_iff option.distinct(1))
  from length_bremove_less [OF this]
  show "((scope, cap, bremove k m, filter (\<lambda>k'. k' \<noteq> k) order, evicted @ [k]), scope, cap, m, order, evicted)
      \<in> measure (\<lambda>(_, _, m, _, _). length m)" by simp
qed simp

declare evict_summaries.simps [simp del]

definition allocate_summary_order :: "process_registry \<Rightarrow> process_registry \<times> u64" where
  "allocate_summary_order r =
     (r\<lparr>pg_next_summary_order := sat_add (pg_next_summary_order r) 1\<rparr>, pg_next_summary_order r)"

definition fresh_summary :: "u64 \<Rightarrow> u64 \<Rightarrow> stored_process_summary" where
  "fresh_summary now order =
     \<lparr>sm_started_at = now, sm_ended_at = None, sm_final_result = None, sm_connected_nodes = [],
      sm_main_task_definition = None, sm_main_task_instance = None, sm_main_terminal_state = None, sm_order = order\<rparr>"

definition start_summary ::
  "process_registry \<Rightarrow> process_control_key \<Rightarrow> u64 \<Rightarrow> process_registry \<times> process_control_key list" where
  "start_summary r key now =
     (let order = filter (\<lambda>k. k \<noteq> key) (pg_summary_order r);
          (m, order, evicted) = evict_summaries (\<lambda>k. fst k = fst key \<and> fst (snd k) = fst (snd key))
             max_recent_process_summaries_per_project (pg_summaries r) order [];
          (m, order, evicted) = evict_summaries (\<lambda>_. True) max_recent_process_summaries_total m order evicted;
          (r, n) = allocate_summary_order r
      in (r\<lparr>pg_summaries := binsert key (fresh_summary now n) m, pg_summary_order := order @ [key]\<rparr>, evicted))"

definition finish_summary ::
  "process_registry \<Rightarrow> process_control_key \<Rightarrow> process_final_result \<Rightarrow> node_id list \<Rightarrow> u64 \<Rightarrow> process_registry" where
  "finish_summary r key result nodes now =
     (let r = (if bcontains (pg_summaries r) key then r
               else let (r, n) = allocate_summary_order r
                    in r\<lparr>pg_summary_order := pg_summary_order r @ [key],
                         pg_summaries := binsert key (fresh_summary now n) (pg_summaries r)\<rparr>)
      in r\<lparr>pg_summaries := bupdate key
             (\<lambda>s. s\<lparr>sm_ended_at := Some now, sm_final_result := Some result, sm_connected_nodes := nodes\<rparr>)
             (pg_summaries r)\<rparr>)"

definition record_main_terminal ::
  "process_registry \<Rightarrow> process_control_key \<Rightarrow> string \<Rightarrow> task_instance_id \<Rightarrow> task_terminal_state
     \<Rightarrow> process_registry \<times> bool" where
  "record_main_terminal r key task_definition task state =
     (r\<lparr>pg_summaries := bupdate key
          (\<lambda>s. s\<lparr>sm_main_task_definition := Some task_definition, sm_main_task_instance := Some task,
                 sm_main_terminal_state := Some state\<rparr>) (pg_summaries r)\<rparr>,
      bcontains (pg_summaries r) key)"

text \<open>\<open>sort_by_key\<close> with \<open>Reverse\<close>, stable: descending by order.\<close>

definition project_summaries ::
  "process_registry \<Rightarrow> tenant_id \<Rightarrow> project_id \<Rightarrow> (process_control_key \<times> stored_process_summary) list" where
  "project_summaries r tenant project =
     sort_key (\<lambda>e. - 1 - sm_order (snd e))
       (filter (\<lambda>e. fst (fst e) = tenant \<and> fst (snd (fst e)) = project) (pg_summaries r))"

definition summaries_page ::
  "process_registry \<Rightarrow> tenant_id \<Rightarrow> project_id \<Rightarrow> u64 option \<Rightarrow> nat
     \<Rightarrow> (process_control_key \<times> stored_process_summary) list \<times> bool" where
  "summaries_page r tenant project before_order limit =
     (let stored = sort_key (\<lambda>e. - 1 - sm_order (snd e))
            (filter (\<lambda>e. fst (fst e) = tenant \<and> fst (snd (fst e)) = project
                 \<and> (case before_order of None \<Rightarrow> True | Some order \<Rightarrow> sm_order (snd e) < order)) (pg_summaries r))
      in (take limit stored, length stored > limit))"

section \<open>Making room gives up finished summaries only\<close>

definition evicts_summaries ::
  "(process_control_key \<Rightarrow> bool) \<Rightarrow> summaries \<Rightarrow> process_control_key list \<Rightarrow> process_control_key list
     \<Rightarrow> summaries \<Rightarrow> process_control_key list \<Rightarrow> bool" where
  "evicts_summaries scope m order ks m' order' \<longleftrightarrow>
     (\<forall>k \<in> set ks. k \<in> set order \<and> scope k \<and> summary_finished m k)
     \<and> bget m' = (\<lambda>k. if k \<in> set ks then None else bget m k) \<and> order' = filter (\<lambda>k. k \<notin> set ks) order
     \<and> (bwf m \<longrightarrow> bwf m')"

lemma summary_finished_remove: "summary_finished (bremove k m) k' \<longleftrightarrow> k' \<noteq> k \<and> summary_finished m k'"
  by (auto simp: summary_finished_def bmap_simps)

lemma evict_summaries_spec:
  "\<exists>m' order' ks. evict_summaries scope cap m order evicted = (m', order', evicted @ ks)
     \<and> evicts_summaries scope m order ks m' order'
     \<and> (length (filter scope (bkeys m')) < cap \<or> (\<forall>k \<in> set order'. scope k \<longrightarrow> \<not> summary_finished m' k))"
proof (induction scope cap m order evicted rule: evict_summaries.induct)
  case (1 scope cap m order evicted)
  show ?case
  proof (cases "cap \<le> length (filter scope (bkeys m)) \<and> find (\<lambda>k. scope k \<and> summary_finished m k) order \<noteq> None")
    case False
    then have "evict_summaries scope cap m order evicted = (m, order, evicted @ [])"
      by (subst evict_summaries.simps) (auto split: option.split)
    moreover have "evicts_summaries scope m order [] m order" by (simp add: evicts_summaries_def)
    moreover have "length (filter scope (bkeys m)) < cap \<or> (\<forall>k \<in> set order. scope k \<longrightarrow> \<not> summary_finished m k)"
      using False by (cases "cap \<le> length (filter scope (bkeys m))") (auto simp: find_None_iff)
    ultimately show ?thesis by blast
  next
    case True
    then obtain k where full: "cap \<le> length (filter scope (bkeys m))"
      and k: "find (\<lambda>k. scope k \<and> summary_finished m k) order = Some k" by auto
    then have step: "evict_summaries scope cap m order evicted
        = evict_summaries scope cap (bremove k m) (filter (\<lambda>k'. k' \<noteq> k) order) (evicted @ [k])"
      by (subst evict_summaries.simps) simp
    from k have found: "scope k" "summary_finished m k" "k \<in> set order" by (auto simp: find_Some_iff)
    from 1 [OF full k] obtain m' order' ks where
      rest: "evict_summaries scope cap (bremove k m) (filter (\<lambda>k'. k' \<noteq> k) order) (evicted @ [k]) = (m', order', (evicted @ [k]) @ ks)"
      and ev: "evicts_summaries scope (bremove k m) (filter (\<lambda>k'. k' \<noteq> k) order) ks m' order'"
      and fin: "length (filter scope (bkeys m')) < cap \<or> (\<forall>k \<in> set order'. scope k \<longrightarrow> \<not> summary_finished m' k)" by blast
    have "evicts_summaries scope m order (k # ks) m' order'"
      using ev found by (auto simp: evicts_summaries_def summary_finished_remove bmap_simps fun_eq_iff intro: filter_cong)
    with rest fin step show ?thesis by (intro exI [of _ m'] exI [of _ order'] exI [of _ "k # ks"]) simp
  qed
qed

definition summaries_ok :: "process_registry \<Rightarrow> bool" where
  "summaries_ok r \<longleftrightarrow> bwf (pg_summaries r) \<and> distinct (pg_summary_order r)
     \<and> set (pg_summary_order r) = set (bkeys (pg_summaries r))"

definition in_summary_project :: "process_control_key \<Rightarrow> process_control_key \<Rightarrow> bool" where
  "in_summary_project key k \<longleftrightarrow> fst k = fst key \<and> fst (snd k) = fst (snd key)"

lemma bkeys_set: "set (bkeys m) = {k. bget m k \<noteq> None}"
  by (auto simp: map_of_eq_None_iff)

lemma start_summary_spec:
  assumes ok: "summaries_ok r"
  obtains m order ks where
    "start_summary r key now =
      (r\<lparr>pg_next_summary_order := sat_add (pg_next_summary_order r) 1,
         pg_summaries := binsert key (fresh_summary now (pg_next_summary_order r)) m,
         pg_summary_order := order @ [key]\<rparr>, ks)"
    and "bwf m" and "bget m = (\<lambda>k. if k \<in> set ks then None else bget (pg_summaries r) k)"
    and "key \<notin> set ks" and "\<forall>k \<in> set ks. summary_finished (pg_summaries r) k"
    and "order = filter (\<lambda>k. k \<noteq> key \<and> k \<notin> set ks) (pg_summary_order r)"
    and "length (filter (in_summary_project key) (bkeys m)) < max_recent_process_summaries_per_project
       \<or> (\<forall>k \<in> set order. in_summary_project key k \<longrightarrow> \<not> summary_finished m k)"
proof -
  define order0 where "order0 = filter (\<lambda>k. k \<noteq> key) (pg_summary_order r)"
  obtain m1 order1 ks1 where
    e1: "evict_summaries (in_summary_project key) max_recent_process_summaries_per_project (pg_summaries r) order0 []
      = (m1, order1, [] @ ks1)"
    and s1: "evicts_summaries (in_summary_project key) (pg_summaries r) order0 ks1 m1 order1"
    and b1: "length (filter (in_summary_project key) (bkeys m1)) < max_recent_process_summaries_per_project
      \<or> (\<forall>k \<in> set order1. in_summary_project key k \<longrightarrow> \<not> summary_finished m1 k)"
    using evict_summaries_spec by blast
  obtain m2 order2 ks2 where
    e2: "evict_summaries (\<lambda>_. True) max_recent_process_summaries_total m1 order1 ks1 = (m2, order2, ks1 @ ks2)"
    and s2: "evicts_summaries (\<lambda>_. True) m1 order1 ks2 m2 order2"
    using evict_summaries_spec by blast
  have bwf1: "bwf m1" and bwf2: "bwf m2"
    using s1 s2 ok by (auto simp: evicts_summaries_def summaries_ok_def)
  have sub: "set (bkeys m2) \<subseteq> set (bkeys m1)"
    using s2 unfolding bkeys_set evicts_summaries_def by auto
  have "length (filter (in_summary_project key) (bkeys m2)) \<le> length (filter (in_summary_project key) (bkeys m1))"
    using sub by (simp only: distinct_length_filter [OF bwf_distinct [OF bwf1]] distinct_length_filter [OF bwf_distinct [OF bwf2]])
      (rule card_mono, auto)
  then have b2: "length (filter (in_summary_project key) (bkeys m2)) < max_recent_process_summaries_per_project
      \<or> (\<forall>k \<in> set order2. in_summary_project key k \<longrightarrow> \<not> summary_finished m2 k)"
    using b1 s2 by (auto simp: evicts_summaries_def summary_finished_def)
  have start: "start_summary r key now =
      (r\<lparr>pg_next_summary_order := sat_add (pg_next_summary_order r) 1,
         pg_summaries := binsert key (fresh_summary now (pg_next_summary_order r)) m2,
         pg_summary_order := order2 @ [key]\<rparr>, ks1 @ ks2)"
    using e1 e2 unfolding order0_def in_summary_project_def
    by (simp add: start_summary_def Let_def allocate_summary_order_def)
  have g1: "bget m1 k = (if k \<in> set ks1 then None else bget (pg_summaries r) k)" for k
    using s1 by (simp add: evicts_summaries_def)
  have g2: "bget m2 k = (if k \<in> set (ks1 @ ks2) then None else bget (pg_summaries r) k)" for k
    using s2 g1 by (simp add: evicts_summaries_def)
  have fin: "\<forall>k \<in> set (ks1 @ ks2). summary_finished (pg_summaries r) k"
    using s1 s2 g1 by (auto simp: evicts_summaries_def summary_finished_def split: if_splits)
  have order: "order2 = filter (\<lambda>k. k \<noteq> key \<and> k \<notin> set (ks1 @ ks2)) (pg_summary_order r)"
    using s1 s2 by (simp add: evicts_summaries_def order0_def conj_assoc)
  have key: "key \<notin> set (ks1 @ ks2)" using s1 s2 by (auto simp: evicts_summaries_def order0_def)
  have get: "bget m2 = (\<lambda>k. if k \<in> set (ks1 @ ks2) then None else bget (pg_summaries r) k)"
    by (rule ext) (rule g2)
  show thesis by (rule that [OF start bwf2 get key fin order b2])
qed

lemma ok_start_summary:
  assumes ok: "summaries_ok r"
  shows "summaries_ok (fst (start_summary r key now))"
proof -
  obtain m order ks where
    eq: "start_summary r key now =
      (r\<lparr>pg_next_summary_order := sat_add (pg_next_summary_order r) 1,
         pg_summaries := binsert key (fresh_summary now (pg_next_summary_order r)) m, pg_summary_order := order @ [key]\<rparr>, ks)"
    and m: "bwf m" "bget m = (\<lambda>k. if k \<in> set ks then None else bget (pg_summaries r) k)"
    and order: "order = filter (\<lambda>k. k \<noteq> key \<and> k \<notin> set ks) (pg_summary_order r)"
    by (rule start_summary_spec [OF ok])
  have "set (bkeys m) = set (bkeys (pg_summaries r)) - set ks" unfolding bkeys_set m(2) by auto
  with ok eq m order show ?thesis by (auto simp: summaries_ok_def fst_image_binsert)
qed

text \<open>The operations that change the registry.\<close>

inductive process_step :: "process_registry \<Rightarrow> process_registry \<Rightarrow> bool" where
  "process_step r (fst (process_request_cancel r key))"
| "process_step r (fst (process_request_abort r key))"
| "process_step r (clear_control r key)"
| "process_step r (record_scope r key limit)"
| "process_step r (fst (start_summary r key now))"
| "process_step r (finish_summary r key result nodes now)"
| "process_step r (fst (record_main_terminal r key td task state))"

lemma ok_finish_summary:
  assumes "summaries_ok r"
  shows "summaries_ok (finish_summary r key result nodes now)"
proof (cases "bcontains (pg_summaries r) key")
  case True
  with assms show ?thesis by (simp add: summaries_ok_def finish_summary_def del: set_map)
next
  case False
  then have "key \<notin> set (pg_summary_order r)" using assms by (simp add: summaries_ok_def bcontains_def)
  with False assms show ?thesis
    by (simp add: summaries_ok_def finish_summary_def allocate_summary_order_def set_keys_binsert Let_def del: set_map)
qed

lemma ok_process_step: "process_step r r' \<Longrightarrow> summaries_ok r \<Longrightarrow> summaries_ok r'"
  by (induction rule: process_step.induct)
    (simp_all add: ok_start_summary ok_finish_summary, simp_all add: summaries_ok_def process_request_cancel_def
      process_request_abort_def clear_control_def process_clear_cancel_def process_clear_abort_def record_scope_def
      record_main_terminal_def)

lemma ok_process_steps: "process_step\<^sup>*\<^sup>* r r' \<Longrightarrow> summaries_ok r \<Longrightarrow> summaries_ok r'"
  by (induction rule: rtranclp_induct) (auto dest: ok_process_step)

lemma ok_process_default: "summaries_ok process_registry_default"
  by (simp add: summaries_ok_def process_registry_default_def)

text \<open>
  C31. Starting a process gives up only summaries of finished processes, and reports exactly those it gave up:
  every other summary is untouched, the new one is fresh, and afterwards the project holds at most 32
  summaries unless all of the others are of running processes.
\<close>

theorem start_summary_keeps_running:
  assumes "process_step\<^sup>*\<^sup>* process_registry_default r"
  shows "case start_summary r key now of (r', evicted) \<Rightarrow>
      (\<forall>k. k \<noteq> key \<longrightarrow> bget (pg_summaries r') k = (if k \<in> set evicted then None else bget (pg_summaries r) k))
      \<and> (\<forall>k \<in> set evicted. summary_finished (pg_summaries r) k)
      \<and> bget (pg_summaries r') key = Some (fresh_summary now (pg_next_summary_order r))
      \<and> (length (filter (in_summary_project key) (bkeys (pg_summaries r'))) \<le> max_recent_process_summaries_per_project
         \<or> (\<forall>k. k \<noteq> key \<longrightarrow> in_summary_project key k \<longrightarrow> \<not> summary_finished (pg_summaries r') k))"
proof -
  have ok: "summaries_ok r" by (rule ok_process_steps [OF assms ok_process_default])
  obtain m order ks where
    eq: "start_summary r key now =
      (r\<lparr>pg_next_summary_order := sat_add (pg_next_summary_order r) 1,
         pg_summaries := binsert key (fresh_summary now (pg_next_summary_order r)) m, pg_summary_order := order @ [key]\<rparr>, ks)"
    and m: "bwf m" "bget m = (\<lambda>k. if k \<in> set ks then None else bget (pg_summaries r) k)"
    and ks: "key \<notin> set ks" "\<forall>k \<in> set ks. summary_finished (pg_summaries r) k"
    and order: "order = filter (\<lambda>k. k \<noteq> key \<and> k \<notin> set ks) (pg_summary_order r)"
    and room: "length (filter (in_summary_project key) (bkeys m)) < max_recent_process_summaries_per_project
       \<or> (\<forall>k \<in> set order. in_summary_project key k \<longrightarrow> \<not> summary_finished m k)"
    by (rule start_summary_spec [OF ok])
  define m' where "m' = binsert key (fresh_summary now (pg_next_summary_order r)) m"
  have get: "bget m' k = bget m k" and fin: "summary_finished m' k = summary_finished m k" if "k \<noteq> key" for k
    using that by (simp_all add: m'_def summary_finished_def bmap_simps)
  have others: "\<forall>k. k \<noteq> key \<longrightarrow> bget m' k = (if k \<in> set ks then None else bget (pg_summaries r) k)"
    using get m(2) by simp
  have new: "bget m' key = Some (fresh_summary now (pg_next_summary_order r))" by (simp add: m'_def bmap_simps)
  have le: "length (filter (in_summary_project key) (bkeys m')) \<le> Suc (length (filter (in_summary_project key) (bkeys m)))"
    using length_filter_binsert_le [of "\<lambda>e. in_summary_project key (fst e)" key
        "fresh_summary now (pg_next_summary_order r)" m]
    by (simp add: m'_def filter_map comp_def split: if_splits)
  have known: "k \<in> set order" if "k \<noteq> key" "summary_finished m' k" for k
  proof -
    from that fin have "bget m k \<noteq> None" by (auto simp: summary_finished_def split: option.splits)
    with m(2) have "k \<in> set (bkeys (pg_summaries r))" "k \<notin> set ks" unfolding bkeys_set by (auto split: if_splits)
    with ok that(1) order show ?thesis by (simp add: summaries_ok_def)
  qed
  have room': "length (filter (in_summary_project key) (bkeys m')) \<le> max_recent_process_summaries_per_project
      \<or> (\<forall>k. k \<noteq> key \<longrightarrow> in_summary_project key k \<longrightarrow> \<not> summary_finished m' k)"
    using room le known fin by (meson Suc_leI le_trans)
  have start: "pg_summaries (fst (start_summary r key now)) = m'" "snd (start_summary r key now) = ks"
    by (simp_all add: eq m'_def)
  show ?thesis unfolding case_prod_beta start using others ks(2) new room' by (intro conjI)
qed

theorem start_summary_keeps_running_witness:
  "case start_summary process_registry_default (''t'', ''p'', ''q'') 5 of (r', evicted) \<Rightarrow>
     evicted = [] \<and> bget (pg_summaries r') (''t'', ''p'', ''q'') = Some (fresh_summary 5 1)"
proof -
  have "snd (start_summary process_registry_default (''t'', ''p'', ''q'') 5) = []"
    and "pg_next_summary_order process_registry_default = 1" by code_simp+
  with start_summary_keeps_running [OF rtranclp.rtrancl_refl, of "(''t'', ''p'', ''q'')" 5] show ?thesis
    by (auto simp: case_prod_beta)
qed

section \<open>Paging through the summaries\<close>

lemma map_snd_sort_orders:
  "set (project_summaries r t p) = {e \<in> set (pg_summaries r). fst (fst e) = t \<and> fst (snd (fst e)) = p}"
  by (auto simp: project_summaries_def)

lemma page_as_filter:
  "summaries_page r t p before limit =
     (let stored = filter (\<lambda>e. case before of None \<Rightarrow> True | Some order \<Rightarrow> sm_order (snd e) < order) (project_summaries r t p)
      in (take limit stored, length stored > limit))"
  by (simp add: summaries_page_def project_summaries_def filter_sort conj_assoc Let_def)

lemma word_minus_le: "- 1 - a \<le> - 1 - b \<longleftrightarrow> (b :: u64) \<le> a"
proof -
  have "unat (- 1 - x :: u64) = 2 ^ 64 - 1 - unat x" for x
    using unat_u64_max by (simp add: unat_sub u64_max_def [symmetric])
  then show ?thesis using unat_lt_2_64 [of a] unat_lt_2_64 [of b] by (auto simp: word_le_nat_alt)
qed

lemma summaries_descending:
  assumes "distinct (map (\<lambda>e. sm_order (snd e)) (project_summaries r t p))"
  shows "sorted_wrt (\<lambda>a b. sm_order (snd a) > sm_order (snd b)) (project_summaries r t p)"
proof -
  let ?S = "project_summaries r t p"
  have "sorted (map (\<lambda>e. - 1 - sm_order (snd e)) ?S)" by (simp add: project_summaries_def)
  then have "sm_order (snd (?S ! j)) \<le> sm_order (snd (?S ! i))" if "i < j" "j < length ?S" for i j
    using that by (auto simp: sorted_iff_nth_mono word_minus_le dest!: spec [of _ i] spec [of _ j])
  moreover have "sm_order (snd (?S ! j)) \<noteq> sm_order (snd (?S ! i))" if "i < j" "j < length ?S" for i j
    using assms that by (auto simp: distinct_conv_nth dest!: spec [of _ i] spec [of _ j])
  ultimately show ?thesis by (force simp: sorted_wrt_iff_nth_less order_less_le)
qed

lemma filter_below_nth:
  assumes "sorted_wrt (\<lambda>a b. f a > (f b :: 'b :: linorder)) xs" and "i < length xs"
  shows "filter (\<lambda>e. f e < f (xs ! i)) xs = drop (Suc i) xs"
proof -
  have split: "xs = take (Suc i) xs @ drop (Suc i) xs" by simp
  have "\<not> f e < f (xs ! i)" if "e \<in> set (take (Suc i) xs)" for e
  proof -
    from that obtain j where "j \<le> i" "e = xs ! j" using assms(2) by (auto simp: in_set_conv_nth less_Suc_eq_le)
    then have "f (xs ! i) \<le> f e"
      using assms by (cases "j = i") (auto simp: sorted_wrt_iff_nth_less intro: less_imp_le)
    then show ?thesis by simp
  qed
  moreover have "f e < f (xs ! i)" if "e \<in> set (drop (Suc i) xs)" for e
  proof -
    from that obtain j where "j < length xs - Suc i" "e = xs ! (Suc i + j)" by (auto simp: in_set_conv_nth)
    then show ?thesis using assms by (auto simp: sorted_wrt_iff_nth_less)
  qed
  ultimately show ?thesis by (subst split) (simp add: filter_empty_conv filter_id_conv del: append_take_drop_id)
qed

text \<open>Until the counter saturates, every summary has an order of its own below the counter.\<close>

definition orders_ok :: "process_registry \<Rightarrow> bool" where
  "orders_ok r \<longleftrightarrow> pg_next_summary_order r \<noteq> u64_max \<longrightarrow>
     (\<forall>k s. bget (pg_summaries r) k = Some s \<longrightarrow> sm_order s < pg_next_summary_order r
        \<and> (\<forall>k' s'. bget (pg_summaries r) k' = Some s' \<longrightarrow> sm_order s' = sm_order s \<longrightarrow> k' = k))"

lemma orders_ok_insert:
  assumes ok: "orders_ok r" and sub: "\<And>k s. bget m k = Some s \<Longrightarrow> bget (pg_summaries r) k = Some s"
    and next': "pg_next_summary_order r' = sat_add (pg_next_summary_order r) 1"
    and m': "bget (pg_summaries r') = (bget m)(key \<mapsto> v)" and v: "sm_order v = pg_next_summary_order r"
  shows "orders_ok r'"
  unfolding orders_ok_def
proof (intro impI)
  assume "pg_next_summary_order r' \<noteq> u64_max"
  then have lt: "pg_next_summary_order r < pg_next_summary_order r'" and nm: "pg_next_summary_order r \<noteq> u64_max"
    using sat_add_one_less by (auto simp: next')
  have old: "sm_order s < pg_next_summary_order r" "bget m k' = Some s' \<Longrightarrow> sm_order s' = sm_order s \<Longrightarrow> k' = k"
    if "bget m k = Some s" for k s k' s'
    using ok nm sub [OF that] sub unfolding orders_ok_def by blast+
  have new: "(k = key \<and> s = v) \<or> (k \<noteq> key \<and> bget m k = Some s)" if "bget (pg_summaries r') k = Some s" for k s
    using that by (cases "k = key") (simp_all add: m')
  have below: "sm_order s < pg_next_summary_order r'" if "bget (pg_summaries r') k = Some s" for k s
    using new [OF that] old(1) lt v less_trans by metis
  have "k' = k" if "bget (pg_summaries r') k = Some s" "bget (pg_summaries r') k' = Some s'" "sm_order s' = sm_order s"
    for k s k' s'
    using new [OF that(1)] new [OF that(2)] that(3) old v by (metis less_irrefl)
  with below show "\<forall>k s. bget (pg_summaries r') k = Some s \<longrightarrow> sm_order s < pg_next_summary_order r'
      \<and> (\<forall>k' s'. bget (pg_summaries r') k' = Some s' \<longrightarrow> sm_order s' = sm_order s \<longrightarrow> k' = k)"
    by (intro allI impI conjI)
qed

lemma orders_ok_same:
  assumes "orders_ok r" and "pg_next_summary_order r' = pg_next_summary_order r"
    and "\<And>k. map_option sm_order (bget (pg_summaries r') k) = map_option sm_order (bget (pg_summaries r) k)"
  shows "orders_ok r'"
proof -
  have "\<exists>s0. bget (pg_summaries r) k = Some s0 \<and> sm_order s0 = sm_order s" if "bget (pg_summaries r') k = Some s" for k s
    using assms(3) [of k] that by (cases "bget (pg_summaries r) k") auto
  with assms(1,2) show ?thesis unfolding orders_ok_def by metis
qed

lemma orders_ok_finish: "orders_ok r \<Longrightarrow> orders_ok (finish_summary r key result nodes now)"
proof (cases "bcontains (pg_summaries r) key")
  case True
  assume "orders_ok r"
  then show ?thesis
    by (rule orders_ok_same) (use True in \<open>auto simp: finish_summary_def bmap_simps option.map_comp comp_def\<close>)
next
  case False
  assume "orders_ok r"
  then show ?thesis
    by (rule orders_ok_insert [where m = "pg_summaries r" and key = key
          and v = "(fresh_summary now (pg_next_summary_order r))\<lparr>sm_ended_at := Some now, sm_final_result := Some result,
            sm_connected_nodes := nodes\<rparr>"])
      (use False in \<open>auto simp: finish_summary_def allocate_summary_order_def Let_def bmap_simps fresh_summary_def fun_eq_iff\<close>)
qed

lemma orders_ok_start:
  assumes ok: "summaries_ok r" and ords: "orders_ok r"
  shows "orders_ok (fst (start_summary r key now))"
proof -
  obtain m order ks where
    eq: "start_summary r key now =
      (r\<lparr>pg_next_summary_order := sat_add (pg_next_summary_order r) 1,
         pg_summaries := binsert key (fresh_summary now (pg_next_summary_order r)) m, pg_summary_order := order @ [key]\<rparr>, ks)"
    and m: "bget m = (\<lambda>k. if k \<in> set ks then None else bget (pg_summaries r) k)"
    by (rule start_summary_spec [OF ok])
  show ?thesis
    by (rule orders_ok_insert [OF ords, where m = m]) (auto simp: eq m bmap_simps fresh_summary_def split: if_splits)
qed

lemma orders_ok_steps:
  assumes "process_step\<^sup>*\<^sup>* process_registry_default r"
  shows "summaries_ok r \<and> orders_ok r"
  using assms
proof (induction rule: rtranclp_induct)
  case base
  show ?case using ok_process_default by (simp add: orders_ok_def process_registry_default_def)
next
  case (step r r')
  from step(2) have "orders_ok r'"
  proof cases
    case (5 key now)
    with step(3) orders_ok_start show ?thesis by blast
  next
    case (6 key result nodes now)
    with step(3) orders_ok_finish show ?thesis by blast
  next
    case (7 key td task state)
    then show ?thesis using step(3)
      by (auto intro!: orders_ok_same [of r] simp: record_main_terminal_def bmap_simps option.map_comp comp_def)
  qed (use step(3) in \<open>auto simp: orders_ok_def process_request_cancel_def process_request_abort_def clear_control_def
      process_clear_cancel_def process_clear_abort_def record_scope_def simp del: split_paired_All\<close>)
  with step ok_process_step show ?case by blast
qed

lemma orders_distinct:
  assumes "summaries_ok r" and "orders_ok r" and "pg_next_summary_order r \<noteq> u64_max"
  shows "distinct (map (\<lambda>e. sm_order (snd e)) (project_summaries r t p))"
proof -
  have bwf: "bwf (pg_summaries r)" using assms(1) by (simp add: summaries_ok_def)
  have "inj_on (\<lambda>e. sm_order (snd e)) (set (pg_summaries r))"
  proof (rule inj_onI)
    fix e e' assume e: "e \<in> set (pg_summaries r)" "e' \<in> set (pg_summaries r)" "sm_order (snd e) = sm_order (snd e')"
    then have "bget (pg_summaries r) (fst e) = Some (snd e)" "bget (pg_summaries r) (fst e') = Some (snd e')"
      using in_bget_Some [OF bwf] by (metis prod.collapse)+
    with assms(2,3) e(3) have "fst e = fst e'" unfolding orders_ok_def by metis
    with \<open>bget (pg_summaries r) (fst e) = Some (snd e)\<close> \<open>bget (pg_summaries r) (fst e') = Some (snd e')\<close>
    show "e = e'" by (simp add: prod_eq_iff)
  qed
  moreover have "distinct (project_summaries r t p)"
    using bwf_distinct [OF bwf] by (simp add: project_summaries_def distinct_map)
  ultimately show ?thesis by (auto simp: distinct_map map_snd_sort_orders inj_on_def)
qed

text \<open>
  C32. The pages of a project's process summaries enumerate all of them, newest first, without gap or
  repetition: the first page starts the list, and the page before the order of the i-th summary continues
  right after it; each page tells truthfully whether more remain.
\<close>

theorem summaries_pages_complete:
  assumes "process_step\<^sup>*\<^sup>* process_registry_default r" and "pg_next_summary_order r \<noteq> u64_max"
  shows "summaries_page r t p None limit
      = (take limit (project_summaries r t p), length (project_summaries r t p) > limit)
    \<and> (\<forall>i < length (project_summaries r t p).
        summaries_page r t p (Some (sm_order (snd (project_summaries r t p ! i)))) limit
        = (take limit (drop (Suc i) (project_summaries r t p)),
           length (project_summaries r t p) - Suc i > limit))
    \<and> set (project_summaries r t p) = {e \<in> set (pg_summaries r). fst (fst e) = t \<and> fst (snd (fst e)) = p}"
proof -
  have "distinct (map (\<lambda>e. sm_order (snd e)) (project_summaries r t p))"
    using orders_ok_steps [OF assms(1)] orders_distinct assms(2) by blast
  from filter_below_nth [OF summaries_descending [OF this]] map_snd_sort_orders [of r t p] show ?thesis
    by (simp add: page_as_filter Let_def)
qed

theorem summaries_pages_complete_witness:
  "let r = finish_summary process_registry_default (''t'', ''p'', ''q'') PCompleted [] 9 in
     summaries_page r ''t'' ''p'' None 5 = (project_summaries r ''t'' ''p'', False) \<and> length (project_summaries r ''t'' ''p'') = 1"
proof -
  define r where "r = finish_summary process_registry_default (''t'', ''p'', ''q'') PCompleted [] 9"
  have "process_step process_registry_default r" unfolding r_def by (rule process_step.intros)
  then have "process_step\<^sup>*\<^sup>* process_registry_default r" by (rule r_into_rtranclp)
  moreover have "pg_next_summary_order r \<noteq> u64_max" and one: "length (project_summaries r ''t'' ''p'') = 1"
    unfolding r_def by code_simp+
  ultimately have "summaries_page r ''t'' ''p'' None 5 = (take 5 (project_summaries r ''t'' ''p''),
      length (project_summaries r ''t'' ''p'') > 5)"
    using summaries_pages_complete by blast
  with one show ?thesis unfolding r_def [symmetric] Let_def by simp
qed

end
