(* ===== verification/CF_Interchange.thy ===== *)
theory CF_Interchange
  imports CF_Transfer CF_Processes
begin

text \<open>
  The artifact interchange of the service (\<open>clusterflux-coordinator/src/service/interchange.rs\<close>) and the
  artifact requests of \<open>service/artifacts.rs\<close> that use it. The service state joins the coordinator and the
  node, artifact, transfer and process registries; the handlers are the composition of their operations.
  A request reads the clock once; random tokens are arguments, with the error their generator may return.
\<close>

section \<open>Configuration\<close>

record relay_config =
  rl_url :: string
  rl_access_token :: "string option"

datatype relay_configuration = RelayDisabled | RelayCustom "relay_config list"

record interchange_configuration =
  iv_deployment_mode :: deployment_mode
  iv_relay :: relay_configuration
  iv_artifact_relay_policy :: relay_policy
  iv_generation :: u64
  iv_endpoint_advertisement_ttl :: u64
  iv_transfer_lease_ttl :: u64
  iv_active_transfer_lease_ttl :: u64
  iv_no_progress_timeout :: u64
  iv_absolute_transfer_max :: "u64 option"
  iv_max_active_per_tenant :: nat
  iv_max_active_per_project :: nat
  iv_max_active_per_process :: nat
  iv_max_provider_leases_per_node :: nat
  iv_max_receiver_leases_per_node :: nat
  iv_max_creations_per_tenant_node_minute :: nat
  iv_max_partial_bytes_per_node_project :: u64
  iv_direct_path_deadline_ms :: u64
  iv_direct_path_grace_period_ms :: u64

definition interchange_configuration_default :: interchange_configuration where
  "interchange_configuration_default =
     \<lparr>iv_deployment_mode = SelfHosted, iv_relay = RelayDisabled, iv_artifact_relay_policy = DirectRequired,
      iv_generation = 1, iv_endpoint_advertisement_ttl = 60, iv_transfer_lease_ttl = 120,
      iv_active_transfer_lease_ttl = 600, iv_no_progress_timeout = 300, iv_absolute_transfer_max = None,
      iv_max_active_per_tenant = 128, iv_max_active_per_project = 64, iv_max_active_per_process = 32,
      iv_max_provider_leases_per_node = 64, iv_max_receiver_leases_per_node = 64,
      iv_max_creations_per_tenant_node_minute = 120,
      iv_max_partial_bytes_per_node_project = 64 * 1024 * 1024 * 1024,
      iv_direct_path_deadline_ms = 20000, iv_direct_path_grace_period_ms = 2000\<rparr>"

definition max_interchange_transfers :: nat where
  "max_interchange_transfers = 4096"

subsection \<open>Relay URLs\<close>

text \<open>\<open>str::split_once\<close> for a pattern that is not empty, \<open>ends_with\<close> and \<open>to_ascii_lowercase\<close>.\<close>

fun split_once :: "string \<Rightarrow> string \<Rightarrow> (string \<times> string) option" where
  "split_once pat [] = None"
| "split_once pat (c # cs) =
     (if take (length pat) (c # cs) = pat then Some ([], drop (length pat) (c # cs))
      else map_option (\<lambda>(a, b). (c # a, b)) (split_once pat cs))"

definition str_ends_with :: "string \<Rightarrow> string \<Rightarrow> bool" where
  "str_ends_with s t \<longleftrightarrow> length t \<le> length s \<and> drop (length s - length t) s = t"

definition ascii_lowercase :: "char \<Rightarrow> char" where
  "ascii_lowercase c = (let b = of_char c :: nat in if 65 \<le> b \<and> b \<le> 90 then char_of (b + 32) else c)"

definition url_host :: "string \<Rightarrow> string" where
  "url_host authority =
     map ascii_lowercase (rev (dropWhile (\<lambda>c. c = CHR ''.'') (rev
       (case authority of
          [] \<Rightarrow> []
        | c # bracketed \<Rightarrow>
          if c = CHR ''['' then takeWhile (\<lambda>c. c \<noteq> CHR '']'') bracketed
          else takeWhile (\<lambda>c. c \<noteq> CHR '':'') authority))))"

definition relay_url_is_forbidden_or_invalid :: "string \<Rightarrow> deployment_mode \<Rightarrow> bool" where
  "relay_url_is_forbidden_or_invalid value mode =
     (if CHR ''?'' \<in> set value \<or> CHR ''#'' \<in> set value then True
      else case split_once ''://'' value of
        None \<Rightarrow> True
      | Some (scheme, remainder) \<Rightarrow>
        if scheme \<notin> {''http'', ''https''} \<or> remainder = [] then True
        else let authority = takeWhile (\<lambda>c. c \<noteq> CHR ''/'') remainder in
          if authority = [] \<or> CHR ''@'' \<in> set authority then True
          else let host = url_host authority;
                   loopback = (host = ''localhost'' \<or> host = ''127.0.0.1'' \<or> host = ''::1'' \<or> take 4 host = ''127.'')
               in (scheme = ''http'' \<and> (mode = HostedPublic \<or> \<not> loopback))
                  \<or> (mode = HostedPublic \<and> scheme \<noteq> ''https'') \<or> host = []
                  \<or> list_ex (\<lambda>domain. host = domain \<or> str_ends_with host (CHR ''.'' # domain))
                      [''iroh.link'', ''iroh.computer'', ''n0.computer''])"

definition strip_trailing_slash :: "string \<Rightarrow> string option" where
  "strip_trailing_slash s = (if s \<noteq> [] \<and> last s = CHR ''/'' then Some (butlast s) else None)"

definition relay_urls_match :: "string \<Rightarrow> string \<Rightarrow> bool" where
  "relay_urls_match configured advertised \<longleftrightarrow>
     configured = advertised \<or> strip_trailing_slash configured = Some advertised
     \<or> strip_trailing_slash advertised = Some configured"

subsection \<open>Validation\<close>

definition configuration_bounds_ok :: "interchange_configuration \<Rightarrow> bool" where
  "configuration_bounds_ok c \<longleftrightarrow>
     \<not> (iv_generation c = 0
      \<or> iv_endpoint_advertisement_ttl c = 0 \<or> iv_endpoint_advertisement_ttl c > 10 * 60
      \<or> iv_transfer_lease_ttl c = 0 \<or> iv_transfer_lease_ttl c > 15 * 60
      \<or> iv_active_transfer_lease_ttl c = 0 \<or> iv_active_transfer_lease_ttl c > 24 * 60 * 60
      \<or> iv_no_progress_timeout c = 0 \<or> iv_no_progress_timeout c > 24 * 60 * 60
      \<or> iv_no_progress_timeout c < iv_active_transfer_lease_ttl c div 4
      \<or> (case iv_absolute_transfer_max c of
           None \<Rightarrow> False
         | Some maximum \<Rightarrow> maximum < iv_active_transfer_lease_ttl c \<or> maximum > 7 * 24 * 60 * 60)
      \<or> iv_max_active_per_tenant c = 0 \<or> iv_max_active_per_tenant c > max_interchange_transfers
      \<or> iv_max_active_per_project c = 0 \<or> iv_max_active_per_project c > max_interchange_transfers
      \<or> iv_max_active_per_process c = 0 \<or> iv_max_active_per_process c > max_interchange_transfers
      \<or> iv_max_provider_leases_per_node c = 0 \<or> iv_max_provider_leases_per_node c > max_interchange_transfers
      \<or> iv_max_receiver_leases_per_node c = 0 \<or> iv_max_receiver_leases_per_node c > max_interchange_transfers
      \<or> iv_max_creations_per_tenant_node_minute c = 0 \<or> iv_max_creations_per_tenant_node_minute c > 1000000
      \<or> iv_max_partial_bytes_per_node_project c = 0
      \<or> iv_max_partial_bytes_per_node_project c > 1024 * 1024 * 1024 * 1024
      \<or> iv_direct_path_deadline_ms c = 0 \<or> iv_direct_path_deadline_ms c > 10 * 60 * 1000
      \<or> iv_direct_path_grace_period_ms c > iv_direct_path_deadline_ms c)"

text \<open>The loop over the relays, with the set of URLs seen so far.\<close>

fun validate_relay_list :: "deployment_mode \<Rightarrow> string bset \<Rightarrow> relay_config list \<Rightarrow> string + unit" where
  "validate_relay_list mode urls [] = Inr ()"
| "validate_relay_list mode urls (relay # relays) =
     (if rl_url relay = [] \<or> length (rl_url relay) > max_relay_url_bytes
         \<or> relay_url_is_forbidden_or_invalid (rl_url relay) mode \<or> rl_url relay \<in> set urls
      then Inl ''artifact interchange relay URL is invalid or duplicated''
      else validate_relay_list mode (sinsert (rl_url relay) urls) relays)"

definition validate_configuration :: "interchange_configuration \<Rightarrow> string + unit" where
  "validate_configuration c =
     (if \<not> configuration_bounds_ok c
      then Inl ''artifact interchange policy contains an invalid generation or bound''
      else if iv_deployment_mode c = HostedPublic \<and> iv_artifact_relay_policy c \<noteq> DirectRequired
      then Inl ''hosted public artifact transfers must require direct paths''
      else if iv_deployment_mode c = HostedPublic \<and> iv_relay c = RelayDisabled
      then Inl ''hosted public NAT traversal requires a Clusterflux assist relay''
      else if iv_deployment_mode c = LocalOffline \<and> iv_relay c \<noteq> RelayDisabled
      then Inl ''local/offline artifact interchange must disable relays''
      else if iv_relay c = RelayDisabled \<and> iv_artifact_relay_policy c = RelayFallbackAllowed
      then Inl ''artifact relay fallback cannot be enabled without a configured relay''
      else case iv_relay c of
        RelayDisabled \<Rightarrow> Inr ()
      | RelayCustom relays \<Rightarrow>
        if relays = [] \<or> length relays > max_endpoint_relay_urls
        then Inl ''artifact interchange relay list is empty or too large''
        else validate_relay_list (iv_deployment_mode c) [] relays)"

record data_plane_policy =
  dq_relay :: relay_configuration
  dq_artifact_relay_policy :: relay_policy
  dq_generation :: u64
  dq_endpoint_advertisement_ttl :: u64
  dq_direct_path_deadline_ms :: u64
  dq_direct_path_grace_period_ms :: u64

definition node_policy :: "interchange_configuration \<Rightarrow> data_plane_policy" where
  "node_policy c =
     \<lparr>dq_relay = iv_relay c, dq_artifact_relay_policy = iv_artifact_relay_policy c, dq_generation = iv_generation c,
      dq_endpoint_advertisement_ttl = iv_endpoint_advertisement_ttl c,
      dq_direct_path_deadline_ms = iv_direct_path_deadline_ms c,
      dq_direct_path_grace_period_ms = iv_direct_path_grace_period_ms c\<rparr>"

definition lifetimes_of :: "interchange_configuration \<Rightarrow> transfer_lifetimes" where
  "lifetimes_of c = \<lparr>lt_active_ttl = iv_active_transfer_lease_ttl c, lt_ticket_ttl = iv_transfer_lease_ttl c,
     lt_absolute_max = iv_absolute_transfer_max c\<rparr>"

section \<open>The service\<close>

record interchange_service = node_service +
  is_artifacts :: artifact_registry
  is_interchange :: interchange_registry
  is_configuration :: interchange_configuration
  is_processes :: process_registry

datatype interchange_response =
    DataPlanePolicy data_plane_policy
  | AdvertisementAccepted string u64 u64
  | TransferAuthorization "transfer_authorization option" "transfer_record option"
  | ProviderAssignment "transfer_authorization option" "string list"
  | ReceiverAssignment "transfer_authorization option"
  | AssignmentAcknowledged string artifact_assignment_role artifact_assignment_state
  | ProgressAccepted transfer_record "transfer_authorization option"
  | ArtifactReleased artifact_id process_id bool "artifact_hold list"
  | ArtifactDownloadLink download_link
  | ArtifactDownloadLinkRevoked download_link
  | ArtifactExport bool "transfer_record option" node_id u64

text \<open>\<open>try_new\<close> of the identifier types, with the text of its error.\<close>

fun id_parse_reason :: "id_parse_error \<Rightarrow> string" where
  "id_parse_reason IdEmpty = ''value must not be empty or whitespace-only''"
| "id_parse_reason IdTooLong = ''value exceeds the 255-byte limit''"
| "id_parse_reason IdControl = ''control characters are forbidden''"
| "id_parse_reason IdCharacter =
     ''only ASCII letters, digits, '' @ [CHR 0x27, CHR ''-'', CHR 0x27] @ '', '' @ [CHR 0x27, CHR ''_'', CHR 0x27]
       @ '', '' @ [CHR 0x27, CHR ''.'', CHR 0x27] @ '', '' @ [CHR 0x27, CHR '':'', CHR 0x27]
       @ '', '' @ [CHR 0x27, CHR ''/'', CHR 0x27] @ '', '' @ [CHR 0x27, CHR ''@'', CHR 0x27]
       @ '', and '' @ [CHR 0x27, CHR ''+'', CHR 0x27] @ '' are allowed''"

definition parse_id :: "string \<Rightarrow> string \<Rightarrow> service_error + string" where
  "parse_id id_type value =
     (case validate_id value of
        Inl e \<Rightarrow> Inl (Protocol (id_type @ '' is invalid: '' @ id_parse_reason e))
      | Inr _ \<Rightarrow> Inr value)"

definition parse_node_scope :: "string \<Rightarrow> string \<Rightarrow> string \<Rightarrow> service_error + node_scope_key" where
  "parse_node_scope tenant project node =
     (case parse_id ''TenantId'' tenant of
        Inl e \<Rightarrow> Inl e
      | Inr t \<Rightarrow>
        (case parse_id ''ProjectId'' project of
           Inl e \<Rightarrow> Inl e
         | Inr p \<Rightarrow> (case parse_id ''NodeId'' node of Inl e \<Rightarrow> Inl e | Inr n \<Rightarrow> Inr (t, p, n))))"

definition authorize_interchange_node :: "'a interchange_service_scheme \<Rightarrow> node_scope_key \<Rightarrow> service_error + unit" where
  "authorize_interchange_node s scope =
     (case node_identity (ns_coordinator s) scope of
        None \<Rightarrow> Inl (CoordinatorFailed UnknownNode) | Some _ \<Rightarrow> Inr ())"

definition transfer_protocol_error :: "transfer_error_code \<Rightarrow> service_error" where
  "transfer_protocol_error code = Protocol (transfer_error_code_as_str code)"

definition active_advertisement ::
  "'a interchange_service_scheme \<Rightarrow> node_scope_key \<Rightarrow> u64 \<Rightarrow> service_error + iroh_endpoint_advertisement" where
  "active_advertisement s scope now =
     (case advertisement (ns_nodes s) scope of
        None \<Rightarrow> Inl (transfer_protocol_error EndpointAdvertisementMissing)
      | Some a \<Rightarrow> if ie_expires_at a > now then Inr a else Inl (transfer_protocol_error EndpointAdvertisementMissing))"

definition validate_advertised_relays ::
  "'a interchange_service_scheme \<Rightarrow> iroh_endpoint_advertisement \<Rightarrow> service_error + unit" where
  "validate_advertised_relays s a =
     (let allowed = (case iv_relay (is_configuration s) of RelayDisabled \<Rightarrow> [] | RelayCustom relays \<Rightarrow> map rl_url relays)
      in if list_ex (\<lambda>url. \<not> list_ex (\<lambda>allowed. relay_urls_match allowed url) allowed) (ie_relay_urls a)
         then Inl (CoordinatorFailed (Unauthorized ''Iroh endpoint advertised a relay outside coordinator policy''))
         else Inr ())"

text \<open>The loop that gives back the holds of ended transfers.\<close>

definition release_holds :: "artifact_registry \<Rightarrow> released_hold list \<Rightarrow> artifact_registry" where
  "release_holds a holds = fold (\<lambda>h a. fst (remove_hold a (fst h) (snd h))) holds a"

definition terminal_retention_seconds :: u64 where
  "terminal_retention_seconds = 10 * 60"

definition assignment_ack_recovery_seconds :: u64 where
  "assignment_ack_recovery_seconds = 5"

definition expire_interchange_state ::
  "'a interchange_service_scheme \<Rightarrow> u64 \<Rightarrow> 'a interchange_service_scheme" where
  "expire_interchange_state s now =
     (let s = s\<lparr>ns_nodes := expire_advertisements (ns_nodes s) now (ns_stale_after s)\<rparr>;
          c = is_configuration s;
          (r, holds) = expire_transfers (is_interchange s) now (iv_no_progress_timeout c)
             (iv_absolute_transfer_max c) terminal_retention_seconds
      in s\<lparr>is_interchange := r, is_artifacts := release_holds (is_artifacts s) holds\<rparr>)"

text \<open>\<open>parse_node_scope\<close>, \<open>authorize_interchange_node\<close> and \<open>expire_interchange_state\<close> open every handler.\<close>

definition open_request ::
  "'a interchange_service_scheme \<Rightarrow> string \<Rightarrow> string \<Rightarrow> string \<Rightarrow> u64
     \<Rightarrow> 'a interchange_service_scheme \<times> (service_error + node_scope_key)" where
  "open_request s tenant project node now =
     (case parse_node_scope tenant project node of
        Inl e \<Rightarrow> (s, Inl e)
      | Inr scope \<Rightarrow>
        (case authorize_interchange_node s scope of
           Inl e \<Rightarrow> (s, Inl e)
         | Inr _ \<Rightarrow> (expire_interchange_state s now, Inr scope)))"

subsection \<open>Policy and advertisements\<close>

definition configure_artifact_interchange ::
  "'a interchange_service_scheme \<Rightarrow> interchange_configuration \<Rightarrow> service_error + 'a interchange_service_scheme" where
  "configure_artifact_interchange s c =
     (case validate_configuration c of
        Inl e \<Rightarrow> Inl (Protocol e)
      | Inr _ \<Rightarrow>
        if iv_generation c \<le> iv_generation (is_configuration s)
        then Inl (Protocol ''artifact interchange policy generation must increase'')
        else Inr (s\<lparr>is_configuration := c, ns_nodes := clear_advertisements (ns_nodes s)\<rparr>))"

definition handle_get_artifact_data_plane_policy ::
  "'a interchange_service_scheme \<Rightarrow> string \<Rightarrow> string \<Rightarrow> string \<Rightarrow> service_error + interchange_response" where
  "handle_get_artifact_data_plane_policy s tenant project node =
     (case parse_node_scope tenant project node of
        Inl e \<Rightarrow> Inl e
      | Inr scope \<Rightarrow>
        (case authorize_interchange_node s scope of
           Inl e \<Rightarrow> Inl e | Inr _ \<Rightarrow> Inr (DataPlanePolicy (node_policy (is_configuration s)))))"

definition endpoint_advertisement_clock_skew_seconds :: u64 where
  "endpoint_advertisement_clock_skew_seconds = 5"

definition admit_advertisement ::
  "'a interchange_service_scheme \<Rightarrow> node_scope_key \<Rightarrow> iroh_endpoint_advertisement \<Rightarrow> u64 \<Rightarrow> service_error + unit" where
  "admit_advertisement s scope a now =
     (case validate_advertisement_bounds a of
        Inl e \<Rightarrow> Inl (Protocol e)
      | Inr _ \<Rightarrow>
        if (ie_tenant a, ie_project a, ie_node a) \<noteq> scope
        then Inl (CoordinatorFailed (Unauthorized ''Iroh endpoint advertisement is outside the signed node scope''))
        else if ie_relay_configuration_generation a \<noteq> iv_generation (is_configuration s)
        then Inl (Protocol ''Iroh endpoint advertisement uses a stale relay policy generation'')
        else let maximum = sat_add now (iv_endpoint_advertisement_ttl (is_configuration s)) in
          if ie_expires_at a \<le> now \<or> ie_expires_at a > sat_add maximum endpoint_advertisement_clock_skew_seconds
          then Inl (Protocol ''Iroh endpoint advertisement expiry is outside the coordinator policy'')
          else validate_advertised_relays s a)"

definition handle_report_iroh_endpoint_advertisement ::
  "'a interchange_service_scheme \<Rightarrow> string \<Rightarrow> string \<Rightarrow> string \<Rightarrow> iroh_endpoint_advertisement \<Rightarrow> u64
     \<Rightarrow> 'a interchange_service_scheme \<times> (service_error + interchange_response)" where
  "handle_report_iroh_endpoint_advertisement s tenant project node a now =
     (case open_request s tenant project node now of
        (s, Inl e) \<Rightarrow> (s, Inl e)
      | (s, Inr scope) \<Rightarrow>
        (case admit_advertisement s scope a now of
           Inl e \<Rightarrow> (s, Inl e)
         | Inr _ \<Rightarrow>
           (case register_advertisement (ns_nodes s) scope a of
              Inr r \<Rightarrow> (s\<lparr>ns_nodes := r\<rparr>, Inr (AdvertisementAccepted (ie_endpoint_id a) (ie_generation a) (ie_expires_at a)))
            | Inl BoundToAnotherScope \<Rightarrow>
                (s, Inl (CoordinatorFailed (Unauthorized ''Iroh EndpointId is already bound to another active node scope'')))
            | Inl IdentityChanged \<Rightarrow>
                (s, Inl (CoordinatorFailed (Unauthorized ''Iroh EndpointId changed without a node identity rotation'')))
            | Inl StaleGeneration \<Rightarrow> (s, Inl (Protocol ''Iroh endpoint advertisement generation is stale'')))))"

definition authorized_relay_endpoint_scope ::
  "'a interchange_service_scheme \<Rightarrow> string \<Rightarrow> u64 \<Rightarrow> 'a interchange_service_scheme \<times> node_scope_key option" where
  "authorized_relay_endpoint_scope s endpoint_id now =
     (let s = expire_interchange_state s now in
      case iv_relay (is_configuration s) of
        RelayDisabled \<Rightarrow> (s, None)
      | RelayCustom _ \<Rightarrow>
        (case endpoint_scope (ns_nodes s) endpoint_id of
           None \<Rightarrow> (s, None)
         | Some scope \<Rightarrow>
           let needed = list_ex (\<lambda>x. tt_expires_at (it_record x) \<ge> now \<and> transfer_matches_active_node x scope)
                 (bvalues (ix_transfers (is_interchange s)))
           in (s, if needed \<and> node_is_live s scope now \<and> node_identity (ns_coordinator s) scope \<noteq> None
                  then Some scope else None)))"

text \<open>\<open>max_by_key\<close> returns the last of the greatest elements.\<close>

fun last_max_by :: "('a \<Rightarrow> 'k::linorder) \<Rightarrow> 'a list \<Rightarrow> 'a option" where
  "last_max_by key [] = None"
| "last_max_by key (x # xs) =
     (case last_max_by key xs of None \<Rightarrow> Some x | Some y \<Rightarrow> Some (if key x > key y then x else y))"

definition artifact_connectivity_facts_of ::
  "'a interchange_service_scheme \<Rightarrow> node_scope_key \<Rightarrow> u64 \<Rightarrow> artifact_connectivity_facts" where
  "artifact_connectivity_facts_of s scope now =
     (let recent = last_max_by (\<lambda>x. tt_updated_at (it_record x))
            (filter (\<lambda>x. in_transfer_scope x scope) (bvalues (ix_transfers (is_interchange s))))
      in \<lparr>cf_endpoint_advertised = has_active_advertisement (ns_nodes s) scope now,
          cf_recent_path = (case recent of None \<Rightarrow> PathUnknown | Some x \<Rightarrow> tt_path_kind (it_record x)),
          cf_recent_direct_failure = (case recent of None \<Rightarrow> False
             | Some x \<Rightarrow> tt_failure_code (it_record x) = Some DirectPathTimeout),
          cf_relay_policy = iv_artifact_relay_policy (is_configuration s)\<rparr>)"

subsection \<open>Admission of a transfer\<close>

definition temporary_capacity :: "string \<Rightarrow> service_error" where
  "temporary_capacity scope = Protocol (transfer_error_code_as_str CapacityUnavailable @ '': '' @ scope
     @ '' is temporarily full; retry with backoff'')"

abbreviation all_transfers :: "'a interchange_service_scheme \<Rightarrow> interchange_transfer list" where
  "all_transfers s \<equiv> bvalues (ix_transfers (is_interchange s))"

definition count_live :: "(transfer_record \<Rightarrow> bool) \<Rightarrow> interchange_registry \<Rightarrow> nat" where
  "count_live p r = length (filter (\<lambda>x. transfer_live x \<and> p (it_record x)) (bvalues (ix_transfers r)))"

definition of_tenant :: "tenant_id \<Rightarrow> transfer_record \<Rightarrow> bool" where
  "of_tenant tenant r \<longleftrightarrow> tt_tenant r = tenant"

definition of_project :: "tenant_id \<Rightarrow> project_id \<Rightarrow> transfer_record \<Rightarrow> bool" where
  "of_project tenant project r \<longleftrightarrow> tt_tenant r = tenant \<and> tt_project r = project"

definition of_transfer_process :: "tenant_id \<Rightarrow> project_id \<Rightarrow> process_id \<Rightarrow> transfer_record \<Rightarrow> bool" where
  "of_transfer_process tenant project process r \<longleftrightarrow>
     tt_tenant r = tenant \<and> tt_project r = project \<and> tt_process r = process"

definition of_receiver :: "node_scope_key \<Rightarrow> transfer_record \<Rightarrow> bool" where
  "of_receiver scope r \<longleftrightarrow> (tt_tenant r, tt_project r, tt_destination_node r) = scope"

definition of_provider :: "node_scope_key \<Rightarrow> transfer_record \<Rightarrow> bool" where
  "of_provider scope r \<longleftrightarrow> (tt_tenant r, tt_project r, tt_source_node r) = scope"

definition partial_bytes :: "node_scope_key \<Rightarrow> interchange_registry \<Rightarrow> u64" where
  "partial_bytes scope r =
     foldl (\<lambda>total x. sat_add total (sat_sub (tt_total_bytes (it_record x)) (tt_bytes_completed (it_record x)))) 0
       (filter (\<lambda>x. transfer_live x \<and> of_receiver scope (it_record x)) (bvalues (ix_transfers r)))"

definition recent_creations :: "tenant_id \<Rightarrow> node_id \<Rightarrow> u64 \<Rightarrow> interchange_registry \<Rightarrow> nat" where
  "recent_creations tenant node now r =
     length (filter (\<lambda>x. tt_tenant (it_record x) = tenant \<and> tt_destination_node (it_record x) = node
        \<and> tt_created_at (it_record x) \<ge> sat_sub now 60) (bvalues (ix_transfers r)))"

definition enforce_interchange_admission ::
  "interchange_configuration \<Rightarrow> interchange_registry \<Rightarrow> process_id \<Rightarrow> node_scope_key \<Rightarrow> u64 \<Rightarrow> u64
     \<Rightarrow> service_error + unit" where
  "enforce_interchange_admission c r process scope requested now =
     (case scope of (tenant, project, node) \<Rightarrow>
        if count_live (of_tenant tenant) r \<ge> iv_max_active_per_tenant c
        then Inl (temporary_capacity ''tenant active-transfer capacity'')
        else if count_live (of_project tenant project) r \<ge> iv_max_active_per_project c
        then Inl (temporary_capacity ''project active-transfer capacity'')
        else if count_live (of_transfer_process tenant project process) r \<ge> iv_max_active_per_process c
        then Inl (temporary_capacity ''process active-transfer capacity'')
        else if count_live (of_receiver scope) r \<ge> iv_max_receiver_leases_per_node c
        then Inl (temporary_capacity ''receiver node lease capacity'')
        else if sat_add (partial_bytes scope r) requested > iv_max_partial_bytes_per_node_project c
        then Inl (temporary_capacity ''node/project partial-byte capacity'')
        else if recent_creations tenant node now r \<ge> iv_max_creations_per_tenant_node_minute c
        then Inl (temporary_capacity ''tenant/node transfer creation rate'')
        else Inr ())"

subsection \<open>Requesting a transfer\<close>

record requested_artifact =
  rq_process :: process_id
  rq_artifact :: artifact_id
  rq_metadata :: artifact_metadata

text \<open>The checks up to the offset, in the order of the handler.\<close>

definition admit_request ::
  "'a interchange_service_scheme \<Rightarrow> node_scope_key \<Rightarrow> string \<Rightarrow> string \<Rightarrow> u64 \<Rightarrow> u64 \<Rightarrow> service_error + requested_artifact" where
  "admit_request s scope process artifact offset now =
     (case scope of (tenant, project, node) \<Rightarrow>
        if \<not> node_is_live s scope now then Inl (transfer_protocol_error DestinationNodeOffline)
        else case parse_id ''ProcessId'' process of
          Inl e \<Rightarrow> Inl e
        | Inr process \<Rightarrow>
          (case parse_id ''ArtifactId'' artifact of
             Inl e \<Rightarrow> Inl e
           | Inr artifact \<Rightarrow>
             if process_is_cancelled (is_processes s) (tenant, project, process)
             then Inl (transfer_protocol_error TransferCancelled)
             else (case artifact_metadata_of (is_artifacts s) (tenant, project, artifact) of
                 None \<Rightarrow> Inl (transfer_protocol_error NoArtifactLocation)
               | Some m \<Rightarrow>
                 if mt_process m \<noteq> process
                 then Inl (CoordinatorFailed (Unauthorized ''artifact transfer process does not own the requested artifact''))
                 else if holds_of (is_artifacts s) (tenant, project, artifact) = []
                 then Inl (Protocol ''artifact_released'')
                 else if offset > mt_size m then Inl (transfer_protocol_error RangeInvalid)
                 else Inr \<lparr>rq_process = process, rq_artifact = artifact, rq_metadata = m\<rparr>)))"

definition local_record :: "node_scope_key \<Rightarrow> requested_artifact \<Rightarrow> string \<Rightarrow> u64 \<Rightarrow> transfer_record" where
  "local_record scope q transfer_id now =
     (case scope of (tenant, project, node) \<Rightarrow>
        \<lparr>tt_transfer_id = transfer_id, tt_tenant = tenant, tt_project = project, tt_process = rq_process q,
         tt_artifact = rq_artifact q, tt_source_node = node, tt_destination_node = node,
         tt_bytes_completed = mt_size (rq_metadata q), tt_path_kind = PathLocal, tt_state = Completed,
         tt_created_at = now, tt_updated_at = now, tt_expires_at = now, tt_stream_ticket_expires_at = now,
         tt_last_progress_at = now, tt_total_bytes = mt_size (rq_metadata q), tt_phase = CompletePhase,
         tt_failure_code = None, tt_attempt_count = 0\<rparr>)"

definition previous_attempts :: "interchange_registry \<Rightarrow> node_scope_key \<Rightarrow> requested_artifact \<Rightarrow> interchange_transfer list" where
  "previous_attempts r scope q =
     filter (\<lambda>x. of_receiver scope (it_record x) \<and> tt_process (it_record x) = rq_process q
        \<and> tt_artifact (it_record x) = rq_artifact q) (bvalues (ix_transfers r))"

definition attempted_sources :: "interchange_transfer list \<Rightarrow> node_id bset" where
  "attempted_sources attempts =
     sextend (map (\<lambda>x. tt_source_node (it_record x))
       (filter (\<lambda>x. \<not> transfer_live x
          \<and> (case tt_failure_code (it_record x) of None \<Rightarrow> False
             | Some code \<Rightarrow> retry_class code \<in> {TryAnotherSource, PermanentSourceInvalidation})) attempts)) []"

definition next_attempt :: "interchange_transfer list \<Rightarrow> u32" where
  "next_attempt attempts =
     (let n = fold max (map (\<lambda>x. tt_attempt_count (it_record x)) attempts) 0 in if n = - 1 then n else n + 1)"

definition select_source ::
  "'a interchange_service_scheme \<Rightarrow> node_scope_key \<Rightarrow> requested_artifact \<Rightarrow> u64 \<Rightarrow> node_scope_key option" where
  "select_source s scope q now =
     (case scope of (tenant, project, node) \<Rightarrow>
        find (\<lambda>scope. node_is_live s scope now \<and> has_active_advertisement (ns_nodes s) scope now)
          (map (\<lambda>source. (tenant, project, source))
            (filter (\<lambda>source. source \<notin> set (attempted_sources (previous_attempts (is_interchange s) scope q)))
              (filter (\<lambda>source. source \<noteq> node) (mt_retaining_nodes (rq_metadata q))))))"

definition authorized_peer :: "iroh_endpoint_advertisement \<Rightarrow> authorized_peer_endpoint" where
  "authorized_peer a = \<lparr>pe_node = ie_node a, pe_endpoint_id = ie_endpoint_id a, pe_generation = ie_generation a,
     pe_direct_addresses = ie_direct_addresses a, pe_relay_urls = ie_relay_urls a\<rparr>"

record transfer_tokens =
  tk_transfer_id :: string
  tk_nonce :: string
  tk_secret :: string

definition new_lease ::
  "interchange_configuration \<Rightarrow> node_scope_key \<Rightarrow> requested_artifact \<Rightarrow> iroh_endpoint_advertisement
     \<Rightarrow> node_id \<Rightarrow> iroh_endpoint_advertisement \<Rightarrow> u64 \<Rightarrow> transfer_tokens \<Rightarrow> u64 \<Rightarrow> transfer_lease" where
  "new_lease c scope q destination_ad source source_ad offset tk now =
     (case scope of (tenant, project, node) \<Rightarrow>
        \<lparr>tl_transfer_id = tk_transfer_id tk, tl_tenant = tenant, tl_project = project, tl_process = rq_process q,
         tl_artifact = rq_artifact q, tl_digest = mt_digest (rq_metadata q), tl_size_bytes = mt_size (rq_metadata q),
         tl_source_node = source, tl_source_endpoint_id = ie_endpoint_id source_ad,
         tl_destination_node = node, tl_destination_endpoint_id = ie_endpoint_id destination_ad,
         tl_allowed_offset = offset, tl_maximum_bytes = sat_sub (mt_size (rq_metadata q)) offset,
         tl_relay_policy = iv_artifact_relay_policy c, tl_direct_path_deadline_ms = iv_direct_path_deadline_ms c,
         tl_expires_at = sat_add now (iv_transfer_lease_ttl c),
         tl_active_lease_expires_at = sat_add now (iv_active_transfer_lease_ttl c), tl_nonce = tk_nonce tk\<rparr>)"

definition new_transfer ::
  "transfer_lease \<Rightarrow> transfer_tokens \<Rightarrow> iroh_endpoint_advertisement \<Rightarrow> iroh_endpoint_advertisement \<Rightarrow> u32 \<Rightarrow> u64
     \<Rightarrow> interchange_transfer" where
  "new_transfer l tk destination_ad source_ad attempt now =
     \<lparr>it_record =
        \<lparr>tt_transfer_id = tl_transfer_id l, tt_tenant = tl_tenant l, tt_project = tl_project l,
         tt_process = tl_process l, tt_artifact = tl_artifact l, tt_source_node = tl_source_node l,
         tt_destination_node = tl_destination_node l, tt_bytes_completed = tl_allowed_offset l,
         tt_path_kind = PathUnknown, tt_state = SourceSelected, tt_created_at = now, tt_updated_at = now,
         tt_expires_at = tl_active_lease_expires_at l, tt_stream_ticket_expires_at = tl_expires_at l,
         tt_last_progress_at = now, tt_total_bytes = tl_size_bytes l, tt_phase = QueuedPhase,
         tt_failure_code = None, tt_attempt_count = attempt\<rparr>,
      it_destination_authorization = \<lparr>xa_lease = l, xa_transfer_secret = tk_secret tk, xa_peer = authorized_peer source_ad\<rparr>,
      it_provider_authorization = \<lparr>xa_lease = l, xa_transfer_secret = tk_secret tk, xa_peer = authorized_peer destination_ad\<rparr>,
      it_destination_assignment = AOffered, it_provider_assignment = AOffered,
      it_destination_acknowledged_at = None, it_provider_acknowledged_at = None, it_metered_body_bytes = 0\<rparr>"

text \<open>The choice of a source and its capacity, up to the point where the tokens are drawn.\<close>

definition choose_provider ::
  "'a interchange_service_scheme \<Rightarrow> node_scope_key \<Rightarrow> requested_artifact \<Rightarrow> u64 \<Rightarrow> u64
     \<Rightarrow> service_error + (node_id \<times> iroh_endpoint_advertisement)" where
  "choose_provider s scope q offset now =
     (case enforce_interchange_admission (is_configuration s) (is_interchange s) (rq_process q) scope
             (sat_sub (mt_size (rq_metadata q)) offset) now of
        Inl e \<Rightarrow> Inl e
      | Inr _ \<Rightarrow>
        (case select_source s scope q now of
           None \<Rightarrow> Inl (transfer_protocol_error EndpointAdvertisementMissing)
         | Some source \<Rightarrow>
           if count_live (of_provider source) (is_interchange s) \<ge> iv_max_provider_leases_per_node (is_configuration s)
           then Inl (temporary_capacity ''provider node lease capacity'')
           else (case active_advertisement s source now of
               Inl e \<Rightarrow> Inl e | Inr a \<Rightarrow> Inr (snd (snd source), a))))"

text \<open>The request after its opening: a local copy, a renewed transfer, or a new one with its hold.\<close>

definition start_transfer ::
  "'a interchange_service_scheme \<Rightarrow> interchange_transfer \<Rightarrow> u64
     \<Rightarrow> 'a interchange_service_scheme \<times> (service_error + interchange_response)" where
  "start_transfer s x now =
     (case create_transfer (is_interchange s) (tt_transfer_id (it_record x)) x max_interchange_transfers of
        (r, created) \<Rightarrow>
          if \<not> created then (s\<lparr>is_interchange := r\<rparr>, Inl (transfer_protocol_error CapacityUnavailable))
          else (s\<lparr>is_interchange := r,
                  is_artifacts := fst (add_hold (is_artifacts s) (fst (active_hold x)) (snd (active_hold x)) now)\<rparr>,
                Inr (TransferAuthorization (Some (it_destination_authorization x)) (Some (it_record x)))))"

definition serve_request ::
  "'a interchange_service_scheme \<Rightarrow> node_scope_key \<Rightarrow> string \<Rightarrow> string \<Rightarrow> u64 \<Rightarrow> u64
     \<Rightarrow> (service_error + string) \<Rightarrow> (service_error + transfer_tokens)
     \<Rightarrow> 'a interchange_service_scheme \<times> (service_error + interchange_response)" where
  "serve_request s scope process artifact offset now local_token tokens =
     (case admit_request s scope process artifact offset now of
        Inl e \<Rightarrow> (s, Inl e)
      | Inr q \<Rightarrow>
        if snd (snd scope) \<in> set (mt_retaining_nodes (rq_metadata q))
        then (s, case local_token of
            Inl e \<Rightarrow> Inl e
          | Inr token \<Rightarrow> Inr (TransferAuthorization None (Some (local_record scope q token now))))
        else (case active_advertisement s scope now of
            Inl e \<Rightarrow> (s, Inl e)
          | Inr destination_ad \<Rightarrow>
            (case renew (is_interchange s) (fst scope) (fst (snd scope)) (rq_process q) (rq_artifact q)
                    (snd (snd scope)) now (lifetimes_of (is_configuration s)) of
               (r, Some (authorization, record)) \<Rightarrow>
                 (s\<lparr>is_interchange := r\<rparr>, Inr (TransferAuthorization (Some authorization) (Some record)))
             | (r, None) \<Rightarrow>
               (case choose_provider s scope q offset now of
                  Inl e \<Rightarrow> (s, Inl e)
                | Inr (source, source_ad) \<Rightarrow>
                  (case tokens of
                     Inl e \<Rightarrow> (s, Inl e)
                   | Inr tk \<Rightarrow>
                     start_transfer s
                       (new_transfer (new_lease (is_configuration s) scope q destination_ad source source_ad offset tk now)
                          tk destination_ad source_ad (next_attempt (previous_attempts (is_interchange s) scope q)) now)
                       now)))))"

definition handle_request_artifact_interchange ::
  "'a interchange_service_scheme \<Rightarrow> string \<Rightarrow> string \<Rightarrow> string \<Rightarrow> string \<Rightarrow> string \<Rightarrow> u64 \<Rightarrow> u64
     \<Rightarrow> (service_error + string) \<Rightarrow> (service_error + transfer_tokens)
     \<Rightarrow> 'a interchange_service_scheme \<times> (service_error + interchange_response)" where
  "handle_request_artifact_interchange s tenant project process node artifact offset now local_token tokens =
     (case open_request s tenant project node now of
        (s, Inl e) \<Rightarrow> (s, Inl e)
      | (s, Inr scope) \<Rightarrow> serve_request s scope process artifact offset now local_token tokens)"

subsection \<open>Polls, acknowledgements and reports\<close>

definition handle_poll_artifact_provider_assignment ::
  "'a interchange_service_scheme \<Rightarrow> string \<Rightarrow> string \<Rightarrow> string \<Rightarrow> u64
     \<Rightarrow> 'a interchange_service_scheme \<times> (service_error + interchange_response)" where
  "handle_poll_artifact_provider_assignment s tenant project node now =
     (case open_request s tenant project node now of
        (s, Inl e) \<Rightarrow> (s, Inl e)
      | (s, Inr scope) \<Rightarrow>
        (case poll_provider_assignment (is_interchange s) scope now assignment_ack_recovery_seconds of
           (r, retired_ids, authorization) \<Rightarrow> (s\<lparr>is_interchange := r\<rparr>, Inr (ProviderAssignment authorization retired_ids))))"

definition handle_poll_artifact_receiver_assignment ::
  "'a interchange_service_scheme \<Rightarrow> string \<Rightarrow> string \<Rightarrow> string \<Rightarrow> u64
     \<Rightarrow> 'a interchange_service_scheme \<times> (service_error + interchange_response)" where
  "handle_poll_artifact_receiver_assignment s tenant project node now =
     (case open_request s tenant project node now of
        (s, Inl e) \<Rightarrow> (s, Inl e)
      | (s, Inr scope) \<Rightarrow>
        (case poll_receiver_assignment (is_interchange s) scope now assignment_ack_recovery_seconds of
           (r, authorization) \<Rightarrow> (s\<lparr>is_interchange := r\<rparr>, Inr (ReceiverAssignment authorization))))"

definition handle_acknowledge_artifact_assignment ::
  "'a interchange_service_scheme \<Rightarrow> string \<Rightarrow> string \<Rightarrow> string \<Rightarrow> string \<Rightarrow> artifact_assignment_role \<Rightarrow> u64
     \<Rightarrow> 'a interchange_service_scheme \<times> (service_error + interchange_response)" where
  "handle_acknowledge_artifact_assignment s tenant project node transfer_id role now =
     (case open_request s tenant project node now of
        (s, Inl e) \<Rightarrow> (s, Inl e)
      | (s, Inr scope) \<Rightarrow>
        (case acknowledge_assignment (is_interchange s) scope transfer_id role now of
           Inr (r, state) \<Rightarrow> (s\<lparr>is_interchange := r\<rparr>, Inr (AssignmentAcknowledged transfer_id role state))
         | Inl UnknownTransfer \<Rightarrow> (s, Inl (Protocol ''unknown artifact transfer''))
         | Inl OutsideScope \<Rightarrow> (s, Inl (CoordinatorFailed (Unauthorized
               ''artifact assignment acknowledgement is outside the signed node scope'')))
         | Inl RoleMismatch \<Rightarrow> (s, Inl (CoordinatorFailed (Unauthorized
               ''artifact assignment role does not match the signed node'')))))"

definition handle_report_artifact_interchange ::
  "'a interchange_service_scheme \<Rightarrow> string \<Rightarrow> string \<Rightarrow> string \<Rightarrow> string \<Rightarrow> transfer_report \<Rightarrow> u64
     \<Rightarrow> 'a interchange_service_scheme \<times> (service_error + interchange_response)" where
  "handle_report_artifact_interchange s tenant project node transfer_id rp now =
     (case open_request s tenant project node now of
        (s, Inl e) \<Rightarrow> (s, Inl e)
      | (s, Inr scope) \<Rightarrow>
        (case report_progress apply_artifact_effect (is_interchange s) (is_artifacts s) scope transfer_id rp now
                (lifetimes_of (is_configuration s)) of
           (r, a, Inl e) \<Rightarrow> (s\<lparr>is_interchange := r, is_artifacts := a\<rparr>, Inl e)
         | (r, a, Inr progress) \<Rightarrow>
           (s\<lparr>is_interchange := r,
              is_artifacts := (case ip_terminal_hold progress of None \<Rightarrow> a | Some h \<Rightarrow> fst (remove_hold a (fst h) (snd h)))\<rparr>,
            Inr (ProgressAccepted (ip_record progress) (ip_authorization progress)))))"

definition cancel_artifact_interchanges_for_process ::
  "'a interchange_service_scheme \<Rightarrow> tenant_id \<Rightarrow> project_id \<Rightarrow> process_id \<Rightarrow> u64 \<Rightarrow> 'a interchange_service_scheme \<times> nat" where
  "cancel_artifact_interchanges_for_process s tenant project process now =
     (case cancel_process (is_interchange s) tenant project process now of
        (r, cancelled, holds) \<Rightarrow>
          (s\<lparr>is_interchange := r, is_artifacts := release_holds (is_artifacts s) holds\<rparr>, cancelled))"

text \<open>The transfers of a node that is drained hard (\<open>apply_hard_drain_policy\<close>), and of one whose credential is revoked.\<close>

definition hard_drain_transfers :: "'a interchange_service_scheme \<Rightarrow> node_scope_key \<Rightarrow> u64 \<Rightarrow> 'a interchange_service_scheme" where
  "hard_drain_transfers s scope now =
     (case cancel_node_for_hard_drain (is_interchange s) scope now of
        (r, released) \<Rightarrow>
          s\<lparr>is_interchange := r,
            is_artifacts := release_holds (is_artifacts s)
              (map (\<lambda>(artifact, transfer_id). ((fst scope, fst (snd scope), artifact), ActiveTransfer transfer_id)) released)\<rparr>)"

definition revoke_node_transfers :: "'a interchange_service_scheme \<Rightarrow> node_scope_key \<Rightarrow> u64 \<Rightarrow> 'a interchange_service_scheme" where
  "revoke_node_transfers s scope now =
     (case scope of (tenant, project, node) \<Rightarrow>
        s\<lparr>ns_nodes := fst (remove_node (ns_nodes s) scope), is_interchange := fail_node (is_interchange s) scope now,
          is_artifacts := garbage_collect_node (is_artifacts s) tenant project node\<rparr>)"

section \<open>Artifact requests\<close>

definition release_process_artifact_hold ::
  "'a interchange_service_scheme \<Rightarrow> tenant_id \<Rightarrow> project_id \<Rightarrow> process_id \<Rightarrow> artifact_handle
     \<Rightarrow> 'a interchange_service_scheme \<times> (service_error + interchange_response)" where
  "release_process_artifact_hold s tenant project process h =
     (case artifact_metadata_of (is_artifacts s) (tenant, project, ah_id h) of
        None \<Rightarrow> (s, Inl (Download NotFound))
      | Some m \<Rightarrow>
        if mt_process m \<noteq> process \<or> mt_digest m \<noteq> ah_digest h \<or> mt_size m \<noteq> ah_size_bytes h
        then (s, Inl (Protocol ''artifact release handle does not match scoped coordinator metadata''))
        else (case release_process_hold (is_artifacts s) tenant project process (ah_id h) of
            (a, removed) \<Rightarrow>
              (s\<lparr>is_artifacts := a\<rparr>,
               Inr (ArtifactReleased (ah_id h) process removed (holds_of a (tenant, project, ah_id h))))))"

definition ensure_download_source_connectivity ::
  "'a interchange_service_scheme \<Rightarrow> tenant_id \<Rightarrow> project_id \<Rightarrow> storage_location \<Rightarrow> u64 \<Rightarrow> download_error + unit" where
  "ensure_download_source_connectivity s tenant project source now =
     (case source of
        ExplicitStore _ \<Rightarrow> Inr ()
      | RetainedNode node \<Rightarrow>
        if \<not> bcontains (nr_descriptors (ns_nodes s)) (tenant, project, node)
        then Inl (DirectConnectivityUnavailable (''retaining node '' @ node
               @ '' has not reported online status for artifact download''))
        else if \<not> node_is_live s (tenant, project, node) now
        then Inl (DirectConnectivityUnavailable (''retaining node '' @ node @ '' is offline for artifact download''))
        else Inr ())"

text \<open>\<open>None\<close> is the panic of \<open>bounded_ttl\<close> when the configured maximum is zero.\<close>

definition handle_create_artifact_download_link ::
  "sha256_fn \<Rightarrow> 'a interchange_service_scheme \<Rightarrow> u64 \<Rightarrow> tenant_id \<Rightarrow> project_id \<Rightarrow> user_id \<Rightarrow> artifact_id \<Rightarrow> u64 \<Rightarrow> u64 \<Rightarrow> u64
     \<Rightarrow> (service_error + string) \<Rightarrow> ('a interchange_service_scheme \<times> (service_error + interchange_response)) option" where
  "handle_create_artifact_download_link H s max_ttl tenant project user artifact max_bytes ttl now token =
     (let ctx = \<lparr>ac_tenant = tenant, ac_project = project, ac_actor = User user\<rparr>; policy = \<lparr>dp_max_bytes = max_bytes\<rparr> in
      case download_action_for (is_artifacts s) ctx artifact policy of
        Inl e \<Rightarrow> Some (s, Inl (Download e))
      | Inr action \<Rightarrow>
        (case ensure_download_source_connectivity s tenant project (dn_source action) now of
           Inl e \<Rightarrow> Some (s, Inl (Download e))
         | Inr _ \<Rightarrow>
           (case downloadable_size (is_artifacts s) ctx artifact policy of
              Inl e \<Rightarrow> Some (s, Inl (Download e))
            | Inr _ \<Rightarrow>
              (case token of
                 Inl e \<Rightarrow> Some (s, Inl e)
               | Inr nonce \<Rightarrow>
                 map_option (\<lambda>ttl.
                   case create_download_link H (is_artifacts s) ctx artifact policy nonce now ttl of
                     (a, res) \<Rightarrow>
                       (s\<lparr>is_artifacts := a\<rparr>,
                        map_sum Download ArtifactDownloadLink res))
                   (bounded_ttl ttl max_ttl)))))"

definition handle_revoke_artifact_download_link ::
  "'a interchange_service_scheme \<Rightarrow> tenant_id \<Rightarrow> project_id \<Rightarrow> user_id \<Rightarrow> artifact_id \<Rightarrow> digest \<Rightarrow> u64
     \<Rightarrow> 'a interchange_service_scheme \<times> (service_error + interchange_response)" where
  "handle_revoke_artifact_download_link s tenant project user artifact token_digest now =
     (let ctx = \<lparr>ac_tenant = tenant, ac_project = project, ac_actor = User user\<rparr> in
      case revoke_download_link (expire_download_links (is_artifacts s) now) ctx artifact token_digest of
        (a, res) \<Rightarrow>
          (s\<lparr>is_artifacts := a\<rparr>,
           map_sum Download ArtifactDownloadLinkRevoked res))"

text \<open>The label of the bridging hold is a random token. A transfer request answers only with an authorization
  (\<open>request_answers\<close> below), so the branch \<open>Inr other\<close>, unreachable in the code, is never taken.\<close>

definition handle_export_artifact_to_node ::
  "'a interchange_service_scheme \<Rightarrow> tenant_id \<Rightarrow> project_id \<Rightarrow> user_id \<Rightarrow> artifact_id \<Rightarrow> node_id \<Rightarrow> u64
     \<Rightarrow> (service_error + string) \<Rightarrow> (service_error + string) \<Rightarrow> (service_error + transfer_tokens)
     \<Rightarrow> 'a interchange_service_scheme \<times> (service_error + interchange_response)" where
  "handle_export_artifact_to_node s tenant project user artifact receiver now label local_token tokens =
     (let ctx = \<lparr>ac_tenant = tenant, ac_project = project, ac_actor = User user\<rparr>; key = (tenant, project, artifact) in
      case download_action_for (is_artifacts s) ctx artifact \<lparr>dp_max_bytes = u64_max\<rparr> of
        Inl e \<Rightarrow> (s, Inl (Download e))
      | Inr action \<Rightarrow>
        (case dn_source action of
           ExplicitStore _ \<Rightarrow> (s, Inl (Download Unavailable))
         | RetainedNode _ \<Rightarrow>
           (case artifact_metadata_of (is_artifacts s) key of
              None \<Rightarrow> (s, Inl (Download NotFound))
            | Some m \<Rightarrow>
              if receiver \<in> set (mt_retaining_nodes m) then (s, Inr (ArtifactExport True None receiver (mt_size m)))
              else (case label of
                  Inl e \<Rightarrow> (s, Inl e)
                | Inr label \<Rightarrow>
                  (case add_hold (is_artifacts s) key (ExplicitRetention label) now of
                     (a, None) \<Rightarrow> (s\<lparr>is_artifacts := a\<rparr>, Inl (Download Unavailable))
                   | (a, Some _) \<Rightarrow>
                     (case handle_request_artifact_interchange (s\<lparr>is_artifacts := a\<rparr>) tenant project (mt_process m)
                             receiver artifact 0 now local_token tokens of
                        (s, response) \<Rightarrow>
                          (s\<lparr>is_artifacts := fst (remove_hold (is_artifacts s) key (ExplicitRetention label))\<rparr>,
                           case response of
                             Inr (TransferAuthorization _ transfer) \<Rightarrow>
                               Inr (ArtifactExport (transfer = None) transfer receiver (mt_size m))
                           | Inr other \<Rightarrow> Inr other
                           | Inl e \<Rightarrow> Inl e)))))))"

section \<open>Revoking a node\<close>

text \<open>
  \<open>handle_revoke_node_credential\<close> over the service and the task registry. It answers whether the node had a
  descriptor, and how many queued assignments were dropped.
\<close>

definition handle_revoke_node_credential ::
  "interchange_service \<Rightarrow> 'x task_registry \<Rightarrow> tenant_id \<Rightarrow> project_id \<Rightarrow> user_id \<Rightarrow> node_id \<Rightarrow> u64
     \<Rightarrow> (interchange_service \<times> 'x task_registry) \<times> (service_error + bool \<times> nat)" where
  "handle_revoke_node_credential s tasks tenant project actor node now =
     (case revoke_node s \<lparr>ac_tenant = tenant, ac_project = project, ac_actor = User actor\<rparr> node of
        Inl e \<Rightarrow> ((s, tasks), Inl (CoordinatorFailed e))
      | Inr (s, descriptor_removed) \<Rightarrow>
        let scope = (tenant, project, node);
            s = s\<lparr>is_interchange := fail_node (is_interchange s) scope now,
                  is_artifacts := garbage_collect_node (is_artifacts s) tenant project node\<rparr>;
            (tasks, queued_assignments_removed) = task_revoke_node tasks scope
        in ((s, tasks), Inr (descriptor_removed, queued_assignments_removed)))"

text \<open>
  A revoked node keeps nothing: no identity, no descriptor, no nonce, no queued or running task, and no transfer
  under way.
\<close>

lemma revoked_node_cleared:
  assumes "handle_revoke_node_credential s tasks tenant project actor node now = ((s', tasks'), Inr result)"
    and "bwf (rr_node_nonces (ns_replay s))" and "bwf (ix_transfers (is_interchange s))"
  shows "node_identity (ns_coordinator s') (tenant, project, node) = None"
    and "bget (nr_descriptors (ns_nodes s')) (tenant, project, node) = None"
    and "bget (rr_node_nonces (ns_replay s')) ((tenant, project, node), nonce) = None"
    and "bget (tr_assignments tasks') (tenant, project, node) = None"
    and "k \<in> set (tr_active tasks') \<Longrightarrow> \<not> control_on (tenant, project, node) k"
    and "bget (ix_transfers (is_interchange s')) tid = Some x \<Longrightarrow> \<not> transfer_matches_active_node x (tenant, project, node)"
proof -
  let ?scope = "(tenant, project, node)"
  from assms(1) obtain c identity where c: "revoke_node_credential (ns_coordinator s)
      \<lparr>ac_tenant = tenant, ac_project = project, ac_actor = User actor\<rparr> node = Inr (c, identity)"
    and s': "s' = s\<lparr>ns_coordinator := c, ns_nodes := fst (remove_node (ns_nodes s) ?scope),
        ns_replay := replay_clear_node (ns_replay s) ?scope, is_interchange := fail_node (is_interchange s) ?scope now,
        is_artifacts := garbage_collect_node (is_artifacts s) tenant project node\<rparr>"
    and tasks': "tasks' = fst (task_revoke_node tasks ?scope)"
    by (auto simp: handle_revoke_node_credential_def revoke_node_def Let_def split: sum.splits prod.splits)
  show "node_identity (ns_coordinator s') ?scope = None"
    using c by (auto simp: s' node_identity_def revoke_node_credential_def Let_def bmap_simps split: option.splits)
  show "bget (nr_descriptors (ns_nodes s')) ?scope = None"
    by (simp add: s' remove_node_def remove_endpoint_def bmap_simps split: option.split)
  show "bget (rr_node_nonces (ns_replay s')) (?scope, nonce) = None"
    using assms(2) by (simp add: s' replay_clear_node_def bget_bretain split: option.split)
  show "bget (tr_assignments tasks') ?scope = None" "k \<in> set (tr_active tasks') \<Longrightarrow> \<not> control_on ?scope k"
    by (simp_all add: tasks' task_revoke_node_def bmap_simps)
  have ended: "\<not> transfer_matches_active_node (end_transfer XFailed code now y) ?scope" for code y
    by (simp add: transfer_matches_active_node_def end_transfer_def set_record_def terminal.simps Let_def)
  show "\<not> transfer_matches_active_node x ?scope" if "bget (ix_transfers (is_interchange s')) tid = Some x"
    using that
    by (auto simp: s' fail_node_def rewrite_transfers_def bget_bmap_values split: if_splits) (metis ended)+
qed

section \<open>What a transfer never changes\<close>

definition transfer_identity ::
  "interchange_transfer \<Rightarrow> artifact_scope_key \<times> process_id \<times> node_id \<times> node_id \<times> relay_policy \<times> digest \<times> u64" where
  "transfer_identity x =
     ((tt_tenant (it_record x), tt_project (it_record x), tt_artifact (it_record x)), tt_process (it_record x),
      tt_source_node (it_record x), tt_destination_node (it_record x), tl_relay_policy (destination_lease x),
      tl_digest (destination_lease x), tl_allowed_offset (destination_lease x))"

lemma identity_updates [simp]:
  "transfer_identity (mark_ready x node st) = transfer_identity x"
  "transfer_identity (reoffer_provider x) = transfer_identity x"
  "transfer_identity (reoffer_receiver x) = transfer_identity x"
  "transfer_identity (renew_transfer now lt x) = transfer_identity x"
  "transfer_identity (fail_relayed now x) = transfer_identity x"
  "transfer_identity (end_transfer st code now x) = transfer_identity x"
  "transfer_identity (commit_report x node rp now lt) = transfer_identity x"
  "transfer_identity (x\<lparr>it_provider_assignment := pa, it_provider_acknowledged_at := ack\<rparr>) = transfer_identity x"
  "transfer_identity (x\<lparr>it_destination_assignment := pa, it_destination_acknowledged_at := ack\<rparr>) = transfer_identity x"
  by (simp_all add: transfer_identity_def transfer_updates commit_report_def Let_def)

definition derived :: "string option \<Rightarrow> interchange_registry \<Rightarrow> interchange_registry \<Rightarrow> bool" where
  "derived l r r' \<longleftrightarrow> (\<forall>tid x'. bget (ix_transfers r') tid = Some x' \<longrightarrow> l \<noteq> Some tid \<longrightarrow>
     (\<exists>x. bget (ix_transfers r) tid = Some x \<and> transfer_identity x' = transfer_identity x))"

lemma derived_refl [simp]: "derived l r r"
  by (simp add: derived_def)

lemma derived_store:
  "bget (ix_transfers r) tid = Some x \<Longrightarrow> transfer_identity x' = transfer_identity x \<Longrightarrow> derived l r (store_transfer r tid x')"
  by (simp add: derived_def store_transfer_def bmap_simps)

lemma derived_meter [simp]: "derived l r (meter_body_bytes r' path n) = derived l r r'"
  by (simp add: derived_def meter_body_bytes_def split: path_kind.split)

lemma derived_rewrite:
  "(\<And>x. transfer_identity (f x) = transfer_identity x) \<Longrightarrow> derived l r (rewrite_transfers p f r)"
  by (auto simp: derived_def rewrite_transfers_def bmap_simps)

lemma derived_retain:
  "bwf (ix_transfers r') \<Longrightarrow> derived l r r' \<Longrightarrow> derived l r (r'\<lparr>ix_transfers := bretain q (ix_transfers r')\<rparr>)"
  by (auto simp: derived_def bget_bretain split: option.splits if_splits)

lemma report_derived:
  assumes "report_progress ap r a scope tid rp now lt = (r', a', res)"
  shows "derived l r r'"
proof (cases "\<exists>x. bget (ix_transfers r) tid = Some x \<and> admit_report x scope rp = Inr None")
  case False
  with assms have "r' = r" by (auto simp: report_progress_def split: option.splits sum.splits)
  then show ?thesis by simp
next
  case True
  then obtain x where x: "bget (ix_transfers r) tid = Some x" and adm: "admit_report x scope rp = Inr None" by blast
  from assms x adm derived_store [OF x] show ?thesis
    by (auto simp: report_progress_def Let_def split: if_splits sum.splits)
qed

lemma transfer_step_derived: "transfer_step r l r' \<Longrightarrow> transfers_ok r \<Longrightarrow> derived l r r'"
proof (induction rule: transfer_step.induct)
  case (create r tid x capacity)
  from prune_keeps_live [OF transfers_okD(2) [OF create(5)], of capacity]
  have keep: "bget (prune_terminal_to_fit (ix_transfers r) capacity) i = Some y \<Longrightarrow> bget (ix_transfers r) i = Some y" for i y
    by (metis option.distinct(1))
  then show ?case by (auto simp: create_transfer_def Let_def derived_def store_transfer_def bmap_simps)
next
  case (report r a scope tid rp now lt r' a' res)
  from report_derived [OF report(1)] show ?case .
next
  case (renew r tenant project process artifact destination now lt)
  then show ?case
    by (auto simp: renew_def Let_def dest: find_ok intro!: derived_store split: option.split)
next
  case (poll_provider r scope now recovery)
  then show ?case
    by (auto simp: poll_provider_assignment_def Let_def dest: find_ok intro!: derived_store split: option.split)
next
  case (poll_receiver r scope now recovery)
  then show ?case
    by (auto simp: poll_receiver_assignment_def Let_def dest: find_ok intro!: derived_store split: option.split)
next
  case (acknowledge r scope tid role now r' st)
  then show ?case
    by (auto simp: acknowledge_assignment_def intro!: derived_store split: option.splits if_splits prod.splits)
next
  case (expire r now no_progress absolute_max retention)
  have "bwf (ix_transfers (rewrite_transfers p f r))" for p f
    using transfers_okD(2) [OF expire] by (simp add: rewrite_transfers_def)
  then show ?case unfolding expire_transfers_def Let_def fst_conv by (intro derived_retain derived_rewrite) auto
qed (auto simp: cancel_process_def cancel_node_for_hard_drain_def fail_node_def Let_def intro!: derived_rewrite)

lemma live_from:
  assumes "transfers_ok r" and "transfer_step r l r'" and "bget (ix_transfers r') tid = Some x'"
    and "transfer_live x'" and "l \<noteq> Some tid"
  obtains x where "bget (ix_transfers r) tid = Some x" and "transfer_live x" and "transfer_identity x' = transfer_identity x"
proof -
  from transfer_step_derived [OF assms(2,1)] assms(3,5) obtain x where x: "bget (ix_transfers r) tid = Some x"
    "transfer_identity x' = transfer_identity x" by (auto simp: derived_def)
  have "permits_transition_to (transfer_state_of x) (transfer_state_of x')"
    using transfers.uncreated_moves [OF assms(1,2,5)] x assms(3) by (simp add: lifecycle_of_def)
  with assms(4) have "transfer_live x" using terminal_permits by metis
  with x that show thesis by blast
qed

section \<open>A transfer under way holds its artifact\<close>

definition live_held :: "artifact_registry \<Rightarrow> interchange_registry \<Rightarrow> bool" where
  "live_held a r \<longleftrightarrow> (\<forall>tid x. bget (ix_transfers r) tid = Some x \<longrightarrow> transfer_live x \<longrightarrow>
     held a (fst (transfer_identity x)) (ActiveTransfer tid))"

lemma active_hold_identity: "active_hold x = (fst (transfer_identity x), ActiveTransfer (tt_transfer_id (it_record x)))"
  by (simp add: active_hold_def transfer_identity_def)

lemma live_held_step: "transfers_ok r \<Longrightarrow> transfer_step r None r' \<Longrightarrow> live_held a r \<Longrightarrow> live_held a r'"
  unfolding live_held_def by (metis live_from option.distinct(1))

lemma live_held_artifacts:
  "live_held a r \<Longrightarrow> (\<And>key tid. held a key (ActiveTransfer tid) \<Longrightarrow> held a' key (ActiveTransfer tid)) \<Longrightarrow> live_held a' r"
  unfolding live_held_def by blast

lemma held_release_holds: "held a key reason \<Longrightarrow> (key, reason) \<notin> set hs \<Longrightarrow> held (release_holds a hs) key reason"
  unfolding release_holds_def
proof (induction hs arbitrary: a)
  case (Cons h hs)
  then have "held (fst (remove_hold a (fst h) (snd h))) key reason" by (intro held_remove_hold) auto
  with Cons show ?case by simp
qed simp

lemma ok_release_holds: "artifacts_ok a \<Longrightarrow> artifacts_ok (release_holds a hs)"
  unfolding release_holds_def by (rule ok_fold_remove_hold)

lemma live_held_release:
  assumes "live_held a r" and "\<And>h tid x. h \<in> set hs \<Longrightarrow> snd h = ActiveTransfer tid \<Longrightarrow> bget (ix_transfers r) tid = Some x \<Longrightarrow> \<not> transfer_live x"
  shows "live_held (release_holds a hs) r"
  using assms held_release_holds unfolding live_held_def by (metis snd_conv)

lemma selected_ended:
  assumes "transfers_ok r" and "h \<in> set (map active_hold (selected p r))" and "snd h = ActiveTransfer tid"
    and "bget (ix_transfers (rewrite_transfers p f r)) tid = Some x" and "\<And>x. \<not> transfer_live (f x)"
  shows "\<not> transfer_live x"
proof -
  from assms(2) obtain y where y: "y \<in> set (bvalues (ix_transfers r))" "p y" "h = active_hold y" by (auto simp: selected_def)
  then obtain k where "(k, y) \<in> set (ix_transfers r)" by auto
  then have k: "bget (ix_transfers r) k = Some y" by (simp add: in_bget_Some [OF transfers_okD(2) [OF assms(1)]])
  from transfers_okD(4) [OF assms(1) k] y(3) assms(3) have "k = tid" by (simp add: active_hold_def)
  with k y(2) assms(4) have "x = f y" by (auto simp: rewrite_transfers_def bmap_simps)
  with assms(5) show ?thesis by simp
qed

lemma live_held_expire:
  assumes "transfers_ok r" and "live_held a r" and "expire_transfers r now np am ret = (r', hs)"
  shows "live_held (release_holds a hs) r'"
proof (rule live_held_release)
  let ?p = "overdue now np am" and ?f = "end_transfer XExpired TransferLeaseExpired now"
  have r': "r' = fst (expire_transfers r now np am ret)" and hs: "hs = map active_hold (selected ?p r)"
    using assms(3) by (auto simp: expire_transfers_def Let_def)
  show "live_held a r'" unfolding r' by (rule live_held_step [OF assms(1) transfer_step.expire assms(2)])
  fix h tid x assume h: "h \<in> set hs" "snd h = ActiveTransfer tid" and x: "bget (ix_transfers r') tid = Some x"
  have "bwf (ix_transfers (rewrite_transfers ?p ?f r))" using transfers_okD(2) [OF assms(1)] by (simp add: rewrite_transfers_def)
  with x have "bget (ix_transfers (rewrite_transfers ?p ?f r)) tid = Some x"
    by (auto simp: r' expire_transfers_def Let_def bget_bretain split: option.splits if_splits)
  from selected_ended [OF assms(1) h(1) [unfolded hs] h(2) this] show "\<not> transfer_live x" by (simp add: terminal.simps)
qed

lemma live_held_cancel:
  assumes "transfers_ok r" and "live_held a r" and "cancel_process r t p q now = (r', n, hs)"
  shows "live_held (release_holds a hs) r'"
proof (rule live_held_release)
  have r': "r' = fst (cancel_process r t p q now)" using assms(3) by simp
  show "live_held a r'" unfolding r' by (rule live_held_step [OF assms(1) transfer_step.cancel assms(2)])
  show "\<not> transfer_live x" if "h \<in> set hs" "snd h = ActiveTransfer tid" "bget (ix_transfers r') tid = Some x" for h tid x
    using selected_ended [OF assms(1), of h "of_active_process t p q" tid "end_transfer XCancelled TransferCancelled now"] that assms(3)
    by (auto simp: cancel_process_def Let_def terminal.simps)
qed

lemma live_held_hard_drain:
  assumes "transfers_ok r" and "live_held a r" and "cancel_node_for_hard_drain r (t, p, n) now = (r', rel)"
  shows "live_held (release_holds a (map (\<lambda>(i, tid). ((t, p, i), ActiveTransfer tid)) rel)) r'"
proof (rule live_held_release)
  let ?p = "\<lambda>x. transfer_matches_active_node x (t, p, n)" and ?f = "end_transfer XCancelled TransferCancelled now"
  have r': "r' = fst (cancel_node_for_hard_drain r (t, p, n) now)" using assms(3) by simp
  show "live_held a r'" unfolding r' by (rule live_held_step [OF assms(1) transfer_step.hard_drain assms(2)])
  have "map (\<lambda>(i, tid). ((t, p, i), ActiveTransfer tid)) rel = map active_hold (selected ?p r)"
    using assms(3) by (auto simp: cancel_node_for_hard_drain_def Let_def active_hold_def selected_def
        transfer_matches_active_node_def in_transfer_scope_def)
  moreover fix h tid x assume "h \<in> set (map (\<lambda>(i, tid). ((t, p, i), ActiveTransfer tid)) rel)" "snd h = ActiveTransfer tid"
    "bget (ix_transfers r') tid = Some x"
  moreover have "r' = rewrite_transfers ?p ?f r" by (simp add: r' cancel_node_for_hard_drain_def Let_def)
  ultimately show "\<not> transfer_live x" using selected_ended [OF assms(1), of h ?p tid ?f x] by (simp add: terminal.simps)
qed

lemma transfer_ok_new:
  assumes "offset \<le> mt_size (rq_metadata q)"
  shows "transfer_ok (new_transfer (new_lease c scope q dad source sad offset tk now) tk dad sad n now)"
  using assms by (cases scope) (simp add: transfer_ok_def lease_of_record_def new_transfer_def new_lease_def Let_def)

lemma admit_requestD:
  assumes "admit_request s (t, p, n) process artifact offset now = Inr q"
  shows "offset \<le> mt_size (rq_metadata q)" and "bget (ag_artifacts (is_artifacts s)) (t, p, rq_artifact q) = Some (rq_metadata q)"
    and "mt_process (rq_metadata q) = rq_process q" and "holds_of (is_artifacts s) (t, p, rq_artifact q) \<noteq> []"
    and "node_is_live s (t, p, n) now" and "\<not> process_is_cancelled (is_processes s) (t, p, rq_process q)"
  using assms by (auto simp: admit_request_def artifact_metadata_of_def split: if_splits sum.splits option.splits)

lemma new_transfer_simps [simp]:
  "transfer_state_of (new_transfer l tk dad sad n now) = SourceSelected"
  "tt_transfer_id (it_record (new_transfer l tk dad sad n now)) = tl_transfer_id l"
  "destination_lease (new_transfer l tk dad sad n now) = l"
  "tl_transfer_id (new_lease c scope q dad source sad offset tk now) = tk_transfer_id tk"
  "tl_relay_policy (new_lease c scope q dad source sad offset tk now) = iv_artifact_relay_policy c"
  by (simp_all add: new_transfer_def new_lease_def split: prod.split)

lemma identity_new:
  "fst (transfer_identity (new_transfer (new_lease c (t, p, n) q dad source sad offset tk now) tk dad sad k now)) = (t, p, rq_artifact q)"
  by (simp add: transfer_identity_def new_transfer_def new_lease_def)

text \<open>What a request does to the state: nothing, a renewal, or the creation of one transfer.\<close>

lemma serve_request_cases:
  assumes "serve_request s (t, p, n) process artifact offset now lt tokens = (s', res)"
  obtains (same) "s' = s"
  | (renewed) pr i l where "s' = s\<lparr>is_interchange := fst (renew (is_interchange s) t p pr i n now l)\<rparr>"
  | (started) q dad source sad tk x where "tokens = Inr tk" and "admit_request s (t, p, n) process artifact offset now = Inr q"
      and "n \<notin> set (mt_retaining_nodes (rq_metadata q))" and "active_advertisement s (t, p, n) now = Inr dad"
      and "choose_provider s (t, p, n) q offset now = Inr (source, sad)"
      and "x = new_transfer (new_lease (is_configuration s) (t, p, n) q dad source sad offset tk now) tk dad sad
               (next_attempt (previous_attempts (is_interchange s) (t, p, n) q)) now"
      and "start_transfer s x now = (s', res)"
proof (cases "admit_request s (t, p, n) process artifact offset now")
  case (Inl e)
  with assms same show thesis by (simp add: serve_request_def)
next
  case (Inr q)
  show thesis
  proof (cases "n \<in> set (mt_retaining_nodes (rq_metadata q)) \<or> isl (active_advertisement s (t, p, n) now)")
    case True
    with assms Inr same show thesis by (auto simp: serve_request_def split: sum.splits if_splits)
  next
    case False
    then obtain dad where dad: "active_advertisement s (t, p, n) now = Inr dad" by (cases "active_advertisement s (t, p, n) now") auto
    obtain r auth where ren: "renew (is_interchange s) t p (rq_process q) (rq_artifact q) n now (lifetimes_of (is_configuration s)) = (r, auth)"
      by fastforce
    show thesis
    proof (cases auth)
      case (Some a)
      with assms Inr False dad ren have "s' = s\<lparr>is_interchange := r\<rparr>" by (cases a) (simp add: serve_request_def)
      with ren renewed [of "rq_process q" "rq_artifact q" "lifetimes_of (is_configuration s)"] show thesis by simp
    next
      case None
      with assms Inr False dad ren started [OF _ Inr _ dad] same show thesis
        by (auto simp: serve_request_def split: sum.splits prod.splits)
    qed
  qed
qed

lemma request_answers:
  assumes "handle_request_artifact_interchange s t p q n i offset now lt tokens = (s', Inr response)"
  shows "\<exists>authorization transfer. response = TransferAuthorization authorization transfer"
  using assms by (auto simp: handle_request_artifact_interchange_def serve_request_def start_transfer_def
      split: sum.splits prod.splits if_splits option.splits)

section \<open>The service as a transition system\<close>

text \<open>
  Every request of the interchange, with the operations of the other components on the state they share:
  artifact operations other than those on transfer holds, the node registry, the coordinator and the process
  registry. A step that may create a transfer carries its identifier, drawn at random and not in use.
\<close>

inductive interchange_step :: "sha256_fn \<Rightarrow> interchange_service \<Rightarrow> string option \<Rightarrow> interchange_service \<Rightarrow> bool"
  for H :: sha256_fn where
  configure: "configure_artifact_interchange s c = Inr s' \<Longrightarrow> interchange_step H s None s'"
| advertise: "interchange_step H s None (fst (handle_report_iroh_endpoint_advertisement s t p n ad now))"
| relay_scope: "interchange_step H s None (fst (authorized_relay_endpoint_scope s e now))"
| request: "bget (ix_transfers (is_interchange s)) (tk_transfer_id tk) = None \<Longrightarrow> interchange_step H s (Some (tk_transfer_id tk))
     (fst (handle_request_artifact_interchange s t p q n i offset now local_token (Inr tk)))"
| request_untokened: "interchange_step H s None
     (fst (handle_request_artifact_interchange s t p q n i offset now local_token (Inl e)))"
| export: "bget (ix_transfers (is_interchange s)) (tk_transfer_id tk) = None \<Longrightarrow> interchange_step H s (Some (tk_transfer_id tk))
     (fst (handle_export_artifact_to_node s t p u i n now label local_token (Inr tk)))"
| poll_provider: "interchange_step H s None (fst (handle_poll_artifact_provider_assignment s t p n now))"
| poll_receiver: "interchange_step H s None (fst (handle_poll_artifact_receiver_assignment s t p n now))"
| acknowledge: "interchange_step H s None (fst (handle_acknowledge_artifact_assignment s t p n tid role now))"
| report: "interchange_step H s None (fst (handle_report_artifact_interchange s t p n tid rp now))"
| cancel: "interchange_step H s None (fst (cancel_artifact_interchanges_for_process s t p q now))"
| hard_drain: "interchange_step H s None (hard_drain_transfers s scope now)"
| revoke_node: "interchange_step H s None (revoke_node_transfers s scope now)"
| release: "interchange_step H s None (fst (release_process_artifact_hold s t p q h))"
| create_link: "handle_create_artifact_download_link H s max_ttl t p u i max_bytes ttl now token = Some (s', res) \<Longrightarrow>
     interchange_step H s None s'"
| revoke_link: "interchange_step H s None (fst (handle_revoke_artifact_download_link s t p u i d now))"
| artifacts: "artifact_step H (is_artifacts s) op a \<Longrightarrow> (\<And>key tid. \<not> releases op key (ActiveTransfer tid)) \<Longrightarrow>
     interchange_step H s None (s\<lparr>is_artifacts := a\<rparr>)"
| nodes: "registry_step (ns_nodes s) r \<Longrightarrow> interchange_step H s None (s\<lparr>ns_nodes := r\<rparr>)"
| coordinator: "coordinator_step H (ns_coordinator s) l c \<Longrightarrow> interchange_step H s None (s\<lparr>ns_coordinator := c\<rparr>)"
| processes: "process_step (is_processes s) pr \<Longrightarrow> interchange_step H s None (s\<lparr>is_processes := pr\<rparr>)"

definition service_ok :: "interchange_service \<Rightarrow> bool" where
  "service_ok s \<longleftrightarrow> artifacts_ok (is_artifacts s) \<and> transfers_ok (is_interchange s)
     \<and> live_held (is_artifacts s) (is_interchange s)"

lemma service_okI:
  "service_ok s \<Longrightarrow> is_artifacts s' = is_artifacts s \<Longrightarrow> transfer_step (is_interchange s) None (is_interchange s') \<Longrightarrow> service_ok s'"
  unfolding service_ok_def using live_held_step ok_transfer_step by metis

lemma service_ok_frame:
  "service_ok s \<Longrightarrow> is_artifacts s' = is_artifacts s \<Longrightarrow> is_interchange s' = is_interchange s \<Longrightarrow> service_ok s'"
  by (simp add: service_ok_def)

lemma service_ok_artifacts:
  "service_ok s \<Longrightarrow> is_interchange s' = is_interchange s \<Longrightarrow> artifacts_ok (is_artifacts s') \<Longrightarrow>
     (\<And>key tid. held (is_artifacts s) key (ActiveTransfer tid) \<Longrightarrow> held (is_artifacts s') key (ActiveTransfer tid)) \<Longrightarrow> service_ok s'"
  unfolding service_ok_def using live_held_artifacts by metis

lemma service_ok_artifact_step:
  assumes "service_ok s" and "artifact_step H (is_artifacts s) op (is_artifacts s')" and "is_interchange s' = is_interchange s"
    and "\<And>key tid. \<not> releases op key (ActiveTransfer tid)"
  shows "service_ok s'"
proof (rule service_ok_artifacts [OF assms(1,3)])
  show "artifacts_ok (is_artifacts s')" using ok_artifact_step [OF assms(2)] assms(1) by (simp add: service_ok_def)
  show "held (is_artifacts s') key (ActiveTransfer tid)" if "held (is_artifacts s) key (ActiveTransfer tid)" for key tid
    using artifact_step_keeps_hold [OF assms(2)] that assms(1,4) by (simp add: service_ok_def)
qed

lemma ok_expire_interchange_state:
  assumes "service_ok s"
  shows "service_ok (expire_interchange_state s now)"
proof -
  obtain r hs where e: "expire_transfers (is_interchange s) now (iv_no_progress_timeout (is_configuration s))
      (iv_absolute_transfer_max (is_configuration s)) terminal_retention_seconds = (r, hs)" by fastforce
  then have r: "r = fst (expire_transfers (is_interchange s) now (iv_no_progress_timeout (is_configuration s))
      (iv_absolute_transfer_max (is_configuration s)) terminal_retention_seconds)" by simp
  from assms have ok: "artifacts_ok (is_artifacts s)" "transfers_ok (is_interchange s)"
    "live_held (is_artifacts s) (is_interchange s)" by (simp_all add: service_ok_def)
  have "transfers_ok r" unfolding r by (rule ok_transfer_step [OF transfer_step.expire ok(2)])
  with live_held_expire [OF ok(2,3) e] ok_release_holds [OF ok(1)] e show ?thesis
    by (simp add: service_ok_def expire_interchange_state_def Let_def)
qed

lemma open_request_cases:
  assumes "open_request s t p n now = (s', res)"
  obtains (refused) e where "s' = s" and "res = Inl e"
  | (opened) "s' = expire_interchange_state s now" and "res = Inr (t, p, n)" and "node_identity (ns_coordinator s) (t, p, n) \<noteq> None"
  using assms by (auto simp: open_request_def parse_node_scope_def parse_id_def authorize_interchange_node_def split: sum.splits option.splits)

lemma ok_open_request: "service_ok s \<Longrightarrow> open_request s t p n now = (s', res) \<Longrightarrow> service_ok s'"
  by (erule open_request_cases) (simp_all add: ok_expire_interchange_state)

lemma expire_keeps_fresh:
  assumes "transfers_ok (is_interchange s)" and "bget (ix_transfers (is_interchange s)) tid = None"
  shows "bget (ix_transfers (is_interchange (expire_interchange_state s now))) tid = None"
proof -
  have "derived None (is_interchange s) (is_interchange (expire_interchange_state s now))"
    using transfer_step_derived [OF transfer_step.expire assms(1)] by (simp add: expire_interchange_state_def Let_def split_beta)
  with assms(2) show ?thesis unfolding derived_def by (metis option.distinct(1) option.exhaust)
qed

lemma start_transfer_cases:
  assumes "start_transfer s x now = (s', res)"
  obtains (full) "s' = s\<lparr>is_interchange := fst (create_transfer (is_interchange s) (tt_transfer_id (it_record x)) x max_interchange_transfers)\<rparr>"
    and "snd (create_transfer (is_interchange s) (tt_transfer_id (it_record x)) x max_interchange_transfers) = False"
    and "res = Inl (transfer_protocol_error CapacityUnavailable)"
  | (created) "s' = s\<lparr>is_interchange := fst (create_transfer (is_interchange s) (tt_transfer_id (it_record x)) x max_interchange_transfers),
      is_artifacts := fst (add_hold (is_artifacts s) (fst (active_hold x)) (snd (active_hold x)) now)\<rparr>"
    and "snd (create_transfer (is_interchange s) (tt_transfer_id (it_record x)) x max_interchange_transfers) = True"
    and "res = Inr (TransferAuthorization (Some (it_destination_authorization x)) (Some (it_record x)))"
  using assms by (auto simp: start_transfer_def split: prod.splits if_splits)

lemma create_get:
  assumes "transfers_ok r" and "create_transfer r tid x cap = (r', created)" and "bget (ix_transfers r') i = Some y"
  shows "created \<and> i = tid \<and> y = x \<or> i \<noteq> tid \<and> bget (ix_transfers r) i = Some y \<or> \<not> created \<and> bget (ix_transfers r) i = Some y"
proof -
  from prune_keeps_live [OF transfers_okD(2) [OF assms(1)], of cap i]
  have "bget (prune_terminal_to_fit (ix_transfers r) cap) i = Some y \<Longrightarrow> bget (ix_transfers r) i = Some y"
    by (metis option.distinct(1))
  with assms(2,3) show ?thesis
    by (auto simp: create_transfer_def Let_def store_transfer_def bmap_simps split: if_splits)
qed

lemma held_added: "bcontains (ag_artifacts a) key \<Longrightarrow> held (fst (add_hold a key reason at)) key reason"
  by (auto simp: holds_of_add_hold set_sinsert)

lemma ok_start_transfer:
  assumes ok: "service_ok s" and x: "transfer_ok x" "transfer_state_of x = SourceSelected"
    and fresh: "bget (ix_transfers (is_interchange s)) (tt_transfer_id (it_record x)) = None"
    and key: "bcontains (ag_artifacts (is_artifacts s)) (fst (transfer_identity x))"
    and start: "start_transfer s x now = (s', res)"
  shows "service_ok s'"
proof -
  let ?tid = "tt_transfer_id (it_record x)"
  obtain r created where c: "create_transfer (is_interchange s) ?tid x max_interchange_transfers = (r, created)" by fastforce
  from ok have okr: "transfers_ok (is_interchange s)" and oka: "artifacts_ok (is_artifacts s)"
    and lh: "live_held (is_artifacts s) (is_interchange s)" by (simp_all add: service_ok_def)
  have step: "transfer_step (is_interchange s) (Some ?tid) r"
    using transfer_step.create [OF fresh x(2) refl x(1), of max_interchange_transfers] c by simp
  define a where "a = (if created then fst (add_hold (is_artifacts s) (fst (active_hold x)) (snd (active_hold x)) now) else is_artifacts s)"
  have "artifacts_ok a" using oka ok_add_hold by (simp add: a_def)
  moreover have "live_held a r"
    unfolding live_held_def
  proof (intro allI impI)
    fix i y assume y: "bget (ix_transfers r) i = Some y" "transfer_live y"
    from create_get [OF okr c y(1)] consider "created" "i = ?tid" "y = x" | "bget (ix_transfers (is_interchange s)) i = Some y"
      by blast
    then show "held a (fst (transfer_identity y)) (ActiveTransfer i)"
    proof cases
      case 1
      with held_added [OF key] show ?thesis by (simp add: a_def active_hold_identity)
    next
      case 2
      with lh y(2) have "held (is_artifacts s) (fst (transfer_identity y)) (ActiveTransfer i)" by (simp add: live_held_def)
      then show ?thesis unfolding a_def using held_add_hold by (cases created) simp_all
    qed
  qed
  moreover have "s' = s\<lparr>is_interchange := r, is_artifacts := a\<rparr>" using start c by (simp add: start_transfer_def a_def split: if_splits)
  ultimately show ?thesis using ok_transfer_step [OF step okr] by (simp add: service_ok_def)
qed

lemma ok_serve_request:
  assumes ok: "service_ok s" and serve: "serve_request s (t, p, n) process artifact offset now lt tokens = (s', res)"
    and fresh: "\<And>tk. tokens = Inr tk \<Longrightarrow> bget (ix_transfers (is_interchange s)) (tk_transfer_id tk) = None"
  shows "service_ok s'"
  using serve
proof (cases rule: serve_request_cases)
  case same
  with ok show ?thesis by simp
next
  case (renewed pr i l)
  then show ?thesis using transfer_step.renew by (intro service_okI [OF ok]) auto
next
  case (started q dad source sad tk x)
  show ?thesis
  proof (rule ok_start_transfer [OF ok _ _ _ _ started(7)])
    show "transfer_ok x" unfolding started(6) by (rule transfer_ok_new [OF admit_requestD(1) [OF started(2)]])
    show "bcontains (ag_artifacts (is_artifacts s)) (fst (transfer_identity x))"
      using admit_requestD(2) [OF started(2)] by (simp add: started(6) identity_new bcontains_iff)
  qed (use fresh started(1,6) in simp_all)
qed

lemma ok_handle_request:
  assumes "service_ok s" and "\<And>tk. tokens = Inr tk \<Longrightarrow> bget (ix_transfers (is_interchange s)) (tk_transfer_id tk) = None"
  shows "service_ok (fst (handle_request_artifact_interchange s t p q n i offset now lt tokens))"
proof -
  obtain s1 res where o: "open_request s t p n now = (s1, res)" by fastforce
  then show ?thesis
  proof (cases rule: open_request_cases)
    case refused
    with assms(1) o show ?thesis by (simp add: handle_request_artifact_interchange_def)
  next
    case opened
    have ok: "service_ok s1" by (rule ok_open_request [OF assms(1) o])
    have "bget (ix_transfers (is_interchange s1)) (tk_transfer_id tk) = None" if "tokens = Inr tk" for tk
      unfolding opened(1) by (rule expire_keeps_fresh) (use assms that in \<open>simp_all add: service_ok_def\<close>)
    then have "service_ok (fst (serve_request s1 (t, p, n) q i offset now lt tokens))"
      using ok_serve_request [OF ok] by (metis prod.collapse)
    with o opened show ?thesis by (simp add: handle_request_artifact_interchange_def)
  qed
qed

lemma effect_frame:
  assumes "apply_artifact_effect a eff = Inr a'"
  shows "artifacts_ok a \<Longrightarrow> artifacts_ok a'" and "holds_of a' = holds_of a"
proof -
  consider (verified) key node dg sz where "record_verified_retaining_location a key node dg sz = Some a'"
    | (missing) key node where "a' = fst (remove_retaining_location a key node)"
    using assms by (auto simp: apply_artifact_effect_def split: artifact_effect.splits option.splits)
  then have "(artifacts_ok a \<longrightarrow> artifacts_ok a') \<and> holds_of a' = holds_of a"
  proof cases
    case verified
    from ok_artifact_step [OF artifact_step.verified [OF this, of undefined]] verified show ?thesis
      by (auto simp: record_verified_retaining_location_def split: option.splits if_splits)
  next
    case missing
    with ok_artifact_step [OF artifact_step.forget [of undefined a key node]] show ?thesis
      by (simp add: remove_retaining_location_def)
  qed
  then show "artifacts_ok a \<Longrightarrow> artifacts_ok a'" and "holds_of a' = holds_of a" by auto
qed

lemma effects_frame:
  "completion_effect apply_artifact_effect a x node rp = Inr a' \<Longrightarrow> (artifacts_ok a \<longrightarrow> artifacts_ok a') \<and> holds_of a' = holds_of a"
  "missing_source_effect apply_artifact_effect a x node rp = Inr a' \<Longrightarrow> (artifacts_ok a \<longrightarrow> artifacts_ok a') \<and> holds_of a' = holds_of a"
  by (auto simp: completion_effect_def missing_source_effect_def Let_def effect_frame split: if_splits)

text \<open>An accepted report on a transfer that has not ended, taken apart.\<close>

lemma report_cases:
  assumes "report_progress ap r a scope tid rp now lt = (r', a', res)"
  obtains (unchanged) "r' = r" and "a' = a"
      and "\<And>pr. res = Inr pr \<Longrightarrow> ip_terminal_hold pr = None \<and> (\<exists>x. bget (ix_transfers r) tid = Some x \<and> \<not> transfer_live x)"
  | (forbidden) x y where "bget (ix_transfers r) tid = Some x" and "admit_report x scope rp = Inr None"
      and "y = mark_ready x (snd (snd scope)) (rp_state rp)" and "relay_forbidden y rp"
      and "r' = store_transfer r tid (fail_relayed now y)" and "a' = a"
      and "res = Inl (Protocol (transfer_error_code_as_str RelayPathForbidden))"
  | (failed) x y e where "bget (ix_transfers r) tid = Some x" and "admit_report x scope rp = Inr None"
      and "y = mark_ready x (snd (snd scope)) (rp_state rp)" and "r' = store_transfer r tid y" and "res = Inl e"
      and "a' = a \<or> completion_effect ap a y (snd (snd scope)) rp = Inr a'"
  | (committed) x y z a1 pr where "bget (ix_transfers r) tid = Some x" and "admit_report x scope rp = Inr None"
      and "y = mark_ready x (snd (snd scope)) (rp_state rp)" and "\<not> relay_forbidden y rp"
      and "completion_effect ap a y (snd (snd scope)) rp = Inr a1"
      and "missing_source_effect ap a1 y (snd (snd scope)) rp = Inr a'"
      and "z = commit_report y (snd (snd scope)) rp now lt"
      and "r' = meter_body_bytes (store_transfer r tid z) (rp_path_kind rp) (sat_sub (body_bytes y rp) (it_metered_body_bytes y))"
      and "res = Inr pr" and "ip_record pr = it_record z"
      and "ip_terminal_hold pr = (if transfer_live z then None else Some (active_hold z))"
proof (cases "\<exists>x. bget (ix_transfers r) tid = Some x \<and> admit_report x scope rp = Inr None")
  case False
  with assms show thesis
    by (intro unchanged) (auto simp: report_progress_def admit_report_def Let_def split: option.splits sum.splits if_splits)
next
  case True
  then obtain x where x: "bget (ix_transfers r) tid = Some x" and adm: "admit_report x scope rp = Inr None" by blast
  define y where "y = mark_ready x (snd (snd scope)) (rp_state rp)"
  have rep: "report_progress ap r a scope tid rp now lt =
     (if relay_forbidden y rp
      then (store_transfer r tid (fail_relayed now y), a, Inl (Protocol (transfer_error_code_as_str RelayPathForbidden)))
      else case completion_effect ap a y (snd (snd scope)) rp of
          Inl e \<Rightarrow> (store_transfer r tid y, a, Inl e)
        | Inr a1 \<Rightarrow> (case missing_source_effect ap a1 y (snd (snd scope)) rp of
            Inl e \<Rightarrow> (store_transfer r tid y, a1, Inl e)
          | Inr a2 \<Rightarrow> let z = commit_report y (snd (snd scope)) rp now lt; ended = \<not> transfer_live z in
              (meter_body_bytes (store_transfer r tid z) (rp_path_kind rp) (sat_sub (body_bytes y rp) (it_metered_body_bytes y)), a2,
               Inr \<lparr>ip_record = it_record z,
                    ip_authorization = (if ended then None else Some (if snd (snd scope) = tt_source_node (it_record z)
                       then it_provider_authorization z else it_destination_authorization z)),
                    ip_terminal_hold = (if ended then Some (active_hold z) else None)\<rparr>)))"
    unfolding report_progress_def x adm y_def Let_def option.case sum.case not_not ..
  show thesis
  proof (cases "relay_forbidden y rp")
    case True
    with assms rep forbidden [OF x adm y_def True] show thesis by simp
  next
    case False
    show thesis
    proof (cases "completion_effect ap a y (snd (snd scope)) rp")
      case (Inl e)
      with assms rep False show thesis by (intro failed [OF x adm y_def, of e]) auto
    next
      case (Inr a1)
      show thesis
      proof (cases "missing_source_effect ap a1 y (snd (snd scope)) rp")
        case (Inl e)
        with assms rep False \<open>completion_effect ap a y (snd (snd scope)) rp = Inr a1\<close> show thesis
          by (intro failed [OF x adm y_def, of e]) auto
      next
        case (Inr a2)
        with assms rep False \<open>completion_effect ap a y (snd (snd scope)) rp = Inr a1\<close> show thesis
          by (intro committed [OF x adm y_def False]) (auto simp: Let_def)
      qed
    qed
  qed
qed

lemma ok_handle_report:
  assumes ok: "service_ok s"
  shows "service_ok (fst (handle_report_artifact_interchange s t p n tid rp now))"
proof -
  obtain s1 res1 where o: "open_request s t p n now = (s1, res1)" by fastforce
  have ok1: "service_ok s1" by (rule ok_open_request [OF ok o])
  show ?thesis
  proof (cases res1)
    case (Inl e)
    with ok1 o show ?thesis by (simp add: handle_report_artifact_interchange_def)
  next
    case (Inr scope)
    obtain r a res where rep: "report_progress apply_artifact_effect (is_interchange s1) (is_artifacts s1) scope tid rp now
        (lifetimes_of (is_configuration s1)) = (r, a, res)" by (metis prod_cases3)
    from ok1 have okr: "transfers_ok (is_interchange s1)" and oka: "artifacts_ok (is_artifacts s1)"
      and lh: "live_held (is_artifacts s1) (is_interchange s1)" by (simp_all add: service_ok_def)
    have okr': "transfers_ok r" by (rule ok_transfer_step [OF transfer_step.report [OF rep] okr])
    have fr: "artifacts_ok a \<and> holds_of a = holds_of (is_artifacts s1)"
      using rep
    proof (cases rule: report_cases)
      case (failed x y e)
      with effects_frame(1) oka show ?thesis by metis
    next
      case (committed x y z a1 pr)
      from effects_frame(1) [OF committed(5)] effects_frame(2) [OF committed(6)] oka show ?thesis by simp
    qed (use oka in auto)
    have "live_held (is_artifacts s1) r" by (rule live_held_step [OF okr transfer_step.report [OF rep] lh])
    then have lha: "live_held a r" using fr by (simp add: live_held_def)
    have ended: "snd h = ActiveTransfer tid \<and> (\<exists>z. bget (ix_transfers r) tid = Some z \<and> \<not> transfer_live z)"
      if "res = Inr pr" "ip_terminal_hold pr = Some h" for pr h
      using rep that
    proof (cases rule: report_cases)
      case (committed x y z a1 pr')
      with that have "h = active_hold z" "\<not> transfer_live z" by (auto split: if_splits)
      moreover have "bget (ix_transfers r) tid = Some z"
        by (simp add: committed(8) meter_body_bytes_def store_transfer_def bmap_simps split: path_kind.split)
      moreover have "tt_transfer_id (it_record z) = tid" using transfers_okD(4) [OF okr'] calculation(3) by simp
      ultimately show ?thesis by (simp add: active_hold_def)
    qed (use that in auto)
    have "live_held (release_holds a [h]) r" if "res = Inr pr" "ip_terminal_hold pr = Some h" for pr h
      using ended [OF that] by (intro live_held_release [OF lha]) auto
    then show ?thesis using o Inr rep okr' fr lha ok_remove_hold
      by (auto simp: handle_report_artifact_interchange_def service_ok_def release_holds_def split: sum.split option.split)
  qed
qed

lemma ok_add_any_hold: "service_ok s \<Longrightarrow> service_ok (s\<lparr>is_artifacts := fst (add_hold (is_artifacts s) key reason at)\<rparr>)"
  by (rule service_ok_artifact_step [where H = undefined and op = "Hold key reason at"]) (auto intro: artifact_step.hold)

lemma ok_remove_other_hold:
  assumes "service_ok s" and "\<And>tid. reason \<noteq> ActiveTransfer tid"
  shows "service_ok (s\<lparr>is_artifacts := fst (remove_hold (is_artifacts s) key reason)\<rparr>)"
  by (rule service_ok_artifact_step [OF assms(1), where H = undefined and op = "Unhold key reason"])
    (use assms(2) in \<open>auto intro: artifact_step.unhold\<close>)

lemma ok_handle_export:
  assumes "service_ok s" and "\<And>tk. tokens = Inr tk \<Longrightarrow> bget (ix_transfers (is_interchange s)) (tk_transfer_id tk) = None"
  shows "service_ok (fst (handle_export_artifact_to_node s t p u i n now label lt tokens))"
proof -
  have req: "service_ok (fst (handle_request_artifact_interchange
      (s\<lparr>is_artifacts := fst (add_hold (is_artifacts s) key reason now)\<rparr>) t p q n i 0 now lt tokens))" for key reason q
    by (rule ok_handle_request) (use assms ok_add_any_hold in auto)
  have "service_ok ((fst x)\<lparr>is_artifacts := fst (remove_hold (is_artifacts (fst x)) key (ExplicitRetention l))\<rparr>)"
    if "service_ok (fst x)" for x :: "interchange_service \<times> (service_error + interchange_response)" and key l
    using that by (intro ok_remove_other_hold) auto
  note rel = this [OF req]
  show ?thesis
    using assms(1) rel ok_add_any_hold [OF assms(1)]
    by (auto simp: handle_export_artifact_to_node_def Let_def split_beta split: sum.split storage_location.split option.split)
qed

lemma ok_cancel_service:
  assumes "service_ok s"
  shows "service_ok (fst (cancel_artifact_interchanges_for_process s t p q now))"
proof -
  from assms have ok: "artifacts_ok (is_artifacts s)" "transfers_ok (is_interchange s)"
    "live_held (is_artifacts s) (is_interchange s)" by (simp_all add: service_ok_def)
  obtain r m hs where c: "cancel_process (is_interchange s) t p q now = (r, m, hs)" by (metis prod_cases3)
  have "transfers_ok r" using ok_transfer_step [OF transfer_step.cancel ok(2), of t p q now] c by simp
  with live_held_cancel [OF ok(2,3) c] ok_release_holds [OF ok(1)] c show ?thesis
    by (simp add: service_ok_def cancel_artifact_interchanges_for_process_def)
qed

lemma ok_hard_drain_service:
  assumes "service_ok s"
  shows "service_ok (hard_drain_transfers s scope now)"
proof -
  from assms have ok: "artifacts_ok (is_artifacts s)" "transfers_ok (is_interchange s)"
    "live_held (is_artifacts s) (is_interchange s)" by (simp_all add: service_ok_def)
  obtain t p n where scope: "scope = (t, p, n)" by (cases scope)
  obtain r rel where c: "cancel_node_for_hard_drain (is_interchange s) (t, p, n) now = (r, rel)" by fastforce
  have "transfers_ok r" using ok_transfer_step [OF transfer_step.hard_drain ok(2), of "(t, p, n)" now] c by simp
  with live_held_hard_drain [OF ok(2,3) c] ok_release_holds [OF ok(1)] c show ?thesis
    by (simp add: service_ok_def hard_drain_transfers_def scope)
qed

lemma ok_revoke_node_service:
  assumes "service_ok s"
  shows "service_ok (revoke_node_transfers s scope now)"
proof -
  obtain t p n where scope: "scope = (t, p, n)" by (cases scope)
  let ?s = "s\<lparr>ns_nodes := fst (remove_node (ns_nodes s) scope), is_interchange := fail_node (is_interchange s) scope now\<rparr>"
  have "service_ok ?s" using transfer_step.fail by (intro service_okI [OF assms]) auto
  then show ?thesis
    by (rule service_ok_artifact_step [where H = undefined and op = "Collect_Node t p n"])
      (auto simp: revoke_node_transfers_def scope artifact_step.collect)
qed

lemma ok_links_service:
  assumes "service_ok s"
  shows "handle_create_artifact_download_link H s max_ttl t p u i max_bytes ttl now token = Some (s', res) \<Longrightarrow> service_ok s'"
    and "service_ok (fst (handle_revoke_artifact_download_link s t p u i d now))"
proof -
  let ?ctx = "\<lparr>ac_tenant = t, ac_project = p, ac_actor = User u\<rparr>"
  have "service_ok (s\<lparr>is_artifacts := fst (create_download_link H (is_artifacts s) ?ctx i policy nonce now ttl')\<rparr>)" for policy nonce ttl'
    by (rule service_ok_artifact_step [OF assms, where H = H and op = "Create_Link ?ctx i policy nonce now ttl'"])
      (auto simp: artifact_step.create)
  then show "handle_create_artifact_download_link H s max_ttl t p u i max_bytes ttl now token = Some (s', res) \<Longrightarrow> service_ok s'"
    using assms by (auto simp: handle_create_artifact_download_link_def Let_def split_beta split: sum.splits)
  have "service_ok (s\<lparr>is_artifacts := expire_download_links (is_artifacts s) now\<rparr>)"
    by (rule service_ok_artifact_step [OF assms, where H = H and op = "Expire_Links now"]) (auto simp: artifact_step.expire)
  then have "service_ok (s\<lparr>is_artifacts := fst (revoke_download_link (expire_download_links (is_artifacts s) now) ?ctx i d)\<rparr>)"
    by (rule service_ok_artifact_step [where H = H and op = "Revoke_Link ?ctx i d"])
      (auto simp: artifact_step.revoke)
  then show "service_ok (fst (handle_revoke_artifact_download_link s t p u i d now))"
    by (simp add: handle_revoke_artifact_download_link_def Let_def split_beta)
qed

lemma ok_polls:
  assumes "service_ok s"
  shows "service_ok (fst (handle_poll_artifact_provider_assignment s t p n now))"
    and "service_ok (fst (handle_poll_artifact_receiver_assignment s t p n now))"
    and "service_ok (fst (handle_acknowledge_artifact_assignment s t p n tid role now))"
    and "service_ok (fst (handle_report_iroh_endpoint_advertisement s t p n ad now))"
proof -
  obtain s1 res where o: "open_request s t p n now = (s1, res)" by fastforce
  have ok: "service_ok s1" by (rule ok_open_request [OF assms o])
  have step: "service_ok (s1\<lparr>is_interchange := r\<rparr>)" if "transfer_step (is_interchange s1) None r" for r
    using that by (intro service_okI [OF ok]) auto
  have frame: "service_ok (s1\<lparr>ns_nodes := r\<rparr>)" for r by (rule service_ok_frame [OF ok]) simp_all
  show "service_ok (fst (handle_poll_artifact_provider_assignment s t p n now))"
    using ok step [OF transfer_step.poll_provider] o
    by (simp add: handle_poll_artifact_provider_assignment_def split_beta split: sum.split)
  show "service_ok (fst (handle_poll_artifact_receiver_assignment s t p n now))"
    using ok step [OF transfer_step.poll_receiver] o
    by (simp add: handle_poll_artifact_receiver_assignment_def split_beta split: sum.split)
  show "service_ok (fst (handle_acknowledge_artifact_assignment s t p n tid role now))"
    using ok step [OF transfer_step.acknowledge] o
    by (auto simp: handle_acknowledge_artifact_assignment_def split: sum.split assignment_acknowledgement_error.split)
  show "service_ok (fst (handle_report_iroh_endpoint_advertisement s t p n ad now))"
    using ok frame o
    by (auto simp: handle_report_iroh_endpoint_advertisement_def split: sum.split endpoint_advertisement_error.split)
qed

lemma ok_interchange_step: "interchange_step H s l s' \<Longrightarrow> service_ok s \<Longrightarrow> service_ok s'"
proof (induction rule: interchange_step.induct)
  case (configure s c s')
  then show ?case by (auto simp: configure_artifact_interchange_def service_ok_def split: sum.splits if_splits)
next
  case (relay_scope s e now)
  from ok_expire_interchange_state [OF relay_scope] show ?case
    by (simp add: authorized_relay_endpoint_scope_def Let_def split: relay_configuration.split option.split)
next
  case (release s t p q h)
  have "service_ok (s\<lparr>is_artifacts := fst (release_process_hold (is_artifacts s) t p q i)\<rparr>)" for i
    unfolding release_process_hold_def using release by (intro ok_remove_other_hold) auto
  with release show ?case by (simp add: release_process_artifact_hold_def split_beta split: option.split)
next
  case (artifacts s op a)
  from service_ok_artifact_step [OF artifacts(3), of H op "s\<lparr>is_artifacts := a\<rparr>"] artifacts(1,2) show ?case by simp
qed (auto intro: ok_polls ok_handle_request ok_handle_export ok_handle_report ok_cancel_service ok_hard_drain_service
    ok_revoke_node_service ok_links_service service_ok_frame)

definition interchange_steps :: "sha256_fn \<Rightarrow> interchange_service \<Rightarrow> interchange_service \<Rightarrow> bool" where
  "interchange_steps H = (\<lambda>s s'. \<exists>l. interchange_step H s l s')\<^sup>*\<^sup>*"

definition initial_service :: "interchange_service \<Rightarrow> bool" where
  "initial_service s \<longleftrightarrow> is_artifacts s = artifact_registry_default \<and> is_interchange s = interchange_registry_default
     \<and> validate_configuration (is_configuration s) = Inr ()"

lemma ok_initial: "initial_service s \<Longrightarrow> service_ok s"
  by (simp add: initial_service_def service_ok_def ok_default ok_interchange_default)
    (simp add: live_held_def interchange_registry_default_def)

lemma ok_interchange_steps: "interchange_steps H s s' \<Longrightarrow> service_ok s \<Longrightarrow> service_ok s'"
  unfolding interchange_steps_def by (induction rule: rtranclp_induct) (auto dest: ok_interchange_step)

lemma interchange_steps_trans [trans]:
  "interchange_steps H a b \<Longrightarrow> interchange_step H b l c \<Longrightarrow> interchange_steps H a c"
  unfolding interchange_steps_def by (auto intro: rtranclp.rtrancl_into_rtrancl)

definition example_advertisement :: "node_id \<Rightarrow> string \<Rightarrow> iroh_endpoint_advertisement" where
  "example_advertisement n e = \<lparr>ie_tenant = ''t'', ie_project = ''p'', ie_node = n, ie_endpoint_id = e, ie_generation = 1,
     ie_relay_configuration_generation = 1, ie_direct_addresses = [], ie_relay_urls = [], ie_expires_at = 150\<rparr>"

definition example_nodes :: node_registry where
  "example_nodes = node_registry_default
     \<lparr>nr_last_seen := [((''t'', ''p'', ''n1''), 100), ((''t'', ''p'', ''n2''), 100)],
      nr_advertisements := [((''t'', ''p'', ''n1''), example_advertisement ''n1'' ''e1''),
        ((''t'', ''p'', ''n2''), example_advertisement ''n2'' ''e2'')],
      nr_bindings := [(''e1'', (''t'', ''p'', ''n1'')), (''e2'', (''t'', ''p'', ''n2''))]\<rparr>"

definition example_service :: interchange_service where
  "example_service =
     \<lparr>ns_coordinator = enroll_node (enroll_node (boot durable_state_default 1) ''t'' ''p'' ''n1'' ''k1'' ''s'') ''t'' ''p'' ''n2'' ''k2'' ''s'',
      ns_quota = coordinator_quota_new quota_configuration_unlimited, ns_nodes = example_nodes,
      ns_replay = replay_registry_default, ns_stale_after = 30, ns_max_enrollment_ttl = 900,
      is_artifacts = artifact_registry_default, is_interchange = interchange_registry_default,
      is_configuration = interchange_configuration_default, is_processes = process_registry_default\<rparr>"

definition example_tokens :: transfer_tokens where
  "example_tokens = \<lparr>tk_transfer_id = ''x1'', tk_nonce = ''z'', tk_secret = ''s''\<rparr>"

text \<open>Node \<open>n1\<close> flushed an artifact, and \<open>n2\<close> asked for it.\<close>

definition example_flushed :: interchange_service where
  "example_flushed = example_service\<lparr>is_artifacts := example_artifacts\<rparr>"

definition example_requested :: interchange_service where
  "example_requested = fst (handle_request_artifact_interchange example_flushed ''t'' ''p'' ''q'' ''n2'' ''app.tar'' 0 100
     (Inr ''l'') (Inr example_tokens))"

lemma example_initial: "initial_service example_service"
  unfolding initial_service_def by (simp add: example_service_def) code_simp

lemma example_flushed_steps: "interchange_steps H example_service example_flushed"
proof -
  have "interchange_step H example_service None example_flushed"
    unfolding example_flushed_def example_artifacts_def
    by (rule interchange_step.artifacts [where op = "Flush example_flush [] []"])
      (simp_all add: example_service_def artifact_step.flush)
  then show ?thesis unfolding interchange_steps_def by blast
qed

lemma example_requested_step: "interchange_step H example_flushed (Some ''x1'') example_requested"
proof -
  have "bget (ix_transfers (is_interchange example_flushed)) (tk_transfer_id example_tokens) = None" by code_simp
  from interchange_step.request [OF this] show ?thesis
    unfolding example_requested_def by (simp add: example_tokens_def)
qed

lemma example_requested_steps: "interchange_steps H example_service example_requested"
  by (rule interchange_steps_trans [OF example_flushed_steps example_requested_step])

text \<open>
  C35. A transfer under way keeps its artifact: in every reachable state of the service, whatever requests,
  reports, expiries, drains and artifact operations came before, the artifact of every transfer that has not
  ended is known and carries the transfer's hold, so it is not evicted while its bytes move.
\<close>

theorem live_transfer_keeps_artifact:
  assumes "initial_service s0" and "interchange_steps H s0 s"
    and "bget (ix_transfers (is_interchange s)) tid = Some x" and "transfer_live x"
  shows "held (is_artifacts s) (tt_tenant (it_record x), tt_project (it_record x), tt_artifact (it_record x)) (ActiveTransfer tid)
    \<and> (\<exists>m. artifact_metadata_of (is_artifacts s)
          (tt_tenant (it_record x), tt_project (it_record x), tt_artifact (it_record x)) = Some m)"
proof -
  have ok: "service_ok s" by (rule ok_interchange_steps [OF assms(2) ok_initial [OF assms(1)]])
  then have held: "held (is_artifacts s) (fst (transfer_identity x)) (ActiveTransfer tid)"
    using assms(3,4) by (simp add: service_ok_def live_held_def)
  from held_artifact_exists [OF _ held] ok show ?thesis using held
    by (auto simp: service_ok_def artifact_metadata_of_def transfer_identity_def)
qed

theorem live_transfer_keeps_artifact_witness:
  "held (is_artifacts example_requested) (''t'', ''p'', ''app.tar'') (ActiveTransfer ''x1'')"
proof -
  obtain x where x: "bget (ix_transfers (is_interchange example_requested)) ''x1'' = Some x" "transfer_live x"
    and key: "(tt_tenant (it_record x), tt_project (it_record x), tt_artifact (it_record x)) = (''t'', ''p'', ''app.tar'')"
  proof -
    have "(case bget (ix_transfers (is_interchange example_requested)) ''x1'' of None \<Rightarrow> False
      | Some x \<Rightarrow> transfer_live x \<and> (tt_tenant (it_record x), tt_project (it_record x), tt_artifact (it_record x)) = (''t'', ''p'', ''app.tar''))"
      by code_simp
    then show thesis using that by (auto split: option.splits)
  qed
  from live_transfer_keeps_artifact [OF example_initial example_requested_steps x] key show ?thesis by simp
qed

end
