(* ===== verification/CF_Admission.thy ===== *)
theory CF_Admission
  imports CF_Interchange
begin

text \<open>
  Invariants of the transfers in the running service: the admission limits of the configuration bound the
  transfers under way in every reachable state, and in a hosted deployment no artifact bytes are carried by a
  relay. Both rest on one interface, an invariant of the transfer registry under a configuration.
\<close>

section \<open>Invariants of the transfers in the service\<close>

text \<open>What admission has checked when a request creates a transfer.\<close>

definition admitted :: "interchange_configuration \<Rightarrow> interchange_registry \<Rightarrow> interchange_transfer \<Rightarrow> bool" where
  "admitted c r x \<longleftrightarrow>
     (let k = it_record x in
      count_live (of_tenant (tt_tenant k)) r < iv_max_active_per_tenant c
      \<and> count_live (of_project (tt_tenant k) (tt_project k)) r < iv_max_active_per_project c
      \<and> count_live (of_transfer_process (tt_tenant k) (tt_project k) (tt_process k)) r < iv_max_active_per_process c
      \<and> count_live (of_receiver (tt_tenant k, tt_project k, tt_destination_node k)) r < iv_max_receiver_leases_per_node c
      \<and> count_live (of_provider (tt_tenant k, tt_project k, tt_source_node k)) r < iv_max_provider_leases_per_node c
      \<and> tl_relay_policy (destination_lease x) = iv_artifact_relay_policy c)"

definition creates :: "interchange_configuration \<Rightarrow> interchange_registry \<Rightarrow> string option \<Rightarrow> interchange_registry \<Rightarrow> bool" where
  "creates c r l r' \<longleftrightarrow>
     (\<exists>x. l = Some (tt_transfer_id (it_record x)) \<and> bget (ix_transfers r) (tt_transfer_id (it_record x)) = None
        \<and> transfer_state_of x = SourceSelected \<and> transfer_ok x \<and> admitted c r x
        \<and> r' = fst (create_transfer r (tt_transfer_id (it_record x)) x max_interchange_transfers))"

lemma creates_step: "creates c r l r' \<Longrightarrow> transfer_step r l r'"
  unfolding creates_def using transfer_step.create by blast

lemma choose_provider_admitted:
  assumes "choose_provider s (t, p, n) q offset now = Inr (source, sad)"
  shows "admitted (is_configuration s) (is_interchange s)
     (new_transfer (new_lease (is_configuration s) (t, p, n) q dad source sad offset tk now) tk dad sad k now)"
proof -
  from assms obtain sc where adm: "enforce_interchange_admission (is_configuration s) (is_interchange s) (rq_process q) (t, p, n)
      (sat_sub (mt_size (rq_metadata q)) offset) now = Inr ()"
    and sel: "select_source s (t, p, n) q now = Some sc" "source = snd (snd sc)"
    and cap: "count_live (of_provider sc) (is_interchange s) < iv_max_provider_leases_per_node (is_configuration s)"
    by (auto simp: choose_provider_def split: sum.splits option.splits if_splits)
  from sel have "sc = (t, p, source)" by (auto simp: select_source_def find_Some_iff)
  with adm cap show ?thesis
    by (simp add: admitted_def enforce_interchange_admission_def new_transfer_def new_lease_def Let_def split: if_splits)
qed

lemma expire_frame [simp]:
  "is_configuration (expire_interchange_state s now) = is_configuration s"
  "ns_coordinator (expire_interchange_state s now) = ns_coordinator s"
  "is_processes (expire_interchange_state s now) = is_processes s"
  by (simp_all add: expire_interchange_state_def Let_def split_beta)

lemma expire_registry: "transfer_step (is_interchange s) None (is_interchange (expire_interchange_state s now))"
  using transfer_step.expire by (simp add: expire_interchange_state_def Let_def split_beta)

lemma serve_request_registry:
  assumes "serve_request s (t, p, n) process artifact offset now lt tokens = (s', res)"
    and "\<And>tk. tokens = Inr tk \<Longrightarrow> bget (ix_transfers (is_interchange s)) (tk_transfer_id tk) = None"
  shows "is_interchange s' = is_interchange s \<or> transfer_step (is_interchange s) None (is_interchange s')
     \<or> (\<exists>tk. tokens = Inr tk \<and> creates (is_configuration s) (is_interchange s) (Some (tk_transfer_id tk)) (is_interchange s'))"
  using assms(1)
proof (cases rule: serve_request_cases)
  case (renewed pr i l)
  then show ?thesis using transfer_step.renew by auto
next
  case (started q dad source sad tk x)
  have "is_interchange s' = fst (create_transfer (is_interchange s) (tt_transfer_id (it_record x)) x max_interchange_transfers)"
    using started(7) by (cases rule: start_transfer_cases) auto
  moreover have "transfer_ok x" unfolding started(6) by (rule transfer_ok_new [OF admit_requestD(1) [OF started(2)]])
  moreover have "admitted (is_configuration s) (is_interchange s) x" unfolding started(6) by (rule choose_provider_admitted [OF started(5)])
  moreover have "transfer_state_of x = SourceSelected" "tt_transfer_id (it_record x) = tk_transfer_id tk"
    using started(6) by simp_all
  ultimately show ?thesis using started(1) assms(2) [OF started(1)] unfolding creates_def by metis
qed simp

text \<open>Every step of the service is at most an expiry and one operation of the registry.\<close>

definition registry_path ::
  "interchange_configuration \<Rightarrow> interchange_registry \<Rightarrow> string option \<Rightarrow> interchange_registry \<Rightarrow> bool" where
  "registry_path c r l r' \<longleftrightarrow>
     (\<exists>r1. (r1 = r \<or> transfer_step r None r1) \<and> (r' = r1 \<or> transfer_step r1 None r' \<or> creates c r1 l r'))"

lemma registry_path_same [simp]: "registry_path c r l r"
  unfolding registry_path_def by blast

lemma registry_path_step: "transfer_step r None r' \<Longrightarrow> registry_path c r l r'"
  unfolding registry_path_def by blast

lemma registry_path_request:
  assumes "transfers_ok (is_interchange s)"
    and "\<And>tk. tokens = Inr tk \<Longrightarrow> bget (ix_transfers (is_interchange s)) (tk_transfer_id tk) = None \<and> l = Some (tk_transfer_id tk)"
  shows "registry_path (is_configuration s) (is_interchange s) l
     (is_interchange (fst (handle_request_artifact_interchange s t p q n i offset now lt tokens)))"
proof -
  obtain s1 res where o: "open_request s t p n now = (s1, res)" by fastforce
  then show ?thesis
  proof (cases rule: open_request_cases)
    case refused
    with o show ?thesis by (simp add: handle_request_artifact_interchange_def)
  next
    case opened
    obtain s2 res2 where sv: "serve_request s1 (t, p, n) q i offset now lt tokens = (s2, res2)" by fastforce
    have "bget (ix_transfers (is_interchange s1)) (tk_transfer_id tk) = None" if "tokens = Inr tk" for tk
      unfolding opened(1) by (rule expire_keeps_fresh) (use assms that in simp_all)
    from serve_request_registry [OF sv this] have "is_interchange s2 = is_interchange s1
       \<or> transfer_step (is_interchange s1) None (is_interchange s2) \<or> creates (is_configuration s) (is_interchange s1) l (is_interchange s2)"
      using assms(2) opened(1) by auto
    moreover have "transfer_step (is_interchange s) None (is_interchange s1)" unfolding opened(1) by (rule expire_registry)
    moreover have "fst (handle_request_artifact_interchange s t p q n i offset now lt tokens) = s2"
      using o opened(2) sv by (simp add: handle_request_artifact_interchange_def)
    ultimately show ?thesis unfolding registry_path_def by metis
  qed
qed

lemma registry_path_opened:
  assumes "open_request s t p n now = (s1, res)" and "r = is_interchange s1 \<or> transfer_step (is_interchange s1) None r"
  shows "registry_path c (is_interchange s) l r"
  using assms(1)
proof (cases rule: open_request_cases)
  case refused
  with assms(2) show ?thesis by (auto intro: registry_path_step)
next
  case opened
  with assms(2) expire_registry [of s now] show ?thesis unfolding registry_path_def by auto
qed

lemma registry_path_handlers:
  "registry_path c (is_interchange s) l (is_interchange (fst (handle_poll_artifact_provider_assignment s t p n now)))"
  "registry_path c (is_interchange s) l (is_interchange (fst (handle_poll_artifact_receiver_assignment s t p n now)))"
  "registry_path c (is_interchange s) l (is_interchange (fst (handle_acknowledge_artifact_assignment s t p n tid role now)))"
  "registry_path c (is_interchange s) l (is_interchange (fst (handle_report_iroh_endpoint_advertisement s t p n ad now)))"
  "registry_path c (is_interchange s) l (is_interchange (fst (handle_report_artifact_interchange s t p n tid rp now)))"
proof -
  obtain s1 res where o: "open_request s t p n now = (s1, res)" by fastforce
  note path = registry_path_opened [OF o]
  show "registry_path c (is_interchange s) l (is_interchange (fst (handle_poll_artifact_provider_assignment s t p n now)))"
    by (rule path) (simp add: o handle_poll_artifact_provider_assignment_def split_beta transfer_step.poll_provider split: sum.split)
  show "registry_path c (is_interchange s) l (is_interchange (fst (handle_poll_artifact_receiver_assignment s t p n now)))"
    by (rule path) (simp add: o handle_poll_artifact_receiver_assignment_def split_beta transfer_step.poll_receiver split: sum.split)
  show "registry_path c (is_interchange s) l (is_interchange (fst (handle_acknowledge_artifact_assignment s t p n tid role now)))"
    by (rule path) (auto simp: o handle_acknowledge_artifact_assignment_def intro: transfer_step.acknowledge
        split: sum.split assignment_acknowledgement_error.split)
  show "registry_path c (is_interchange s) l (is_interchange (fst (handle_report_iroh_endpoint_advertisement s t p n ad now)))"
    by (rule path) (auto simp: o handle_report_iroh_endpoint_advertisement_def split: sum.split endpoint_advertisement_error.split)
  show "registry_path c (is_interchange s) l (is_interchange (fst (handle_report_artifact_interchange s t p n tid rp now)))"
  proof (rule path, cases res)
    case (Inr scope)
    obtain r a ans where "report_progress apply_artifact_effect (is_interchange s1) (is_artifacts s1) scope tid rp now
        (lifetimes_of (is_configuration s1)) = (r, a, ans)" by (metis prod_cases3)
    with transfer_step.report [OF this] o Inr
    show "is_interchange (fst (handle_report_artifact_interchange s t p n tid rp now)) = is_interchange s1 \<or>
        transfer_step (is_interchange s1) None (is_interchange (fst (handle_report_artifact_interchange s t p n tid rp now)))"
      by (cases ans) (simp_all add: handle_report_artifact_interchange_def)
  qed (simp add: o handle_report_artifact_interchange_def)
qed

lemma export_registry:
  "is_interchange (fst (handle_export_artifact_to_node s t p u i n now label lt tokens)) = is_interchange s
     \<or> (\<exists>a q. is_interchange (fst (handle_export_artifact_to_node s t p u i n now label lt tokens))
          = is_interchange (fst (handle_request_artifact_interchange (s\<lparr>is_artifacts := a\<rparr>) t p q n i 0 now lt tokens)))"
  by (auto simp: handle_export_artifact_to_node_def Let_def split_beta split: sum.split storage_location.split option.split)

lemma interchange_step_registry:
  "interchange_step H s l s' \<Longrightarrow> transfers_ok (is_interchange s) \<Longrightarrow> registry_path (is_configuration s) (is_interchange s) l (is_interchange s')"
proof (induction rule: interchange_step.induct)
  case (configure s c s')
  then have "is_interchange s' = is_interchange s"
    by (auto simp: configure_artifact_interchange_def split: sum.splits if_splits)
  then show ?case by simp
next
  case (relay_scope s e now)
  have "fst (authorized_relay_endpoint_scope s e now) = expire_interchange_state s now"
    by (simp add: authorized_relay_endpoint_scope_def Let_def split: relay_configuration.split option.split)
  then show ?case by (simp add: registry_path_step expire_registry)
next
  case (export s tk t p u i n now label lt)
  have "registry_path (is_configuration (s\<lparr>is_artifacts := a\<rparr>)) (is_interchange (s\<lparr>is_artifacts := a\<rparr>)) (Some (tk_transfer_id tk))
     (is_interchange (fst (handle_request_artifact_interchange (s\<lparr>is_artifacts := a\<rparr>) t p q n i 0 now lt (Inr tk))))" for a q
    by (rule registry_path_request) (use export in simp_all)
  with export_registry [of s t p u i n now label lt "Inr tk"] show ?case by auto
next
  case (cancel s t p q now)
  then show ?case using transfer_step.cancel
    by (simp add: cancel_artifact_interchanges_for_process_def split_beta registry_path_step)
next
  case (hard_drain s scope now)
  then show ?case using transfer_step.hard_drain by (simp add: hard_drain_transfers_def split_beta registry_path_step)
next
  case (revoke_node s scope now)
  then show ?case using transfer_step.fail by (cases scope) (simp add: revoke_node_transfers_def registry_path_step)
next
  case (release s t p q h)
  then show ?case by (simp add: release_process_artifact_hold_def split_beta split: option.split)
next
  case (create_link s max_ttl t p u i max_bytes ttl now token s' res)
  then have "is_interchange s' = is_interchange s"
    by (auto simp: handle_create_artifact_download_link_def Let_def split_beta split: sum.splits)
  then show ?case by simp
next
  case (revoke_link s t p u i d now)
  then show ?case by (simp add: handle_revoke_artifact_download_link_def Let_def split_beta)
qed (auto intro: registry_path_handlers registry_path_request)

text \<open>
  An invariant of the registry under a configuration: kept by every operation that creates nothing, by every
  admitted creation, and by the changes of configuration it is compatible with. It then holds of the service.
\<close>

locale registry_invariant =
  fixes inv :: "interchange_configuration \<Rightarrow> interchange_registry \<Rightarrow> bool"
    and compatible :: "interchange_configuration \<Rightarrow> interchange_configuration \<Rightarrow> bool"
  assumes kept: "transfers_ok r \<Longrightarrow> inv c r \<Longrightarrow> transfer_step r None r' \<Longrightarrow> inv c r'"
    and created: "transfers_ok r \<Longrightarrow> inv c r \<Longrightarrow> creates c r l r' \<Longrightarrow> inv c r'"
    and reconfigured: "inv c r \<Longrightarrow> compatible c c' \<Longrightarrow> inv c' r"
begin

lemma kept_by_path: "transfers_ok r \<Longrightarrow> inv c r \<Longrightarrow> registry_path c r l r' \<Longrightarrow> inv c r'"
  unfolding registry_path_def using kept created ok_transfer_step by metis

lemma kept_by_service:
  "interchange_step H s l s' \<Longrightarrow> service_ok s \<Longrightarrow> compatible (is_configuration s) (is_configuration s') \<Longrightarrow>
     inv (is_configuration s) (is_interchange s) \<Longrightarrow> inv (is_configuration s') (is_interchange s')"
  using kept_by_path interchange_step_registry reconfigured unfolding service_ok_def by metis

lemma holds_in_service:
  "(\<lambda>s s'. (\<exists>l. interchange_step H s l s') \<and> compatible (is_configuration s) (is_configuration s'))\<^sup>*\<^sup>* s s' \<Longrightarrow>
     service_ok s \<Longrightarrow> inv (is_configuration s) (is_interchange s) \<Longrightarrow>
     service_ok s' \<and> inv (is_configuration s') (is_interchange s')"
  by (induction rule: rtranclp_induct) (auto dest: kept_by_service ok_interchange_step)

end

subsection \<open>Capacity\<close>

definition by_identity :: "(transfer_record \<Rightarrow> bool) \<Rightarrow> bool" where
  "by_identity q \<longleftrightarrow> (\<forall>x x'. transfer_identity x = transfer_identity x' \<longrightarrow> q (it_record x) = q (it_record x'))"

lemma by_identity_scopes:
  "by_identity (of_tenant t)" "by_identity (of_project t p)" "by_identity (of_transfer_process t p q)"
  "by_identity (of_receiver scope)" "by_identity (of_provider scope)"
  by (auto simp: by_identity_def transfer_identity_def of_tenant_def of_project_def of_transfer_process_def of_receiver_def of_provider_def)

definition live_ids :: "(transfer_record \<Rightarrow> bool) \<Rightarrow> interchange_registry \<Rightarrow> string set" where
  "live_ids q r = {tid. \<exists>x. bget (ix_transfers r) tid = Some x \<and> transfer_live x \<and> q (it_record x)}"

lemma count_live_card:
  assumes "bwf (ix_transfers r)"
  shows "count_live q r = card (live_ids q r)" and "finite (live_ids q r)"
proof -
  let ?P = "\<lambda>e. transfer_live (snd e) \<and> q (it_record (snd e))"
  have dist: "distinct (map fst (ix_transfers r))" using assms by (rule bwf_distinct)
  have ids: "live_ids q r = set (map fst (filter ?P (ix_transfers r)))"
    using assms by (force simp: live_ids_def in_bget_Some dest: bget_Some_in)
  have "card (set (map fst (filter ?P (ix_transfers r)))) = length (filter ?P (ix_transfers r))"
    using distinct_card [OF distinct_map_filter [OF dist]] by (simp only: length_map)
  then show "count_live q r = card (live_ids q r)"
    unfolding ids by (simp add: count_live_def filter_map comp_def del: set_map)
  show "finite (live_ids q r)" unfolding ids by simp
qed

lemma count_live_kept:
  assumes "transfers_ok r" and "transfer_step r None r'" and "by_identity q"
  shows "count_live q r' \<le> count_live q r"
proof -
  have "live_ids q r' \<subseteq> live_ids q r"
  proof
    fix tid assume "tid \<in> live_ids q r'"
    then obtain x' where x': "bget (ix_transfers r') tid = Some x'" "transfer_live x'" "q (it_record x')"
      by (auto simp: live_ids_def)
    from live_from [OF assms(1,2) x'(1,2)] obtain x where "bget (ix_transfers r) tid = Some x" "transfer_live x"
      "transfer_identity x' = transfer_identity x" by auto
    with x'(3) assms(3) show "tid \<in> live_ids q r" unfolding live_ids_def by_identity_def by blast
  qed
  with transfers_okD(2) [OF assms(1)] transfers_okD(2) [OF ok_transfer_step [OF assms(2,1)]] show ?thesis
    by (simp add: count_live_card card_mono)
qed

lemma count_live_created:
  assumes ok: "transfers_ok r" and step: "transfer_step r (Some (tt_transfer_id (it_record x))) r'"
    and r': "r' = fst (create_transfer r (tt_transfer_id (it_record x)) x cap)" and q: "by_identity q"
  shows "count_live q r' \<le> count_live q r + (if q (it_record x) then 1 else 0)"
proof -
  let ?tid = "tt_transfer_id (it_record x)"
  obtain created where c: "create_transfer r ?tid x cap = (r', created)" using r' by (cases "create_transfer r ?tid x cap") simp
  have "live_ids q r' \<subseteq> (if q (it_record x) then insert ?tid (live_ids q r) else live_ids q r)"
    using create_get [OF ok c] by (auto simp: live_ids_def)
  moreover have bwf: "bwf (ix_transfers r)" "bwf (ix_transfers r')"
    using transfers_okD(2) [OF ok] transfers_okD(2) [OF ok_transfer_step [OF step ok]] by simp_all
  ultimately have "card (live_ids q r') \<le> card (if q (it_record x) then insert ?tid (live_ids q r) else live_ids q r)"
    by (intro card_mono) (simp_all add: count_live_card)
  also have "\<dots> \<le> card (live_ids q r) + (if q (it_record x) then 1 else 0)"
    by (simp add: card_insert_le_m1 card_insert_if count_live_card(2) [OF bwf(1)])
  finally show ?thesis by (simp add: count_live_card(1) [OF bwf(1)] count_live_card(1) [OF bwf(2)])
qed

lemma length_kept:
  assumes "transfers_ok r" and "transfers_ok r'" and "\<And>tid x'. bget (ix_transfers r') tid = Some x' \<Longrightarrow> \<exists>x. bget (ix_transfers r) tid = Some x"
  shows "length (ix_transfers r') \<le> length (ix_transfers r)"
proof -
  have len: "length m = card (set (map fst m))" if "bwf m" for m :: "(string, interchange_transfer) bmap"
    using distinct_card [OF bwf_distinct [OF that]] by simp
  have "set (map fst (ix_transfers r')) \<subseteq> set (map fst (ix_transfers r))"
    using assms(3) by (metis (no_types, lifting) map_of_eq_None_iff option.exhaust set_map subsetI option.distinct(1))
  then show ?thesis using len transfers_okD(2) [OF assms(1)] transfers_okD(2) [OF assms(2)] by (metis List.finite_set card_mono)
qed

lemma length_created:
  assumes ok: "transfers_ok r" and len: "length (ix_transfers r) \<le> cap" and c: "create_transfer r tid x cap = (r', created)"
  shows "length (ix_transfers r') \<le> cap"
proof -
  let ?p = "r\<lparr>ix_transfers := prune_terminal_to_fit (ix_transfers r) cap\<rparr>"
  have "length (ix_transfers ?p) \<le> length (ix_transfers r)"
    by (rule length_kept [OF ok ok_prune [OF ok]])
      (use prune_keeps_live [OF transfers_okD(2) [OF ok], of cap] in \<open>simp, metis option.distinct(1)\<close>)
  then show ?thesis using c len length_binsert_le [of tid x]
    by (auto simp: create_transfer_def Let_def store_transfer_def split: if_splits intro: order_trans)
      (metis Suc_leI order_trans not_le)
qed

definition within_capacity :: "interchange_configuration \<Rightarrow> interchange_registry \<Rightarrow> bool" where
  "within_capacity c r \<longleftrightarrow> length (ix_transfers r) \<le> max_interchange_transfers
     \<and> (\<forall>t. count_live (of_tenant t) r \<le> iv_max_active_per_tenant c)
     \<and> (\<forall>t p. count_live (of_project t p) r \<le> iv_max_active_per_project c)
     \<and> (\<forall>t p q. count_live (of_transfer_process t p q) r \<le> iv_max_active_per_process c)
     \<and> (\<forall>scope. count_live (of_receiver scope) r \<le> iv_max_receiver_leases_per_node c)
     \<and> (\<forall>scope. count_live (of_provider scope) r \<le> iv_max_provider_leases_per_node c)"

interpretation capacity: registry_invariant within_capacity "(=)"
proof
  fix r c r' assume step: "transfers_ok r" "within_capacity c r" "transfer_step r None r'"
  have "length (ix_transfers r') \<le> length (ix_transfers r)"
    by (rule length_kept [OF step(1) ok_transfer_step [OF step(3,1)]])
      (use transfer_step_derived [OF step(3,1)] in \<open>auto simp: derived_def\<close>)
  with step show "within_capacity c r'"
    using count_live_kept [OF _ _ by_identity_scopes(1)] count_live_kept [OF _ _ by_identity_scopes(2)]
      count_live_kept [OF _ _ by_identity_scopes(3)] count_live_kept [OF _ _ by_identity_scopes(4)]
      count_live_kept [OF _ _ by_identity_scopes(5)]
    unfolding within_capacity_def by (meson le_trans)
next
  fix r c l r' assume ok: "transfers_ok r" and wc: "within_capacity c r" and cr: "creates c r l r'"
  from cr obtain x where x: "l = Some (tt_transfer_id (it_record x))" "admitted c r x"
    "r' = fst (create_transfer r (tt_transfer_id (it_record x)) x max_interchange_transfers)" unfolding creates_def by blast
  have step: "transfer_step r (Some (tt_transfer_id (it_record x))) r'" using creates_step [OF cr] x(1) by simp
  have bound: "count_live q r' \<le> n" if "by_identity q" and "count_live q r \<le> n" and "q (it_record x) \<Longrightarrow> count_live q r < n" for q n
    using count_live_created [OF ok step x(3) that(1)] that(2,3) by (auto split: if_splits)
  have "length (ix_transfers r') \<le> max_interchange_transfers"
    using length_created [OF ok] wc x(3) unfolding within_capacity_def by (metis prod.collapse)
  then show "within_capacity c r'" unfolding within_capacity_def
    using wc x(2) by (intro conjI allI bound by_identity_scopes)
      (auto simp: within_capacity_def admitted_def Let_def of_tenant_def of_project_def of_transfer_process_def of_receiver_def of_provider_def)
qed simp

subsection \<open>Relays\<close>

definition direct_only :: "interchange_registry \<Rightarrow> bool" where
  "direct_only r \<longleftrightarrow>
     (\<forall>tid x. bget (ix_transfers r) tid = Some x \<longrightarrow> tl_relay_policy (destination_lease x) = DirectRequired)
     \<and> ix_relayed_body_bytes r = 0 \<and> ix_unknown_path_body_bytes r = 0"

lemma direct_onlyI:
  assumes "direct_only r" and "derived l r r'"
    and "\<And>tid x. l = Some tid \<Longrightarrow> bget (ix_transfers r') tid = Some x \<Longrightarrow> tl_relay_policy (destination_lease x) = DirectRequired"
    and "ix_relayed_body_bytes r' = 0" and "ix_unknown_path_body_bytes r' = 0"
  shows "direct_only r'"
proof -
  have "tl_relay_policy (destination_lease x) = DirectRequired" if x: "bget (ix_transfers r') tid = Some x" for tid x
  proof (cases "l = Some tid")
    case False
    with assms(2) x obtain y where "bget (ix_transfers r) tid = Some y" "transfer_identity x = transfer_identity y"
      unfolding derived_def by blast
    with assms(1) show ?thesis by (auto simp: direct_only_def transfer_identity_def)
  qed (use assms(3) x in blast)
  with assms(4,5) show ?thesis by (simp add: direct_only_def)
qed

lemma meters_frame [simp]:
  "ix_relayed_body_bytes (store_transfer r tid x) = ix_relayed_body_bytes r"
  "ix_unknown_path_body_bytes (store_transfer r tid x) = ix_unknown_path_body_bytes r"
  "ix_relayed_body_bytes (rewrite_transfers p f r) = ix_relayed_body_bytes r"
  "ix_unknown_path_body_bytes (rewrite_transfers p f r) = ix_unknown_path_body_bytes r"
  by (simp_all add: store_transfer_def rewrite_transfers_def)

lemma mark_ready_lease [simp]: "destination_lease (mark_ready x node st) = destination_lease x"
  by (simp add: mark_ready_def Let_def)

lemma report_meters:
  assumes "report_progress ap r a scope tid rp now lt = (r', a', res)" and "direct_only r"
  shows "ix_relayed_body_bytes r' = 0 \<and> ix_unknown_path_body_bytes r' = 0"
  using assms(1)
proof (cases rule: report_cases)
  case (committed x y z a1 pr)
  have "tl_relay_policy (destination_lease y) = DirectRequired"
    using assms(2) committed(1,3) by (simp add: direct_only_def)
  with committed(4) have "rp_path_kind rp \<in> {PathRelayed, PathUnknown} \<Longrightarrow> body_bytes y rp = 0"
    by (auto simp: relay_forbidden_def body_bytes_def sat_sub_def not_less)
  then show ?thesis using assms(2) unfolding committed(8) direct_only_def
    by (cases "rp_path_kind rp") (simp_all add: meter_body_bytes_def sat_sub_def sat_add_def)
qed (use assms(2) in \<open>auto simp: direct_only_def\<close>)

lemma transfer_step_meters:
  assumes "transfer_step r l r'" and "direct_only r"
  shows "ix_relayed_body_bytes r' = 0 \<and> ix_unknown_path_body_bytes r' = 0"
  using assms
proof (induction rule: transfer_step.induct)
  case (report r a scope tid rp now lt r' a' res)
  from report_meters [OF report(1,2)] show ?case .
next
  case (acknowledge r scope tid role now r' st)
  then show ?case by (auto simp: direct_only_def acknowledge_assignment_def split: option.splits if_splits prod.splits)
qed (simp_all add: direct_only_def create_transfer_def renew_def poll_provider_assignment_def poll_receiver_assignment_def
    cancel_process_def cancel_node_for_hard_drain_def fail_node_def expire_transfers_def Let_def split: option.split prod.split)

interpretation relays: registry_invariant
  "\<lambda>c r. iv_artifact_relay_policy c = DirectRequired \<and> direct_only r" "\<lambda>_ c. iv_artifact_relay_policy c = DirectRequired"
proof
  fix r r' and c :: interchange_configuration
  assume "transfers_ok r" and "iv_artifact_relay_policy c = DirectRequired \<and> direct_only r" and "transfer_step r None r'"
  then show "iv_artifact_relay_policy c = DirectRequired \<and> direct_only r'"
    using direct_onlyI [OF _ transfer_step_derived] transfer_step_meters by (metis option.distinct(1))
next
  fix r r' l and c :: interchange_configuration
  assume ok: "transfers_ok r" and d: "iv_artifact_relay_policy c = DirectRequired \<and> direct_only r" and cr: "creates c r l r'"
  from cr obtain x where x: "l = Some (tt_transfer_id (it_record x))" "admitted c r x" "bget (ix_transfers r) (tt_transfer_id (it_record x)) = None"
    "r' = fst (create_transfer r (tt_transfer_id (it_record x)) x max_interchange_transfers)" unfolding creates_def by blast
  note step = creates_step [OF cr]
  have "tl_relay_policy (destination_lease y) = DirectRequired" if "l = Some tid" "bget (ix_transfers r') tid = Some y" for tid y
    using create_get [OF ok prod.collapse [symmetric], of _ _ _ tid y] that x d by (auto simp: admitted_def Let_def)
  then show "iv_artifact_relay_policy c = DirectRequired \<and> direct_only r'"
    using d direct_onlyI [OF _ transfer_step_derived [OF step ok]] transfer_step_meters [OF step] by blast
qed auto

subsection \<open>Configurations stay valid\<close>

lemma open_request_configuration: "open_request s t p n now = (s1, res) \<Longrightarrow> is_configuration s1 = is_configuration s"
  by (erule open_request_cases) simp_all

lemma serve_request_configuration:
  assumes "serve_request s (t, p, n) q i offset now lt tokens = (s', res)"
  shows "is_configuration s' = is_configuration s"
  using assms
proof (cases rule: serve_request_cases)
  case (started q dad source sad tk x)
  from started(7) show ?thesis by (cases rule: start_transfer_cases) auto
qed auto

lemma request_configuration:
  "is_configuration (fst (handle_request_artifact_interchange s t p q n i offset now lt tokens)) = is_configuration s"
proof -
  obtain s1 res where o: "open_request s t p n now = (s1, res)" by fastforce
  then show ?thesis
  proof (cases rule: open_request_cases)
    case opened
    have "is_configuration (fst (serve_request s1 (t, p, n) q i offset now lt tokens)) = is_configuration s1"
      using serve_request_configuration by (metis prod.collapse)
    with o opened show ?thesis by (simp add: handle_request_artifact_interchange_def)
  qed (use o in \<open>simp add: handle_request_artifact_interchange_def\<close>)
qed

lemma handlers_configuration:
  "is_configuration (fst (handle_poll_artifact_provider_assignment s t p n now)) = is_configuration s"
  "is_configuration (fst (handle_poll_artifact_receiver_assignment s t p n now)) = is_configuration s"
  "is_configuration (fst (handle_acknowledge_artifact_assignment s t p n tid role now)) = is_configuration s"
  "is_configuration (fst (handle_report_iroh_endpoint_advertisement s t p n ad now)) = is_configuration s"
  "is_configuration (fst (handle_report_artifact_interchange s t p n tid rp now)) = is_configuration s"
proof -
  obtain s1 res where o: "open_request s t p n now = (s1, res)" by fastforce
  note c = open_request_configuration [OF o]
  show "is_configuration (fst (handle_poll_artifact_provider_assignment s t p n now)) = is_configuration s"
    by (simp add: o c handle_poll_artifact_provider_assignment_def split_beta split: sum.split)
  show "is_configuration (fst (handle_poll_artifact_receiver_assignment s t p n now)) = is_configuration s"
    by (simp add: o c handle_poll_artifact_receiver_assignment_def split_beta split: sum.split)
  show "is_configuration (fst (handle_acknowledge_artifact_assignment s t p n tid role now)) = is_configuration s"
    by (simp add: o c handle_acknowledge_artifact_assignment_def split: sum.split assignment_acknowledgement_error.split)
  show "is_configuration (fst (handle_report_iroh_endpoint_advertisement s t p n ad now)) = is_configuration s"
    by (simp add: o c handle_report_iroh_endpoint_advertisement_def split: sum.split endpoint_advertisement_error.split)
  show "is_configuration (fst (handle_report_artifact_interchange s t p n tid rp now)) = is_configuration s"
    by (simp add: o c handle_report_artifact_interchange_def split: sum.split prod.split)
qed

lemma export_configuration:
  "is_configuration (fst (handle_export_artifact_to_node s t p u i n now label lt tokens)) = is_configuration s"
  by (simp add: handle_export_artifact_to_node_def Let_def split_beta request_configuration
      split: sum.split storage_location.split option.split)

lemma interchange_step_configuration:
  "interchange_step H s l s' \<Longrightarrow> is_configuration s' = is_configuration s \<or> validate_configuration (is_configuration s') = Inr ()"
proof (induction rule: interchange_step.induct)
  case (configure s c s')
  then show ?case by (auto simp: configure_artifact_interchange_def split: sum.splits if_splits)
next
  case (relay_scope s e now)
  show ?case by (simp add: authorized_relay_endpoint_scope_def Let_def split: relay_configuration.split option.split)
next
  case (create_link s max_ttl t p u i max_bytes ttl now token s' res)
  then show ?case by (auto simp: handle_create_artifact_download_link_def Let_def split_beta split: sum.splits)
next
  case (revoke_node s scope now)
  show ?case by (simp add: revoke_node_transfers_def split: prod.split)
qed (simp_all add: request_configuration handlers_configuration export_configuration cancel_artifact_interchanges_for_process_def
    hard_drain_transfers_def release_process_artifact_hold_def handle_revoke_artifact_download_link_def Let_def split_beta split: option.split)

lemma valid_hosted_direct:
  "validate_configuration c = Inr () \<Longrightarrow> iv_deployment_mode c = HostedPublic \<Longrightarrow> iv_artifact_relay_policy c = DirectRequired"
  by (simp add: validate_configuration_def split: if_splits)

text \<open>
  C36. Admission bounds the interchange: as long as the configuration stays, in every reachable state the
  registry has at most 4096 transfers and no tenant, project, process, receiving node or providing node has
  more transfers under way than the configuration allows.
\<close>

theorem transfers_within_capacity:
  assumes "initial_service s0"
    and "(\<lambda>s s'. (\<exists>l. interchange_step H s l s') \<and> is_configuration s = is_configuration s')\<^sup>*\<^sup>* s0 s"
  shows "within_capacity (is_configuration s) (is_interchange s)"
proof -
  have "within_capacity (is_configuration s0) (is_interchange s0)"
    using assms(1) by (simp add: initial_service_def within_capacity_def count_live_def interchange_registry_default_def)
  with capacity.holds_in_service [OF assms(2) ok_initial [OF assms(1)]] show ?thesis by simp
qed

theorem transfers_within_capacity_witness: "within_capacity (is_configuration example_requested) (is_interchange example_requested)"
proof -
  have c: "is_configuration example_service = is_configuration example_flushed"
    "is_configuration example_flushed = is_configuration example_requested"
    by (simp_all add: example_requested_def example_flushed_def request_configuration)
  have "interchange_step (\<lambda>x. x) example_service None example_flushed"
    unfolding example_flushed_def example_artifacts_def
    by (rule interchange_step.artifacts [where op = "Flush example_flush [] []"])
      (simp_all add: example_service_def artifact_step.flush)
  with example_requested_step [of "\<lambda>x. x"] c
  have "(\<lambda>s s'. (\<exists>l. interchange_step (\<lambda>x. x) s l s') \<and> is_configuration s = is_configuration s')\<^sup>*\<^sup>* example_service example_requested"
    by (intro converse_rtranclp_into_rtranclp [where a = example_service and b = example_flushed] r_into_rtranclp) blast+
  from transfers_within_capacity [OF example_initial this] show ?thesis .
qed

text \<open>
  C37. A hosted deployment moves no artifact bytes over relays: as long as every configuration is a hosted
  public one, whatever nodes report, no byte of an artifact body is ever accepted over a relayed path or over a
  path of unknown kind, and every transfer requires a direct path.
\<close>

theorem hosted_bodies_never_relayed:
  assumes "initial_service s0" and "iv_deployment_mode (is_configuration s0) = HostedPublic"
    and "(\<lambda>s s'. (\<exists>l. interchange_step H s l s') \<and> iv_deployment_mode (is_configuration s') = HostedPublic)\<^sup>*\<^sup>* s0 s"
  shows "ix_relayed_body_bytes (is_interchange s) = 0 \<and> ix_unknown_path_body_bytes (is_interchange s) = 0
    \<and> (\<forall>tid x. bget (ix_transfers (is_interchange s)) tid = Some x \<longrightarrow> tl_relay_policy (destination_lease x) = DirectRequired)"
proof -
  let ?direct = "\<lambda>s s'. (\<exists>l. interchange_step H s l s') \<and> iv_artifact_relay_policy (is_configuration s') = DirectRequired"
  have valid: "validate_configuration (is_configuration s0) = Inr ()" using assms(1) by (simp add: initial_service_def)
  have "?direct\<^sup>*\<^sup>* s0 s \<and> validate_configuration (is_configuration s) = Inr ()"
    using assms(3)
  proof (induction rule: rtranclp_induct)
    case (step y z)
    from step(2) obtain l where l: "interchange_step H y l z" and h: "iv_deployment_mode (is_configuration z) = HostedPublic" by blast
    from interchange_step_configuration [OF l] step(3) have v: "validate_configuration (is_configuration z) = Inr ()" by auto
    with valid_hosted_direct [OF v h] l step(3) show ?case by (auto intro: rtranclp.rtrancl_into_rtrancl)
  qed (use valid in simp)
  moreover have "iv_artifact_relay_policy (is_configuration s0) = DirectRequired \<and> direct_only (is_interchange s0)"
    using valid_hosted_direct [OF valid assms(2)] assms(1)
    by (simp add: initial_service_def direct_only_def interchange_registry_default_def)
  ultimately have "direct_only (is_interchange s)"
    using relays.holds_in_service [OF _ ok_initial [OF assms(1)]] by blast
  then show ?thesis by (simp add: direct_only_def)
qed

definition hosted_service :: interchange_service where
  "hosted_service = example_service\<lparr>is_configuration := interchange_configuration_default
     \<lparr>iv_deployment_mode := HostedPublic, iv_relay := RelayCustom [\<lparr>rl_url = ''https://relay.example'', rl_access_token = None\<rparr>]\<rparr>\<rparr>"

definition hosted_requested :: interchange_service where
  "hosted_requested = fst (handle_request_artifact_interchange (hosted_service\<lparr>is_artifacts := example_artifacts\<rparr>)
     ''t'' ''p'' ''q'' ''n2'' ''app.tar'' 0 100 (Inr ''l'') (Inr example_tokens))"

definition relayed_report :: transfer_report where
  "relayed_report = \<lparr>rp_state = Connecting, rp_bytes_completed = 5, rp_path_kind = PathRelayed, rp_failure_code = None,
     rp_verified_digest = None, rp_verified_size = None\<rparr>"

definition hosted_reported :: interchange_service where
  "hosted_reported = fst (handle_report_artifact_interchange hosted_requested ''t'' ''p'' ''n2'' ''x1'' relayed_report 110)"

lemma hosted_initial: "initial_service hosted_service"
  unfolding initial_service_def by (simp add: hosted_service_def example_service_def) code_simp

lemma hosted_steps:
  "interchange_step H hosted_service None (hosted_service\<lparr>is_artifacts := example_artifacts\<rparr>)"
  "interchange_step H (hosted_service\<lparr>is_artifacts := example_artifacts\<rparr>) (Some ''x1'') hosted_requested"
  "interchange_step H hosted_requested None hosted_reported"
proof -
  show "interchange_step H hosted_service None (hosted_service\<lparr>is_artifacts := example_artifacts\<rparr>)"
    unfolding example_artifacts_def
    by (rule interchange_step.artifacts [where op = "Flush example_flush [] []"])
      (simp_all add: hosted_service_def example_service_def artifact_step.flush)
  have "bget (ix_transfers (is_interchange (hosted_service\<lparr>is_artifacts := example_artifacts\<rparr>))) (tk_transfer_id example_tokens) = None"
    by code_simp
  from interchange_step.request [OF this]
  show "interchange_step H (hosted_service\<lparr>is_artifacts := example_artifacts\<rparr>) (Some ''x1'') hosted_requested"
    unfolding hosted_requested_def by (simp add: example_tokens_def)
  show "interchange_step H hosted_requested None hosted_reported"
    unfolding hosted_reported_def by (rule interchange_step.report)
qed

theorem hosted_bodies_never_relayed_witness:
  "ix_relayed_body_bytes (is_interchange hosted_reported) = 0 \<and> lifecycle_of (is_interchange hosted_reported) ''x1'' = Some XFailed"
proof -
  let ?h = "\<lambda>s. iv_deployment_mode (is_configuration s) = HostedPublic"
  have h: "?h hosted_service" "?h (hosted_service\<lparr>is_artifacts := example_artifacts\<rparr>)" "?h hosted_requested" "?h hosted_reported"
    by (simp_all add: hosted_reported_def hosted_requested_def handlers_configuration request_configuration hosted_service_def)
  have failed: "lifecycle_of (is_interchange hosted_reported) ''x1'' = Some XFailed" by code_simp
  let ?r = "\<lambda>s s'. (\<exists>l. interchange_step (\<lambda>x. x) s l s') \<and> ?h s'"
  have r: "?r hosted_service (hosted_service\<lparr>is_artifacts := example_artifacts\<rparr>)"
    "?r (hosted_service\<lparr>is_artifacts := example_artifacts\<rparr>) hosted_requested" "?r hosted_requested hosted_reported"
    using hosted_steps h by blast+
  have "?r\<^sup>*\<^sup>* hosted_service hosted_reported"
    by (rule converse_rtranclp_into_rtranclp [of ?r, OF r(1) converse_rtranclp_into_rtranclp [of ?r, OF r(2) r_into_rtranclp [of ?r, OF r(3)]]])
  from hosted_bodies_never_relayed [OF hosted_initial h(1) this] failed show ?thesis by simp
qed

section \<open>What a report does to the artifact\<close>

lemma report_opened:
  assumes "handle_report_artifact_interchange s t p n tid rp now = (s', res)" and "open_request s t p n now = (s1, Inr scope)"
  obtains r a ans where "scope = (t, p, n)" and "s1 = expire_interchange_state s now"
    and "report_progress apply_artifact_effect (is_interchange s1) (is_artifacts s1) (t, p, n) tid rp now
           (lifetimes_of (is_configuration s1)) = (r, a, ans)"
    and "is_interchange s' = r"
    and "is_artifacts s' = (case ans of Inl _ \<Rightarrow> a | Inr pr \<Rightarrow> (case ip_terminal_hold pr of None \<Rightarrow> a | Some h \<Rightarrow> fst (remove_hold a (fst h) (snd h))))"
    and "res = map_sum id (\<lambda>pr. ProgressAccepted (ip_record pr) (ip_authorization pr)) ans"
proof -
  from assms(2) have sc: "scope = (t, p, n)" "s1 = expire_interchange_state s now"
    by (auto elim: open_request_cases)
  obtain r a ans where rep: "report_progress apply_artifact_effect (is_interchange s1) (is_artifacts s1) (t, p, n) tid rp now
      (lifetimes_of (is_configuration s1)) = (r, a, ans)" by (metis prod_cases3)
  from assms sc rep show thesis
    by (intro that [OF sc rep]) (auto simp: handle_report_artifact_interchange_def split: sum.splits)
qed

lemma completed_effect:
  assumes "completion_effect apply_artifact_effect a y node rp = Inr a1" and "rp_state rp = Completed"
    and "missing_source_effect apply_artifact_effect a1 y node rp = Inr a2"
  shows "completion_proved y node rp \<and> (\<exists>m. artifact_metadata_of a2 (fst (transfer_identity y)) = Some m
     \<and> mt_digest m = tl_digest (destination_lease y) \<and> mt_size m = tl_size_bytes (destination_lease y)
     \<and> node \<in> set (mt_retaining_nodes m))"
proof -
  have proved: "completion_proved y node rp" by (rule completion_effect_completed [OF assms(1,2)])
  with assms(3) have "a2 = a1" by (simp add: missing_source_effect_def completion_proved_def)
  moreover have "record_verified_retaining_location a (fst (transfer_identity y)) node
      (tl_digest (destination_lease y)) (tl_size_bytes (destination_lease y)) = Some a1"
    using assms(1,2) proved
    by (auto simp: completion_effect_def apply_artifact_effect_def transfer_identity_def completion_proved_def Let_def split: option.splits)
  ultimately show ?thesis using proved
    by (auto simp: record_verified_retaining_location_def artifact_metadata_of_def bmap_simps set_sinsert split: option.splits if_splits)
qed

text \<open>
  C38. A completed transfer is verified: a report that ends a transfer as completed comes from its destination
  with the digest and size the lease names; the artifact is then known under that digest and size with the
  destination among its retaining nodes, and the transfer's hold is gone.
\<close>

theorem completed_transfer_verified:
  assumes "handle_report_artifact_interchange s t p n tid rp now = (s', Inr (ProgressAccepted record authorization))"
    and "bget (ix_transfers (is_interchange (expire_interchange_state s now))) tid = Some x" and "transfer_live x"
    and "tt_state record = Completed"
  shows "let key = (tt_tenant (it_record x), tt_project (it_record x), tt_artifact (it_record x)); l = destination_lease x in
      n = tt_destination_node (it_record x) \<and> rp_verified_digest rp = Some (tl_digest l) \<and> rp_verified_size rp = Some (tl_size_bytes l)
      \<and> (\<exists>m. artifact_metadata_of (is_artifacts s') key = Some m \<and> mt_digest m = tl_digest l \<and> mt_size m = tl_size_bytes l
            \<and> n \<in> set (mt_retaining_nodes m))
      \<and> \<not> held (is_artifacts s') key (ActiveTransfer (tt_transfer_id (it_record x)))"
proof -
  obtain s1 o1 where o: "open_request s t p n now = (s1, o1)" by fastforce
  with assms(1) obtain scope where "o1 = Inr scope" by (cases o1) (simp_all add: handle_report_artifact_interchange_def)
  with o have op: "open_request s t p n now = (s1, Inr scope)" by simp
  obtain r a ans where s1: "s1 = expire_interchange_state s now"
    and rep: "report_progress apply_artifact_effect (is_interchange s1) (is_artifacts s1) (t, p, n) tid rp now
           (lifetimes_of (is_configuration s1)) = (r, a, ans)"
    and a: "is_artifacts s' = (case ans of Inl _ \<Rightarrow> a | Inr pr \<Rightarrow> (case ip_terminal_hold pr of None \<Rightarrow> a | Some h \<Rightarrow> fst (remove_hold a (fst h) (snd h))))"
    and ans: "Inr (ProgressAccepted record authorization) = map_sum id (\<lambda>pr. ProgressAccepted (ip_record pr) (ip_authorization pr)) ans"
    by (rule report_opened [OF assms(1) op])
  from ans obtain pr where pr: "ans = Inr pr" "record = ip_record pr" by (cases ans) auto
  from rep show ?thesis
  proof (cases rule: report_cases)
    case (committed x' y z a1 pr')
    have x': "x' = x" using committed(1) assms(2) by (simp add: s1)
    have y: "y = mark_ready x n (rp_state rp)" using committed(3) x' by simp
    have z: "transfer_state_of z = Completed" using assms(4) pr committed(9,10) by simp
    then have "rp_state rp = Completed"
      using committed(7) assms(3) y by (auto simp: recorded_state_def terminal.simps split: if_splits)
    from completed_effect [OF committed(5) [unfolded snd_conv] this committed(6) [unfolded snd_conv]]
    have eff: "completion_proved y n rp" "\<exists>m. artifact_metadata_of a (fst (transfer_identity y)) = Some m
       \<and> mt_digest m = tl_digest (destination_lease y) \<and> mt_size m = tl_size_bytes (destination_lease y)
       \<and> n \<in> set (mt_retaining_nodes m)" by auto
    have id: "transfer_identity y = transfer_identity x" "active_hold z = active_hold x" "tt_destination_node (it_record y) = tt_destination_node (it_record x)"
      using committed(7) by (simp_all add: y active_hold_identity) (simp add: mark_ready_def Let_def)
    have "ip_terminal_hold pr = Some (active_hold x)" using committed(9,11) pr(1) z id(2) by (simp add: terminal.simps)
    then have art: "is_artifacts s' = fst (remove_hold a (fst (active_hold x)) (snd (active_hold x)))" using a pr(1) by simp
    have key: "fst (transfer_identity x) = (tt_tenant (it_record x), tt_project (it_record x), tt_artifact (it_record x))"
      by (simp add: transfer_identity_def)
    have "artifact_metadata_of (is_artifacts s') = artifact_metadata_of a" by (simp add: art artifact_metadata_of_def fun_eq_iff)
    moreover have "\<not> held (is_artifacts s') (fst (transfer_identity x)) (ActiveTransfer (tt_transfer_id (it_record x)))"
      by (auto simp: art active_hold_identity holds_of_remove_hold)
    ultimately show ?thesis unfolding Let_def key [symmetric]
      using eff id(1,3) by (simp add: y completion_proved_def)
  qed (use assms(2,3) pr s1 in auto)
qed

definition verifying_service :: interchange_service where
  "verifying_service = example_flushed
     \<lparr>is_interchange := interchange_registry_default\<lparr>ix_transfers := [(''x1'', example_transfer Verifying)]\<rparr>\<rparr>"

definition completion_report :: transfer_report where
  "completion_report = \<lparr>rp_state = Completed, rp_bytes_completed = 10, rp_path_kind = PathDirect, rp_failure_code = None,
     rp_verified_digest = Some ''sha256:1'', rp_verified_size = Some 10\<rparr>"

definition completed_service :: "interchange_service \<times> (service_error + interchange_response)" where
  "completed_service = handle_report_artifact_interchange verifying_service ''t'' ''p'' ''n2'' ''x1'' completion_report 110"

theorem completed_transfer_verified_witness:
  "\<exists>m. artifact_metadata_of (is_artifacts (fst completed_service)) (''t'', ''p'', ''app.tar'') = Some m
     \<and> mt_digest m = ''sha256:1'' \<and> ''n2'' \<in> set (mt_retaining_nodes m)"
proof -
  obtain k auth where c: "snd completed_service = Inr (ProgressAccepted k auth)"
    and k: "tt_state k = Completed"
  proof -
    have "case snd completed_service of Inr (ProgressAccepted k _) \<Rightarrow> tt_state k = Completed | _ \<Rightarrow> False" by code_simp
    then show thesis using that by (auto split: sum.splits interchange_response.splits)
  qed
  have rep: "handle_report_artifact_interchange verifying_service ''t'' ''p'' ''n2'' ''x1'' completion_report 110
      = (fst completed_service, Inr (ProgressAccepted k auth))"
    unfolding completed_service_def [symmetric] c [symmetric] by simp
  have x: "bget (ix_transfers (is_interchange (expire_interchange_state verifying_service 110))) ''x1'' = Some (example_transfer Verifying)"
    by code_simp
  have live: "transfer_live (example_transfer Verifying)" by code_simp
  from completed_transfer_verified [OF rep x live k] show ?thesis
    by (simp add: Let_def example_transfer_def example_lease_def) blast
qed

section \<open>Where the interchange falls short\<close>

text \<open>
  C39. A finding: a report over a forbidden relayed path ends its transfer as failed but leaves the transfer's
  hold on the artifact; no later expiry sweep gives it back, because the transfer has already ended.
\<close>

theorem relayed_report_leaks_hold:
  assumes "service_ok s" and "open_request s t p n now = (s1, Inr scope)"
    and "bget (ix_transfers (is_interchange s1)) tid = Some x" and "admit_report x scope rp = Inr None" and "relay_forbidden x rp"
    and "handle_report_artifact_interchange s t p n tid rp now = (s', res)"
  shows "lifecycle_of (is_interchange s') tid = Some XFailed
    \<and> held (is_artifacts s') (tt_tenant (it_record x), tt_project (it_record x), tt_artifact (it_record x)) (ActiveTransfer tid)
    \<and> held (is_artifacts (expire_interchange_state s' later))
        (tt_tenant (it_record x), tt_project (it_record x), tt_artifact (it_record x)) (ActiveTransfer tid)"
proof -
  have ok1: "service_ok s1" by (rule ok_open_request [OF assms(1,2)])
  then have okr: "transfers_ok (is_interchange s1)" by (simp add: service_ok_def)
  let ?key = "fst (transfer_identity x)"
  have live: "transfer_live x" by (rule admit_report_permits(1) [OF assms(4)])
  then have held1: "held (is_artifacts s1) ?key (ActiveTransfer tid)"
    using ok1 assms(3) by (simp add: service_ok_def live_held_def)
  let ?y = "fail_relayed now (mark_ready x (snd (snd scope)) (rp_state rp))"
  have rep: "report_progress apply_artifact_effect (is_interchange s1) (is_artifacts s1) scope tid rp now (lifetimes_of (is_configuration s1))
      = (store_transfer (is_interchange s1) tid ?y, is_artifacts s1, Inl (Protocol (transfer_error_code_as_str RelayPathForbidden)))"
    using assms(3,4,5) by (simp add: report_progress_def relay_forbidden_def Let_def)
  then have s': "s' = s1\<lparr>is_interchange := store_transfer (is_interchange s1) tid ?y\<rparr>"
    using assms(2,6) by (auto simp add: handle_report_artifact_interchange_def)
  have failed: "lifecycle_of (is_interchange s') tid = Some XFailed" by (simp add: s' lifecycle_of_def store_transfer_def bmap_simps)
  have okr': "transfers_ok (is_interchange s')" using ok_transfer_step [OF transfer_step.report [OF rep] okr] by (simp add: s')
  have "held (is_artifacts (expire_interchange_state s' later)) ?key (ActiveTransfer tid)"
  proof -
    have "(?key, ActiveTransfer tid) \<notin> set (snd (expire_transfers (is_interchange s') later (iv_no_progress_timeout (is_configuration s'))
        (iv_absolute_transfer_max (is_configuration s')) terminal_retention_seconds))"
    proof
      assume "(?key, ActiveTransfer tid) \<in> set (snd (expire_transfers (is_interchange s') later (iv_no_progress_timeout (is_configuration s'))
        (iv_absolute_transfer_max (is_configuration s')) terminal_retention_seconds))"
      then obtain z k where z: "(k, z) \<in> set (ix_transfers (is_interchange s'))" "transfer_live z" "tt_transfer_id (it_record z) = tid"
        by (auto simp: expire_transfers_def selected_def overdue_def Let_def active_hold_def)
      then have "bget (ix_transfers (is_interchange s')) k = Some z" by (simp add: in_bget_Some [OF transfers_okD(2) [OF okr']])
      with transfers_okD(4) [OF okr' this] z failed show False by (simp add: lifecycle_of_def terminal.simps)
    qed
    then show ?thesis using held_release_holds held1 by (simp add: expire_interchange_state_def Let_def split_beta s')
  qed
  with failed held1 show ?thesis by (simp add: s' transfer_identity_def)
qed

theorem relayed_report_leaks_hold_witness:
  "held (is_artifacts hosted_reported) (''t'', ''p'', ''app.tar'') (ActiveTransfer ''x1'')
   \<and> held (is_artifacts (expire_interchange_state hosted_reported 900)) (''t'', ''p'', ''app.tar'') (ActiveTransfer ''x1'')"
proof -
  have "interchange_steps (\<lambda>x. x) hosted_service (hosted_service\<lparr>is_artifacts := example_artifacts\<rparr>)"
    unfolding interchange_steps_def using hosted_steps(1) by blast
  from interchange_steps_trans [OF this hosted_steps(2)] have "interchange_steps (\<lambda>x. x) hosted_service hosted_requested" .
  then have ok: "service_ok hosted_requested" by (rule ok_interchange_steps [OF _ ok_initial [OF hosted_initial]])
  obtain s1 res where o: "open_request hosted_requested ''t'' ''p'' ''n2'' 110 = (s1, res)" by fastforce
  have "case open_request hosted_requested ''t'' ''p'' ''n2'' 110 of (s1, Inl _) \<Rightarrow> False
      | (s1, Inr scope) \<Rightarrow> (case bget (ix_transfers (is_interchange s1)) ''x1'' of None \<Rightarrow> False
          | Some x \<Rightarrow> admit_report x scope relayed_report = Inr None \<and> relay_forbidden x relayed_report
              \<and> (tt_tenant (it_record x), tt_project (it_record x), tt_artifact (it_record x)) = (''t'', ''p'', ''app.tar''))"
    by code_simp
  with o obtain scope x where sc: "open_request hosted_requested ''t'' ''p'' ''n2'' 110 = (s1, Inr scope)"
    and x: "bget (ix_transfers (is_interchange s1)) ''x1'' = Some x" "admit_report x scope relayed_report = Inr None" "relay_forbidden x relayed_report"
    and key: "(tt_tenant (it_record x), tt_project (it_record x), tt_artifact (it_record x)) = (''t'', ''p'', ''app.tar'')"
    by (cases res) (auto split: option.splits)
  have rep: "handle_report_artifact_interchange hosted_requested ''t'' ''p'' ''n2'' ''x1'' relayed_report 110
      = (hosted_reported, snd (handle_report_artifact_interchange hosted_requested ''t'' ''p'' ''n2'' ''x1'' relayed_report 110))"
    by (simp add: hosted_reported_def)
  from relayed_report_leaks_hold [OF ok sc x rep] key show ?thesis by simp
qed

text \<open>
  The configuration check does not relate the two lifetimes of a lease: with a stream ticket that lives longer
  than the active lease every new lease fails the bounds its nodes check, although the configuration is valid.
\<close>

lemma valid_configuration_useless_leases:
  assumes "iv_active_transfer_lease_ttl c < iv_transfer_lease_ttl c" and "validate_configuration c = Inr ()"
    and "unat now + 900 < 2 ^ 64"
  shows "validate_lease_bounds (new_lease c scope q dad source sad offset tk now) \<noteq> Inr ()"
proof -
  have b: "unat (iv_transfer_lease_ttl c) \<le> 900" and nz: "iv_active_transfer_lease_ttl c \<noteq> 0"
    using assms(2) by (auto simp: validate_configuration_def configuration_bounds_ok_def word_le_nat_alt word_less_nat_alt not_less split: if_splits)
  have lt: "unat (iv_active_transfer_lease_ttl c) < unat (iv_transfer_lease_ttl c)" using assms(1) by (simp add: word_less_nat_alt)
  have "unat (sat_add now (iv_active_transfer_lease_ttl c)) = unat now + unat (iv_active_transfer_lease_ttl c)"
    "unat (sat_add now (iv_transfer_lease_ttl c)) = unat now + unat (iv_transfer_lease_ttl c)"
    using b lt assms(3) by (simp_all add: unat_sat_add)
  moreover have "0 < unat (iv_active_transfer_lease_ttl c)" using nz by (simp add: unat_gt_0)
  ultimately have "sat_add now (iv_active_transfer_lease_ttl c) < sat_add now (iv_transfer_lease_ttl c)"
    "sat_add now (iv_active_transfer_lease_ttl c) \<noteq> 0"
    using lt by (simp_all add: word_less_nat_alt unat_eq_zero [symmetric] del: unat_eq_zero) 
  then show ?thesis by (cases scope) (auto simp: validate_lease_bounds_def new_lease_def split: sum.splits if_splits)
qed

end
