(* ===== verification/CF_Logs.thy ===== *)
theory CF_Logs
  imports CF_Tasks
begin

text \<open>
  The recent-log store (\<^verbatim>\<open>clusterflux-coordinator/src/service/recent_log_store.rs\<close>): the bounded logs of
  every project, the marks of what was dropped, and the accounting of the streams. Against the complete log
  of everything appended since a process was last cleared, the store is shown never to lose an entry silently: a reader who is not told
  that history was truncated sees every entry after its cursor.
\<close>

section \<open>State\<close>

datatype task_log_stream = Stdout | Stderr

record recent_log_entry =
  le_sequence :: u64
  le_process :: process_id
  le_task :: task_instance_id
  le_stream :: task_log_stream
  le_text :: string
  le_timestamp :: u64
  le_truncated :: bool

type_synonym log_stream_key = "tenant_id \<times> project_id \<times> process_id \<times> task_instance_id \<times> string"

record recent_log_store =
  ls_logs :: "(tenant_id \<times> project_id, recent_log_entry list) bmap"
  ls_dropped_through :: "(process_control_key, u64) bmap"
  ls_accounted_bytes :: "(log_stream_key, u64) bmap"
  ls_truncated_streams :: "log_stream_key bset"
  ls_quota_truncated_streams :: "log_stream_key bset"
  ls_next_sequence :: u64

definition recent_log_store_default :: recent_log_store where
  "recent_log_store_default =
     \<lparr>ls_logs = [], ls_dropped_through = [], ls_accounted_bytes = [], ls_truncated_streams = [],
      ls_quota_truncated_streams = [], ls_next_sequence = 1\<rparr>"

definition max_recent_log_entries_per_process :: nat where "max_recent_log_entries_per_process = 256"

definition max_recent_log_entries_per_project :: nat where "max_recent_log_entries_per_project = 1024"

definition max_recent_log_bytes_per_project :: nat where "max_recent_log_bytes_per_project = 512 * 1024"

definition max_recent_log_chunk_bytes :: nat where "max_recent_log_chunk_bytes = 16 * 1024"

section \<open>Accounting\<close>

definition accounted_bytes :: "recent_log_store \<Rightarrow> log_stream_key \<Rightarrow> u64" where
  "accounted_bytes s key = (case bget (ls_accounted_bytes s) key of None \<Rightarrow> 0 | Some n \<Rightarrow> n)"

definition set_accounted_bytes :: "recent_log_store \<Rightarrow> log_stream_key \<Rightarrow> u64 \<Rightarrow> recent_log_store" where
  "set_accounted_bytes s key bytes = s\<lparr>ls_accounted_bytes := binsert key bytes (ls_accounted_bytes s)\<rparr>"

definition quota_truncated :: "recent_log_store \<Rightarrow> log_stream_key \<Rightarrow> bool" where
  "quota_truncated s key \<longleftrightarrow> key \<in> set (ls_quota_truncated_streams s)"

definition mark_source_truncated :: "recent_log_store \<Rightarrow> log_stream_key \<Rightarrow> recent_log_store \<times> bool" where
  "mark_source_truncated s key =
     (s\<lparr>ls_truncated_streams := sinsert key (ls_truncated_streams s)\<rparr>, key \<notin> set (ls_truncated_streams s))"

definition mark_quota_truncated :: "recent_log_store \<Rightarrow> log_stream_key \<Rightarrow> recent_log_store \<times> bool" where
  "mark_quota_truncated s key =
     (if key \<in> set (ls_quota_truncated_streams s) then (s, False)
      else (s\<lparr>ls_quota_truncated_streams := sinsert key (ls_quota_truncated_streams s),
              ls_truncated_streams := sinsert key (ls_truncated_streams s)\<rparr>, True))"

section \<open>Appending\<close>

text \<open>
  Texts are their UTF-8 bytes. An index is a character boundary at either end of the text and where the
  byte is not a continuation byte; the loop walks down from the chunk limit to the nearest one.
\<close>

definition is_char_boundary :: "string \<Rightarrow> nat \<Rightarrow> bool" where
  "is_char_boundary text i \<longleftrightarrow>
     i = 0 \<or> i = length text \<or> (i < length text \<and> \<not> (128 \<le> (of_char (text ! i) :: nat) \<and> (of_char (text ! i) :: nat) < 192))"

fun char_boundary_below :: "string \<Rightarrow> nat \<Rightarrow> nat" where
  "char_boundary_below text 0 = 0"
| "char_boundary_below text (Suc i) =
     (if is_char_boundary text (Suc i) then Suc i else char_boundary_below text i)"

definition clip_chunk :: "string \<Rightarrow> bool \<Rightarrow> string \<times> bool" where
  "clip_chunk text truncated =
     (if length text > max_recent_log_chunk_bytes
      then (take (char_boundary_below text max_recent_log_chunk_bytes) text, True)
      else (text, truncated))"

text \<open>The first loop drops the oldest entries of the process, the second the oldest of the project.\<close>

function drop_process_entries ::
  "process_id \<Rightarrow> recent_log_entry list \<Rightarrow> recent_log_entry list \<Rightarrow> recent_log_entry list \<times> recent_log_entry list" where
  "drop_process_entries process logs dropped =
     (if length (filter (\<lambda>e. le_process e = process) logs) \<ge> max_recent_log_entries_per_process then
        case find (\<lambda>e. le_process e = process) logs of
          None \<Rightarrow> (logs, dropped)
        | Some e \<Rightarrow> drop_process_entries process (remove_first (\<lambda>e. le_process e = process) logs) (dropped @ [e])
      else (logs, dropped))"
  by pat_completeness auto
termination
proof (relation "measure (\<lambda>(_, logs, _). length logs)")
  fix process and logs :: "recent_log_entry list" and dropped e
  assume "find (\<lambda>e. le_process e = process) logs = Some e"
  then have "length (remove_first (\<lambda>e. le_process e = process) logs) < length logs"
    by (induction logs) (auto split: if_splits)
  then show "((process, remove_first (\<lambda>e. le_process e = process) logs, dropped @ [e]), process, logs, dropped)
      \<in> measure (\<lambda>(_, logs, _). length logs)" by simp
qed simp

declare drop_process_entries.simps [simp del]

definition log_bytes :: "recent_log_entry list \<Rightarrow> nat" where
  "log_bytes logs = sum_list (map (\<lambda>e. length (le_text e)) logs)"

text \<open>
  The sum of the text lengths is a \<open>usize\<close>; the texts lie in memory, so it does not overflow, and only the
  addition saturates.
\<close>

fun drop_project_entries ::
  "nat \<Rightarrow> recent_log_entry list \<Rightarrow> recent_log_entry list \<Rightarrow> recent_log_entry list \<times> recent_log_entry list" where
  "drop_project_entries n [] dropped = ([], dropped)"
| "drop_project_entries n (e # logs) dropped =
     (if length (e # logs) \<ge> max_recent_log_entries_per_project
         \<or> min usize_max (log_bytes (e # logs) + n) > max_recent_log_bytes_per_project
      then drop_project_entries n logs (dropped @ [e]) else (e # logs, dropped))"

definition note_dropped ::
  "tenant_id \<Rightarrow> project_id \<Rightarrow> recent_log_entry \<Rightarrow> (process_control_key, u64) bmap \<Rightarrow> (process_control_key, u64) bmap" where
  "note_dropped tenant project e m =
     (let key = (tenant, project, le_process e) in
      binsert key (case bget m key of None \<Rightarrow> le_sequence e | Some through \<Rightarrow> max through (le_sequence e)) m)"

definition project_logs :: "recent_log_store \<Rightarrow> tenant_id \<Rightarrow> project_id \<Rightarrow> recent_log_entry list" where
  "project_logs s tenant project = (case bget (ls_logs s) (tenant, project) of None \<Rightarrow> [] | Some logs \<Rightarrow> logs)"

definition append_log ::
  "recent_log_store \<Rightarrow> process_control_key \<Rightarrow> task_instance_id \<Rightarrow> task_log_stream \<Rightarrow> string \<Rightarrow> bool \<Rightarrow> u64
     \<Rightarrow> recent_log_store \<times> u64" where
  "append_log s key task stream text truncated timestamp =
     (case key of (tenant, project, process) \<Rightarrow>
        let (text, truncated) = clip_chunk text truncated;
            sequence = ls_next_sequence s;
            (logs, dropped) = drop_process_entries process (project_logs s tenant project) [];
            (logs, dropped) = drop_project_entries (length text) logs dropped;
            e = \<lparr>le_sequence = sequence, le_process = process, le_task = task, le_stream = stream,
                 le_text = text, le_timestamp = timestamp, le_truncated = truncated\<rparr>
        in (s\<lparr>ls_next_sequence := sat_add sequence 1,
              ls_logs := binsert (tenant, project) (logs @ [e]) (ls_logs s),
              ls_dropped_through := fold (note_dropped tenant project) dropped (ls_dropped_through s)\<rparr>, sequence))"

section \<open>Reading and clearing\<close>

definition list_logs ::
  "recent_log_store \<Rightarrow> process_control_key \<Rightarrow> task_instance_id option \<Rightarrow> u64 \<Rightarrow> nat \<Rightarrow> recent_log_entry list \<times> bool" where
  "list_logs s key task after limit =
     (case key of (tenant, project, process) \<Rightarrow>
        (take limit (filter (\<lambda>e. le_process e = process \<and> le_sequence e > after
             \<and> (case task of None \<Rightarrow> True | Some t \<Rightarrow> le_task e = t)) (project_logs s tenant project)),
         case bget (ls_dropped_through s) key of None \<Rightarrow> False | Some through \<Rightarrow> through > after))"

definition clear_task_logs :: "recent_log_store \<Rightarrow> process_control_key \<Rightarrow> task_instance_id \<Rightarrow> recent_log_store" where
  "clear_task_logs s key task =
     (let other = (\<lambda>k :: log_stream_key. case (key, k) of ((t, p, q), (t', p', q', task', _)) \<Rightarrow>
            t' \<noteq> t \<or> p' \<noteq> p \<or> q' \<noteq> q \<or> task' \<noteq> task)
      in s\<lparr>ls_accounted_bytes := bretain (\<lambda>k _. other k) (ls_accounted_bytes s),
           ls_truncated_streams := filter other (ls_truncated_streams s),
           ls_quota_truncated_streams := filter other (ls_quota_truncated_streams s)\<rparr>)"

definition clear_process_logs :: "recent_log_store \<Rightarrow> process_control_key \<Rightarrow> recent_log_store" where
  "clear_process_logs s key =
     (case key of (t, p, q) \<Rightarrow>
        let other = (\<lambda>(t', p', q', _). t' \<noteq> t \<or> p' \<noteq> p \<or> q' \<noteq> q);
            logs = (case bget (ls_logs s) (t, p) of
                None \<Rightarrow> ls_logs s
              | Some entries \<Rightarrow>
                  let kept = filter (\<lambda>e. le_process e \<noteq> q) entries
                  in if kept = [] then bremove (t, p) (ls_logs s) else binsert (t, p) kept (ls_logs s))
        in s\<lparr>ls_dropped_through := bremove key (ls_dropped_through s), ls_logs := logs,
             ls_accounted_bytes := bretain (\<lambda>k _. other k) (ls_accounted_bytes s),
             ls_truncated_streams := filter other (ls_truncated_streams s),
             ls_quota_truncated_streams := filter other (ls_quota_truncated_streams s)\<rparr>)"

section \<open>What the drop loops do\<close>

definition of_process :: "process_id \<Rightarrow> recent_log_entry list \<Rightarrow> recent_log_entry list" where
  "of_process q es = filter (\<lambda>e. le_process e = q) es"

text \<open>Splitting a log into what was dropped and what is left, process by process in order.\<close>

definition splits :: "recent_log_entry list \<Rightarrow> recent_log_entry list \<Rightarrow> recent_log_entry list \<Rightarrow> bool" where
  "splits logs ds logs' \<longleftrightarrow> (\<forall>q. of_process q logs = of_process q ds @ of_process q logs')"

lemma of_process_append [simp]: "of_process q (xs @ ys) = of_process q xs @ of_process q ys"
  by (simp add: of_process_def)

lemma splits_refl: "splits logs [] logs"
  by (simp add: splits_def of_process_def)

lemma splits_trans: "splits logs ds logs' \<Longrightarrow> splits logs' ds' logs'' \<Longrightarrow> splits logs (ds @ ds') logs''"
  by (simp add: splits_def)

lemma splits_front: "splits (e # logs) [e] logs"
  by (simp add: splits_def of_process_def)

lemma splits_remove_first:
  assumes "find (\<lambda>e. le_process e = q) logs = Some e"
  shows "splits logs [e] (remove_first (\<lambda>e. le_process e = q) logs)"
proof -
  have "le_process e = q" using assms by (auto simp: find_Some_iff)
  with assms show ?thesis unfolding splits_def of_process_def by (induction logs) (auto split: if_splits)
qed

lemma drop_process_entries_splits:
  "\<exists>ds. drop_process_entries q logs dropped = (fst (drop_process_entries q logs dropped), dropped @ ds)
     \<and> splits logs ds (fst (drop_process_entries q logs dropped))
     \<and> length (of_process q (fst (drop_process_entries q logs dropped))) < max_recent_log_entries_per_process"
proof (induction q logs dropped rule: drop_process_entries.induct)
  case (1 q logs dropped)
  show ?case
  proof (cases "length (filter (\<lambda>e. le_process e = q) logs) \<ge> max_recent_log_entries_per_process")
    case False
    then have "drop_process_entries q logs dropped = (logs, dropped @ [])" by (simp add: drop_process_entries.simps)
    with False splits_refl show ?thesis by (auto simp: of_process_def)
  next
    case True
    then have "filter (\<lambda>e. le_process e = q) logs \<noteq> []" by (auto simp: max_recent_log_entries_per_process_def)
    then obtain e where e: "find (\<lambda>e. le_process e = q) logs = Some e"
      by (cases "find (\<lambda>e. le_process e = q) logs") (auto simp: find_None_iff filter_empty_conv)
    let ?rest = "drop_process_entries q (remove_first (\<lambda>e. le_process e = q) logs) (dropped @ [e])"
    have step: "drop_process_entries q logs dropped = ?rest" using True e by (subst drop_process_entries.simps) simp
    from 1 [OF True e] obtain ds where ds: "?rest = (fst ?rest, (dropped @ [e]) @ ds)"
      "splits (remove_first (\<lambda>e. le_process e = q) logs) ds (fst ?rest)"
      "length (of_process q (fst ?rest)) < max_recent_log_entries_per_process" by blast
    from splits_trans [OF splits_remove_first [OF e] ds(2)] ds(1,3) show ?thesis
      unfolding step by (intro exI [of _ "e # ds"]) simp
  qed
qed

lemma drop_project_entries_splits:
  "\<exists>ds. drop_project_entries n logs dropped = (fst (drop_project_entries n logs dropped), dropped @ ds)
     \<and> splits logs ds (fst (drop_project_entries n logs dropped))"
proof (induction n logs dropped rule: drop_project_entries.induct)
  case (1 n dropped)
  show ?case by (intro exI [of _ "[]"]) (simp add: splits_refl)
next
  case (2 n e logs dropped)
  show ?case
  proof (cases "length (e # logs) \<ge> max_recent_log_entries_per_project
      \<or> min usize_max (log_bytes (e # logs) + n) > max_recent_log_bytes_per_project")
    case True
    from 2 [OF True] obtain ds where ds:
      "drop_project_entries n logs (dropped @ [e]) = (fst (drop_project_entries n logs (dropped @ [e])), (dropped @ [e]) @ ds)"
      "splits logs ds (fst (drop_project_entries n logs (dropped @ [e])))" by blast
    have step: "drop_project_entries n (e # logs) dropped = drop_project_entries n logs (dropped @ [e])"
      using True by simp
    from splits_trans [OF splits_front ds(2), of e] ds(1) show ?thesis
      unfolding step by (intro exI [of _ "e # ds"]) simp
  next
    case False
    then have "drop_project_entries n (e # logs) dropped = (e # logs, dropped @ [])" by auto
    with splits_refl show ?thesis by (metis fst_conv)
  qed
qed

lemma drop_project_entries_bounds:
  assumes "n \<le> max_recent_log_bytes_per_project"
  shows "length (fst (drop_project_entries n logs dropped)) < max_recent_log_entries_per_project
    \<and> log_bytes (fst (drop_project_entries n logs dropped)) + n \<le> max_recent_log_bytes_per_project"
  using assms
proof (induction n logs dropped rule: drop_project_entries.induct)
  case (2 n e logs dropped)
  show ?case
  proof (cases "length (e # logs) \<ge> max_recent_log_entries_per_project
      \<or> min usize_max (log_bytes (e # logs) + n) > max_recent_log_bytes_per_project")
    case True
    with 2 show ?thesis by simp
  next
    case False
    moreover have "max_recent_log_bytes_per_project < usize_max"
      by (simp add: max_recent_log_bytes_per_project_def usize_max_def)
    ultimately show ?thesis by auto
  qed
qed (simp add: log_bytes_def max_recent_log_entries_per_project_def)

section \<open>The marks of dropped entries\<close>

definition dropped_mark :: "u64 option \<Rightarrow> recent_log_entry list \<Rightarrow> u64 option" where
  "dropped_mark m ds = fold (\<lambda>e m. Some (case m of None \<Rightarrow> le_sequence e | Some x \<Rightarrow> max x (le_sequence e))) ds m"

lemma fold_note_dropped:
  "bget (fold (note_dropped t p) ds m) (t', p', q) =
     (if t' = t \<and> p' = p then dropped_mark (bget m (t', p', q)) (of_process q ds) else bget m (t', p', q))"
  by (induction ds arbitrary: m) (auto simp: note_dropped_def dropped_mark_def of_process_def bmap_simps Let_def)

lemma bwf_fold_note_dropped: "bwf m \<Longrightarrow> bwf (fold (note_dropped t p) ds m)"
  by (induction ds arbitrary: m) (simp_all add: note_dropped_def Let_def)

definition mark_of :: "recent_log_entry list \<Rightarrow> u64 option" where
  "mark_of d = (if d = [] then None else Some (le_sequence (last d)))"

lemma dropped_mark_last:
  "sorted_wrt (<) (map le_sequence (d @ ds)) \<Longrightarrow> dropped_mark (mark_of d) ds = mark_of (d @ ds)"
proof (induction ds arbitrary: d)
  case (Cons e ds)
  have "dropped_mark (mark_of d) (e # ds) = dropped_mark (mark_of (d @ [e])) ds"
  proof (cases "d = []")
    case False
    with Cons.prems have "le_sequence (last d) < le_sequence e"
      by (auto simp: sorted_wrt_append last_map)
    with False show ?thesis by (simp add: dropped_mark_def mark_of_def max_def less_imp_le)
  qed (simp add: dropped_mark_def mark_of_def)
  with Cons.IH [of "d @ [e]"] Cons.prems show ?case by simp
qed (simp add: dropped_mark_def)

section \<open>The store against the complete log\<close>

type_synonym full_log = "process_control_key \<Rightarrow> recent_log_entry list"

definition appended_entry ::
  "recent_log_store \<Rightarrow> process_control_key \<Rightarrow> task_instance_id \<Rightarrow> task_log_stream \<Rightarrow> string \<Rightarrow> bool \<Rightarrow> u64 \<Rightarrow> recent_log_entry" where
  "appended_entry s key task stream text truncated timestamp =
     \<lparr>le_sequence = ls_next_sequence s, le_process = snd (snd key), le_task = task, le_stream = stream,
      le_text = fst (clip_chunk text truncated), le_timestamp = timestamp,
      le_truncated = snd (clip_chunk text truncated)\<rparr>"

text \<open>Steps of the store, next to the log of everything appended to a process since it was last cleared.\<close>

inductive log_step :: "recent_log_store \<times> full_log \<Rightarrow> recent_log_store \<times> full_log \<Rightarrow> bool" where
  append: "log_step (s, full) (fst (append_log s key task stream text truncated timestamp),
     full(key := full key @ [appended_entry s key task stream text truncated timestamp]))"
| clear_process: "log_step (s, full) (clear_process_logs s key, full(key := []))"
| clear_task: "log_step (s, full) (clear_task_logs s key task, full)"
| account: "log_step (s, full) (set_accounted_bytes s k n, full)"
| source_truncated: "log_step (s, full) (fst (mark_source_truncated s k), full)"
| quota_truncated: "log_step (s, full) (fst (mark_quota_truncated s k), full)"

definition retained :: "recent_log_store \<Rightarrow> process_control_key \<Rightarrow> recent_log_entry list" where
  "retained s key = (case key of (t, p, q) \<Rightarrow> of_process q (project_logs s t p))"

definition refines_full :: "recent_log_store \<Rightarrow> full_log \<Rightarrow> bool" where
  "refines_full s full \<longleftrightarrow>
     (\<forall>key. (\<exists>d. full key = d @ retained s key \<and> bget (ls_dropped_through s) key = mark_of d)
        \<and> sorted_wrt (<) (map le_sequence (full key)) \<and> (\<forall>e \<in> set (full key). le_sequence e < ls_next_sequence s))"

definition entries_bounded :: "recent_log_entry list \<Rightarrow> bool" where
  "entries_bounded es \<longleftrightarrow> length es \<le> max_recent_log_entries_per_project
     \<and> log_bytes es \<le> max_recent_log_bytes_per_project
     \<and> (\<forall>e \<in> set es. length (le_text e) \<le> max_recent_log_chunk_bytes)
     \<and> (\<forall>q. length (of_process q es) \<le> max_recent_log_entries_per_process)"

definition logs_bounded :: "recent_log_store \<Rightarrow> bool" where
  "logs_bounded s \<longleftrightarrow> (\<forall>t p. entries_bounded (project_logs s t p))"

lemma char_boundary_below_le: "char_boundary_below xs n \<le> n"
  by (induction xs n rule: char_boundary_below.induct) auto

lemma char_boundary_below_boundary: "is_char_boundary xs (char_boundary_below xs n)"
  by (induction xs n rule: char_boundary_below.induct) (auto simp: is_char_boundary_def)

lemma clip_chunk_length: "length (fst (clip_chunk text truncated)) \<le> max_recent_log_chunk_bytes"
  using char_boundary_below_le [of "text" max_recent_log_chunk_bytes] by (simp add: clip_chunk_def)

text \<open>The whole append at once: what it drops and what it stores.\<close>

lemma append_log_spec:
  obtains ds logs where
    "append_log s (t, p, q) task stream text truncated timestamp =
       (s\<lparr>ls_next_sequence := sat_add (ls_next_sequence s) 1,
          ls_logs := binsert (t, p) (logs @ [appended_entry s (t, p, q) task stream text truncated timestamp]) (ls_logs s),
          ls_dropped_through := fold (note_dropped t p) ds (ls_dropped_through s)\<rparr>, ls_next_sequence s)"
    and "splits (project_logs s t p) ds logs"
    and "length logs < max_recent_log_entries_per_project"
    and "log_bytes logs + length (fst (clip_chunk text truncated)) \<le> max_recent_log_bytes_per_project"
    and "length (of_process q logs) < max_recent_log_entries_per_process"
proof -
  let ?text = "fst (clip_chunk text truncated)"
  obtain logs1 ds1 where d1: "drop_process_entries q (project_logs s t p) [] = (logs1, ds1)"
    and s1: "splits (project_logs s t p) ds1 logs1" and c1: "length (of_process q logs1) < max_recent_log_entries_per_process"
    using drop_process_entries_splits [of q "project_logs s t p" "[]"] by auto
  obtain logs2 ds2 where d2: "drop_project_entries (length ?text) logs1 ds1 = (logs2, ds1 @ ds2)"
    and s2: "splits logs1 ds2 logs2"
    using drop_project_entries_splits [of "length ?text" logs1 ds1] by auto
  have small: "length ?text \<le> max_recent_log_bytes_per_project"
    using clip_chunk_length [of "text" truncated]
    by (simp add: max_recent_log_chunk_bytes_def max_recent_log_bytes_per_project_def)
  from drop_project_entries_bounds [OF small, of logs1 ds1] d2
  have b: "length logs2 < max_recent_log_entries_per_project" "log_bytes logs2 + length ?text \<le> max_recent_log_bytes_per_project"
    by simp_all
  have "length (of_process q logs2) \<le> length (of_process q logs1)" using s2 by (simp add: splits_def)
  with c1 have c2: "length (of_process q logs2) < max_recent_log_entries_per_process" by simp
  have "append_log s (t, p, q) task stream text truncated timestamp =
       (s\<lparr>ls_next_sequence := sat_add (ls_next_sequence s) 1,
          ls_logs := binsert (t, p) (logs2 @ [appended_entry s (t, p, q) task stream text truncated timestamp]) (ls_logs s),
          ls_dropped_through := fold (note_dropped t p) (ds1 @ ds2) (ls_dropped_through s)\<rparr>, ls_next_sequence s)"
    using d1 d2 by (simp add: append_log_def appended_entry_def split_beta Let_def)
  from that [OF this splits_trans [OF s1 s2] b c2] show thesis .
qed

lemma project_logs_binsert:
  "project_logs (s\<lparr>ls_next_sequence := n, ls_logs := binsert (t, p) es (ls_logs s), ls_dropped_through := m\<rparr>) t' p' =
     (if t' = t \<and> p' = p then es else project_logs s t' p')"
  by (simp add: project_logs_def bmap_simps)

lemma project_logs_clear:
  "project_logs (clear_process_logs s (t, p, q)) t' p' =
     (if t' = t \<and> p' = p then filter (\<lambda>e. le_process e \<noteq> q) (project_logs s t p) else project_logs s t' p')"
  by (auto simp: project_logs_def clear_process_logs_def Let_def bmap_simps split: option.split)

lemma refines_append:
  assumes ref: "refines_full s full" and room: "ls_next_sequence s \<noteq> u64_max"
  shows "refines_full (fst (append_log s (t, p, q) task stream tx trunc ts))
    (full((t, p, q) := full (t, p, q) @ [appended_entry s (t, p, q) task stream tx trunc ts]))"
proof -
  define e where "e = appended_entry s (t, p, q) task stream tx trunc ts"
  obtain ds logs where app: "append_log s (t, p, q) task stream tx trunc ts =
       (s\<lparr>ls_next_sequence := sat_add (ls_next_sequence s) 1, ls_logs := binsert (t, p) (logs @ [e]) (ls_logs s),
          ls_dropped_through := fold (note_dropped t p) ds (ls_dropped_through s)\<rparr>, ls_next_sequence s)"
    and sp: "splits (project_logs s t p) ds logs"
    unfolding e_def by (rule append_log_spec)
  define s' where "s' = fst (append_log s (t, p, q) task stream tx trunc ts)"
  define full' where "full' = full((t, p, q) := full (t, p, q) @ [e])"
  have e: "le_sequence e = ls_next_sequence s" "le_process e = q" by (simp_all add: e_def appended_entry_def)
  have lt: "ls_next_sequence s < ls_next_sequence s'"
    using room unat_lt_2_64 [of "ls_next_sequence s"]
    by (auto simp: s'_def app word_less_nat_alt unat_sat_add word_unat_eq_iff unat_u64_max)
  have "(\<exists>d. full' key = d @ retained s' key \<and> bget (ls_dropped_through s') key = mark_of d)
      \<and> sorted_wrt (<) (map le_sequence (full' key)) \<and> (\<forall>x \<in> set (full' key). le_sequence x < ls_next_sequence s')" for key
  proof -
    obtain t' p' q' where key: "key = (t', p', q')" by (cases key)
    from ref obtain d where d: "full key = d @ retained s key" "bget (ls_dropped_through s) key = mark_of d"
      and sorted: "sorted_wrt (<) (map le_sequence (full key))" and below: "\<forall>x \<in> set (full key). le_sequence x < ls_next_sequence s"
      unfolding refines_full_def by metis
    have below': "\<forall>x \<in> set (full' key). le_sequence x < ls_next_sequence s'"
      using below lt e by (auto simp: full'_def intro: less_trans)
    have sorted': "sorted_wrt (<) (map le_sequence (full' key))"
      using sorted below e by (auto simp: full'_def sorted_wrt_append)
    have "\<exists>d. full' key = d @ retained s' key \<and> bget (ls_dropped_through s') key = mark_of d"
    proof (cases "t' = t \<and> p' = p")
      case True
      let ?x = "of_process q' ds"
      have vis: "retained s key = ?x @ of_process q' logs" using sp True by (simp add: key retained_def splits_def)
      have "full' key = (d @ ?x) @ retained s' key"
        using d(1) vis True e by (simp add: full'_def key retained_def s'_def app project_logs_binsert) (auto simp: of_process_def)
      moreover have "bget (ls_dropped_through s') key = mark_of (d @ ?x)"
        using d(2) True dropped_mark_last [of d ?x] sorted d(1) vis
        by (simp add: s'_def app key fold_note_dropped sorted_wrt_append)
      ultimately show ?thesis by blast
    next
      case False
      with d show ?thesis
        by (auto simp: full'_def key retained_def s'_def app project_logs_binsert fold_note_dropped)
    qed
    with below' sorted' show ?thesis by blast
  qed
  then show ?thesis unfolding refines_full_def s'_def full'_def e_def by blast
qed

lemma refines_clear:
  assumes "refines_full s full"
  shows "refines_full (clear_process_logs s (t, p, q)) (full((t, p, q) := []))"
proof -
  have same: "retained (clear_process_logs s (t, p, q)) key = (if key = (t, p, q) then [] else retained s key)" for key
    by (cases key) (auto simp: retained_def project_logs_clear of_process_def filter_empty_conv intro: filter_cong)
  have mark: "bget (ls_dropped_through (clear_process_logs s (t, p, q))) key =
      (if key = (t, p, q) then None else bget (ls_dropped_through s) key)" for key
    by (auto simp: clear_process_logs_def Let_def bmap_simps)
  have next': "ls_next_sequence (clear_process_logs s (t, p, q)) = ls_next_sequence s"
    by (simp add: clear_process_logs_def Let_def)
  show ?thesis
    using assms unfolding refines_full_def same mark next'
    by (auto simp: mark_of_def simp del: split_paired_All)
qed

lemma refines_frame:
  "refines_full s full \<Longrightarrow> ls_logs s' = ls_logs s \<Longrightarrow> ls_dropped_through s' = ls_dropped_through s \<Longrightarrow>
     ls_next_sequence s' = ls_next_sequence s \<Longrightarrow> refines_full s' full"
  by (simp add: refines_full_def retained_def project_logs_def)

lemma log_step_refines:
  "log_step x y \<Longrightarrow> (ls_next_sequence (fst x) \<noteq> u64_max \<Longrightarrow> refines_full (fst x) (snd x)) \<Longrightarrow>
     ls_next_sequence (fst y) \<noteq> u64_max \<Longrightarrow> refines_full (fst y) (snd y)"
proof (induction rule: log_step.induct)
  case (append s full key task stream tx trunc ts)
  obtain t p q where key: "key = (t, p, q)" by (cases key)
  have "ls_next_sequence (fst (append_log s key task stream tx trunc ts)) = sat_add (ls_next_sequence s) 1"
    by (simp add: key append_log_def split_beta Let_def)
  with append(2) have "ls_next_sequence s \<noteq> u64_max" using sat_add_one_less by auto
  moreover from this append(1) have "refines_full s full" by simp
  ultimately show ?case unfolding key fst_conv snd_conv by (intro refines_append)
next
  case (clear_process s full key)
  obtain t p q where key: "key = (t, p, q)" by (cases key)
  have "ls_next_sequence (clear_process_logs s key) = ls_next_sequence s"
    by (simp add: key clear_process_logs_def Let_def)
  with clear_process have "refines_full s full" by simp
  then show ?case unfolding key fst_conv snd_conv by (rule refines_clear)
qed (auto intro: refines_frame simp: clear_task_logs_def set_accounted_bytes_def mark_source_truncated_def
    mark_quota_truncated_def Let_def split: if_splits)

lemma log_steps_refine:
  assumes "log_step\<^sup>*\<^sup>* (recent_log_store_default, \<lambda>_. []) (s, full)" and "ls_next_sequence s \<noteq> u64_max"
  shows "refines_full s full"
proof -
  have "ls_next_sequence (fst y) \<noteq> u64_max \<Longrightarrow> refines_full (fst y) (snd y)"
    if "log_step\<^sup>*\<^sup>* (recent_log_store_default, \<lambda>_. []) y" for y
    using that
  proof (induction rule: rtranclp_induct)
    case base
    show ?case by (auto simp: refines_full_def recent_log_store_default_def retained_def project_logs_def of_process_def mark_of_def)
  next
    case (step y z)
    then show ?case using log_step_refines by blast
  qed
  from this [OF assms(1)] assms(2) show ?thesis by simp
qed

lemma splits_subset: "splits logs ds logs' \<Longrightarrow> set logs' \<subseteq> set logs"
proof
  fix e assume "splits logs ds logs'" and "e \<in> set logs'"
  then have "e \<in> set (of_process (le_process e) logs)" by (simp add: splits_def) (simp add: of_process_def)
  then show "e \<in> set logs" by (simp add: of_process_def)
qed

lemma splits_of_process_le: "splits logs ds logs' \<Longrightarrow> length (of_process q logs') \<le> length (of_process q logs)"
  by (simp add: splits_def)

lemma bounded_append:
  assumes "logs_bounded s"
  shows "logs_bounded (fst (append_log s (t, p, q) task stream tx trunc ts))"
proof -
  define e where "e = appended_entry s (t, p, q) task stream tx trunc ts"
  obtain ds logs where app: "append_log s (t, p, q) task stream tx trunc ts =
       (s\<lparr>ls_next_sequence := sat_add (ls_next_sequence s) 1, ls_logs := binsert (t, p) (logs @ [e]) (ls_logs s),
          ls_dropped_through := fold (note_dropped t p) ds (ls_dropped_through s)\<rparr>, ls_next_sequence s)"
    and sp: "splits (project_logs s t p) ds logs" and len: "length logs < max_recent_log_entries_per_project"
    and bytes: "log_bytes logs + length (fst (clip_chunk tx trunc)) \<le> max_recent_log_bytes_per_project"
    and proc: "length (of_process q logs) < max_recent_log_entries_per_process"
    unfolding e_def by (rule append_log_spec)
  have e: "le_text e = fst (clip_chunk tx trunc)" "le_process e = q" by (simp_all add: e_def appended_entry_def)
  have all: "length (of_process q' (logs @ [e])) \<le> max_recent_log_entries_per_process" for q'
    using assms proc e splits_of_process_le [OF sp, of q'] unfolding logs_bounded_def entries_bounded_def
    by (cases "q' = q") (auto simp: of_process_def intro: order_trans)
  show ?thesis
    using assms len bytes all e clip_chunk_length [of tx trunc] splits_subset [OF sp] unfolding logs_bounded_def entries_bounded_def app fst_conv
    by (auto simp: project_logs_binsert log_bytes_def)
qed

lemma entries_bounded_filter:
  assumes "entries_bounded es"
  shows "entries_bounded (filter P es)"
proof -
  have "log_bytes (filter P es) \<le> log_bytes es" by (induction es) (auto simp: log_bytes_def)
  moreover have "length (of_process q (filter P es)) \<le> length (of_process q es)" for q
    by (induction es) (auto simp: of_process_def)
  moreover have "length (filter P es) \<le> length es" by simp
  ultimately show ?thesis using assms unfolding entries_bounded_def by (meson filter_is_subset le_trans subsetD)
qed

lemma bounded_clear: "logs_bounded s \<Longrightarrow> logs_bounded (clear_process_logs s (t, p, q))"
  by (simp add: logs_bounded_def project_logs_clear entries_bounded_filter)

lemma bounded_frame: "logs_bounded s \<Longrightarrow> ls_logs s' = ls_logs s \<Longrightarrow> logs_bounded s'"
  by (simp add: logs_bounded_def project_logs_def)

lemma log_step_bounded: "log_step x y \<Longrightarrow> logs_bounded (fst x) \<Longrightarrow> logs_bounded (fst y)"
proof (induction rule: log_step.induct)
  case (append s full key task stream tx trunc ts)
  then show ?case by (cases key) (simp add: bounded_append)
next
  case (clear_process s full key)
  then show ?case by (cases key) (simp add: bounded_clear)
qed (auto intro: bounded_frame simp: clear_task_logs_def set_accounted_bytes_def mark_source_truncated_def
    mark_quota_truncated_def Let_def split: if_splits)

definition example_entry :: recent_log_entry where
  "example_entry = appended_entry recent_log_store_default (''t'', ''p'', ''q'') ''main'' Stdout ''hello'' False 7"

definition example_logs :: recent_log_store where
  "example_logs = fst (append_log recent_log_store_default (''t'', ''p'', ''q'') ''main'' Stdout ''hello'' False 7)"

lemma example_logs_step:
  "log_step\<^sup>*\<^sup>* (recent_log_store_default, \<lambda>_. []) (example_logs, (\<lambda>_. [])((''t'', ''p'', ''q'') := [example_entry]))"
  using log_step.append [of recent_log_store_default "\<lambda>_. []" "(''t'', ''p'', ''q'')" "''main''" Stdout "''hello''" False 7]
  unfolding example_logs_def example_entry_def append_Nil by (rule r_into_rtranclp)

text \<open>
  C33. No log entry is lost silently. Against the complete log of a process, that is everything appended
  since the process was last cleared, an unfiltered listing that does not report
  truncated history returns exactly the first entries after the cursor, and one that does returns the first
  of the retained ones; history is reported truncated exactly when an entry after the cursor is gone.
\<close>

theorem recent_logs_no_silent_gap:
  assumes "log_step\<^sup>*\<^sup>* (recent_log_store_default, \<lambda>_. []) (s, full)" and "ls_next_sequence s \<noteq> u64_max"
  shows "case list_logs s key None after limit of (page, truncated) \<Rightarrow>
      (\<exists>gone kept. full key = gone @ kept \<and> page = take limit (filter (\<lambda>e. le_sequence e > after) kept)
         \<and> (truncated \<longleftrightarrow> (\<exists>e \<in> set gone. le_sequence e > after)))
      \<and> (\<not> truncated \<longrightarrow> page = take limit (filter (\<lambda>e. le_sequence e > after) (full key)))"
proof -
  obtain t p q where key: "key = (t, p, q)" by (cases key)
  from log_steps_refine [OF assms] obtain d where d: "full key = d @ retained s key"
    "bget (ls_dropped_through s) key = mark_of d" and sorted: "sorted_wrt (<) (map le_sequence (full key))"
    unfolding refines_full_def by metis
  have page: "list_logs s key None after limit =
      (take limit (filter (\<lambda>e. le_sequence e > after) (retained s key)),
       case mark_of d of None \<Rightarrow> False | Some through \<Rightarrow> through > after)"
    using d(2) by (simp add: key list_logs_def retained_def of_process_def conj_commute)
  have last: "(case mark_of d of None \<Rightarrow> False | Some through \<Rightarrow> through > after) \<longleftrightarrow> (\<exists>e \<in> set d. le_sequence e > after)"
  proof (cases "d = []")
    case False
    then obtain d0 e where snoc: "d = d0 @ [e]" by (metis rev_exhaust)
    with sorted d(1) have "\<forall>x \<in> set d0. le_sequence x < le_sequence e" by (simp add: sorted_wrt_append)
    with snoc show ?thesis by (auto simp: mark_of_def intro: less_trans)
  qed (simp add: mark_of_def)
  have "filter (\<lambda>e. le_sequence e > after) (full key) = filter (\<lambda>e. le_sequence e > after) (retained s key)"
    if "\<not> (\<exists>e \<in> set d. le_sequence e > after)"
    using that d(1) by (simp add: filter_empty_conv)
  then show ?thesis unfolding page prod.case last using d(1) by auto
qed

theorem recent_logs_no_silent_gap_witness:
  "list_logs example_logs (''t'', ''p'', ''q'') None 0 10 = ([example_entry], False)"
proof -
  have "ls_next_sequence example_logs \<noteq> u64_max" by code_simp
  note gap = recent_logs_no_silent_gap [OF example_logs_step this, where key = "(''t'', ''p'', ''q'')" and after = 0 and limit = 10]
  have "\<not> snd (list_logs example_logs (''t'', ''p'', ''q'') None 0 10)" by code_simp
  moreover have "le_sequence example_entry > 0" by code_simp
  ultimately show ?thesis using gap by (simp add: split_beta prod_eq_iff)
qed

text \<open>
  C34. Reachable log stores are bounded: a project keeps at most 1024 entries and 512 KiB of text, a process
  at most 256 entries, and an entry at most 16 KiB of text.
\<close>

theorem recent_logs_bounded:
  assumes "log_step\<^sup>*\<^sup>* (recent_log_store_default, \<lambda>_. []) (s, full)"
  shows "logs_bounded s"
proof -
  have "logs_bounded (fst y)" if "log_step\<^sup>*\<^sup>* (recent_log_store_default, \<lambda>_. []) y" for y
    using that
  proof (induction rule: rtranclp_induct)
    case base
    show ?case by (simp add: logs_bounded_def entries_bounded_def recent_log_store_default_def project_logs_def log_bytes_def of_process_def)
  qed (auto dest: log_step_bounded)
  from this [OF assms] show ?thesis by simp
qed

theorem recent_logs_bounded_witness: "logs_bounded example_logs"
  by (rule recent_logs_bounded [OF example_logs_step])

end
