(* ===== verification/CF_Debug.thy ===== *)
theory CF_Debug
  imports CF_Tasks
begin

text \<open>
  Debug epochs: the debug registry of the coordinator
  (\<^verbatim>\<open>clusterflux-coordinator/src/service/debug_registry.rs\<close> with the records of \<^verbatim>\<open>debug.rs\<close>), the validation of
  what a participant reports (\<^verbatim>\<open>debug/validation.rs\<close>), and the control through which a Wasm instance is frozen
  and resumed (\<^verbatim>\<open>WasmDebugControl\<close> of \<^verbatim>\<open>clusterflux-wasm-runtime/src/lib.rs\<close>). An \<open>Instant\<close> is a number.
\<close>

type_synonym instant = nat

section \<open>Records\<close>

definition freeze_command :: string where
  "freeze_command = ''freeze''"

definition resume_command :: string where
  "resume_command = ''resume''"

datatype debug_acknowledgement_state = AckFrozen | AckRunning | AckFailed

record debug_acknowledgement =
  dk_node :: node_id
  dk_task_definition :: task_definition_id
  dk_task :: task_instance_id
  dk_epoch :: u64
  dk_state :: debug_acknowledgement_state
  dk_current_source_location :: "source_location option"
  dk_stack_frames :: "string list"
  dk_local_values :: "(string \<times> string) list"
  dk_task_args :: "(string \<times> string) list"
  dk_handles :: "(string \<times> string) list"
  dk_command_status :: "string option"
  dk_recent_output :: "string list"
  dk_message :: "string option"

record debug_pending_command =
  dp_epoch :: u64
  dp_command :: string

record debug_epoch_runtime =
  dr_epoch :: u64
  dr_command :: string
  dr_expected :: "task_control_key bset"
  dr_acknowledgements :: "(task_control_key, debug_acknowledgement) bmap"
  dr_deadline :: instant
  dr_lease_deadline :: instant

record debug_breakpoint_plan =
  db_actor :: user_id
  db_revision :: u64
  db_probe_symbols :: "string bset"
  db_probe_locations :: "(string, source_location) bmap"
  db_hit_epoch :: "u64 option"
  db_hit_task :: "task_instance_id option"
  db_hit_probe_symbol :: "string option"

record debug_audit_event =
  da_tenant :: tenant_id
  da_project :: project_id
  da_process :: process_id
  da_task :: "task_instance_id option"
  da_actor :: user_id
  da_operation :: string
  da_allowed :: bool
  da_reason :: string
  da_charged_debug_read_bytes :: u64
  da_used_debug_read_bytes :: u64

record debug_registry =
  dg_audit_events :: "debug_audit_event list"
  dg_epochs :: "(process_control_key, u64) bmap"
  dg_runtime :: "(process_control_key, debug_epoch_runtime) bmap"
  dg_breakpoints :: "(process_control_key, debug_breakpoint_plan) bmap"
  dg_commands :: "(task_control_key, debug_pending_command) bmap"

definition debug_registry_default :: debug_registry where
  "debug_registry_default =
     \<lparr>dg_audit_events = [], dg_epochs = [], dg_runtime = [], dg_breakpoints = [], dg_commands = []\<rparr>"

datatype debug_error =
    NoActiveEpoch u64 process_id
  | WrongEpoch u64 process_id u64
  | NotAParticipant
  | WrongState u64 string debug_acknowledgement_state

section \<open>The registry\<close>

definition set_breakpoint :: "debug_registry \<Rightarrow> process_control_key \<Rightarrow> debug_breakpoint_plan \<Rightarrow> debug_registry" where
  "set_breakpoint g key plan = g\<lparr>dg_breakpoints := binsert key plan (dg_breakpoints g)\<rparr>"

definition record_breakpoint_hit ::
  "debug_registry \<Rightarrow> process_control_key \<Rightarrow> u64 \<Rightarrow> task_instance_id \<Rightarrow> string \<Rightarrow> debug_registry" where
  "record_breakpoint_hit g key epoch task probe_symbol =
     g\<lparr>dg_breakpoints := bupdate key
        (\<lambda>plan. plan\<lparr>db_hit_epoch := Some epoch, db_hit_task := Some task, db_hit_probe_symbol := Some probe_symbol\<rparr>)
        (dg_breakpoints g)\<rparr>"

definition take_command :: "debug_registry \<Rightarrow> task_control_key \<Rightarrow> debug_registry \<times> debug_pending_command option" where
  "take_command g key = (g\<lparr>dg_commands := bremove key (dg_commands g)\<rparr>, bget (dg_commands g) key)"

definition queue_command :: "debug_registry \<Rightarrow> task_control_key \<Rightarrow> debug_pending_command \<Rightarrow> debug_registry" where
  "queue_command g key command = g\<lparr>dg_commands := binsert key command (dg_commands g)\<rparr>"

definition clear_task_command :: "debug_registry \<Rightarrow> task_control_key \<Rightarrow> debug_registry" where
  "clear_task_command g key = g\<lparr>dg_commands := bremove key (dg_commands g)\<rparr>"

definition clear_epoch_commands :: "debug_registry \<Rightarrow> process_control_key \<Rightarrow> u64 \<Rightarrow> debug_registry" where
  "clear_epoch_commands g process_key epoch =
     g\<lparr>dg_commands := bretain (\<lambda>key pending. \<not> control_in process_key key \<or> dp_epoch pending \<noteq> epoch) (dg_commands g)\<rparr>"

definition set_epoch :: "debug_registry \<Rightarrow> process_control_key \<Rightarrow> u64 \<Rightarrow> debug_registry" where
  "set_epoch g key epoch = g\<lparr>dg_epochs := binsert key epoch (dg_epochs g)\<rparr>"

definition expired_freeze_leases :: "debug_registry \<Rightarrow> instant \<Rightarrow> (process_control_key \<times> u64) list" where
  "expired_freeze_leases g now =
     map (\<lambda>(key, r). (key, dr_epoch r))
       (filter (\<lambda>(_, r). dr_command r = freeze_command \<and> now \<ge> dr_lease_deadline r) (dg_runtime g))"

definition set_runtime :: "debug_registry \<Rightarrow> process_control_key \<Rightarrow> debug_epoch_runtime \<Rightarrow> debug_registry" where
  "set_runtime g key r = g\<lparr>dg_runtime := binsert key r (dg_runtime g)\<rparr>"

definition remove_runtime_participant :: "debug_registry \<Rightarrow> process_control_key \<Rightarrow> task_control_key \<Rightarrow> debug_registry" where
  "remove_runtime_participant g process_key participant =
     g\<lparr>dg_runtime := bupdate process_key
          (\<lambda>r. r\<lparr>dr_expected := sremove participant (dr_expected r),
                dr_acknowledgements := bremove participant (dr_acknowledgements r)\<rparr>) (dg_runtime g),
       dg_commands := bremove participant (dg_commands g)\<rparr>"

definition validate_acknowledgement_source ::
  "debug_registry \<Rightarrow> process_control_key \<Rightarrow> task_control_key \<Rightarrow> process_id \<Rightarrow> u64 \<Rightarrow> debug_error + unit" where
  "validate_acknowledgement_source g key participant process epoch =
     (case bget (dg_runtime g) key of
        None \<Rightarrow> Inl (NoActiveEpoch epoch process)
      | Some r \<Rightarrow>
        if dr_epoch r \<noteq> epoch then Inl (WrongEpoch epoch process (dr_epoch r))
        else if participant \<notin> set (dr_expected r) then Inl NotAParticipant
        else Inr ())"

definition acknowledgement_fits :: "string \<Rightarrow> debug_acknowledgement_state \<Rightarrow> bool" where
  "acknowledgement_fits command st \<longleftrightarrow>
     command = freeze_command \<and> st = AckFrozen \<or> command = resume_command \<and> st = AckRunning \<or> st = AckFailed"

text \<open>The runtime looked up after the validation is unwrapped: \<open>None\<close> is the panic.\<close>

definition record_acknowledgement ::
  "debug_registry \<Rightarrow> process_control_key \<Rightarrow> task_control_key \<Rightarrow> process_id \<Rightarrow> debug_acknowledgement
     \<Rightarrow> (debug_registry \<times> (debug_error + unit)) option" where
  "record_acknowledgement g key participant process ack =
     (case validate_acknowledgement_source g key participant process (dk_epoch ack) of
        Inl e \<Rightarrow> Some (g, Inl e)
      | Inr _ \<Rightarrow>
        (case bget (dg_runtime g) key of
           None \<Rightarrow> None
         | Some r \<Rightarrow>
           if \<not> acknowledgement_fits (dr_command r) (dk_state ack)
           then Some (g, Inl (WrongState (dk_epoch ack) (dr_command r) (dk_state ack)))
           else Some (g\<lparr>dg_runtime := bupdate key
                     (\<lambda>r. r\<lparr>dr_acknowledgements := binsert participant ack (dr_acknowledgements r)\<rparr>) (dg_runtime g)\<rparr>,
                   Inr ())))"

definition debug_clear_process :: "debug_registry \<Rightarrow> process_control_key \<Rightarrow> debug_registry" where
  "debug_clear_process g key =
     g\<lparr>dg_epochs := bremove key (dg_epochs g), dg_runtime := bremove key (dg_runtime g),
       dg_breakpoints := bremove key (dg_breakpoints g),
       dg_commands := bretain (\<lambda>task _. \<not> control_in key task) (dg_commands g)\<rparr>"

definition same_audit_process :: "debug_audit_event \<Rightarrow> debug_audit_event \<Rightarrow> bool" where
  "same_audit_process a b \<longleftrightarrow> da_tenant a = da_tenant b \<and> da_project a = da_project b \<and> da_process a = da_process b"

definition remove_audit_for_process :: "debug_registry \<Rightarrow> process_control_key \<Rightarrow> debug_registry" where
  "remove_audit_for_process g key =
     g\<lparr>dg_audit_events := filter (\<lambda>e. (da_tenant e, da_project e, da_process e) \<noteq> key) (dg_audit_events g)\<rparr>"

definition append_audit :: "debug_registry \<Rightarrow> debug_audit_event \<Rightarrow> nat \<Rightarrow> nat \<Rightarrow> debug_registry" where
  "append_audit g e per_process_capacity total_capacity =
     g\<lparr>dg_audit_events := append_bounded same_audit_process per_process_capacity total_capacity e (dg_audit_events g)\<rparr>"

section \<open>Validation of reports\<close>

definition runtime_all_in_state :: "debug_epoch_runtime \<Rightarrow> debug_acknowledgement_state \<Rightarrow> bool" where
  "runtime_all_in_state r st =
     list_all (\<lambda>key. map_option dk_state (bget (dr_acknowledgements r) key) = Some st) (dr_expected r)"

definition validate_probe_symbols :: "string list \<Rightarrow> string + string bset" where
  "validate_probe_symbols symbols =
     (if length symbols > 128 then Inl ''debug breakpoint request exceeds 128 probe symbols''
      else if \<not> list_all probe_symbol_ok symbols then Inl ''debug breakpoint probe symbol is invalid''
      else Inr (sextend symbols []))"

definition pair_bytes :: "(string \<times> string) list \<Rightarrow> nat" where
  "pair_bytes ps = sum_list (map (\<lambda>(name, v). length name + length v) ps)"

definition text_bytes :: "string list \<Rightarrow> nat" where
  "text_bytes ts = sum_list (map length ts)"

definition invalid_source_location :: "source_location \<Rightarrow> bool" where
  "invalid_source_location l \<longleftrightarrow>
     sl_source_path l = [] \<or> length (sl_source_path l) > 512 \<or> hd (sl_source_path l) = CHR ''/''
     \<or> list_ex (\<lambda>part. part = ''..'') (str_split (CHR ''/'') (sl_source_path l))
     \<or> sl_line l = 0 \<or> sl_column l = Some 0 \<or> str_is_blank (sl_probe_id l) \<or> length (sl_probe_id l) > 256"

definition snapshot_bytes :: "debug_acknowledgement \<Rightarrow> nat" where
  "snapshot_bytes k =
     text_bytes (dk_stack_frames k) + pair_bytes (dk_local_values k) + pair_bytes (dk_task_args k) + pair_bytes (dk_handles k)
     + text_bytes (dk_recent_output k)
     + (case dk_command_status k of None \<Rightarrow> 0 | Some s \<Rightarrow> length s) + (case dk_message k of None \<Rightarrow> 0 | Some s \<Rightarrow> length s)
     + (case dk_current_source_location k of None \<Rightarrow> 0 | Some l \<Rightarrow> length (sl_source_path l) + length (sl_probe_id l) + 16)"

definition validate_debug_snapshot :: "debug_acknowledgement \<Rightarrow> string + unit" where
  "validate_debug_snapshot k =
     (if list_ex (\<lambda>n. n > 128) [length (dk_stack_frames k), length (dk_local_values k), length (dk_task_args k),
           length (dk_handles k), length (dk_recent_output k)]
      then Inl ''debug participant snapshot exceeds the 128-item field limit''
      else if snapshot_bytes k > 16 * 1024
      then Inl (''debug participant snapshot is '' @ nat_to_string (snapshot_bytes k) @ '' bytes; maximum is ''
             @ nat_to_string (16 * 1024))
      else if (case dk_current_source_location k of None \<Rightarrow> False | Some l \<Rightarrow> invalid_source_location l)
      then Inl ''debug participant source location is invalid''
      else Inr ())"

section \<open>The control of a Wasm instance\<close>

text \<open>
  The state behind the mutex of \<open>WasmDebugControl\<close>; every operation is one critical section. Condition variables
  only wake a waiter, which tests its condition again, so a wait is a step that is enabled while its condition
  fails.
\<close>

record wasm_debug_control =
  wc_requested_epoch :: "u64 option"
  wc_frozen_epoch :: "u64 option"
  wc_resumed_through_epoch :: u64
  wc_execution_armed :: bool
  wc_quiescent_host_boundary_depth :: nat
  wc_frozen_at_host_boundary :: bool
  wc_stack_frames :: "string list"
  wc_current_source_location :: "source_location option"

definition wasm_debug_control_default :: wasm_debug_control where
  "wasm_debug_control_default =
     \<lparr>wc_requested_epoch = None, wc_frozen_epoch = None, wc_resumed_through_epoch = 0, wc_execution_armed = False,
      wc_quiescent_host_boundary_depth = 0, wc_frozen_at_host_boundary = False, wc_stack_frames = [],
      wc_current_source_location = None\<rparr>"

definition request_freeze :: "wasm_debug_control \<Rightarrow> u64 \<Rightarrow> wasm_debug_control" where
  "request_freeze w epoch =
     (if case wc_requested_epoch w of None \<Rightarrow> True | Some requested \<Rightarrow> epoch \<ge> requested
      then let w = w\<lparr>wc_requested_epoch := Some epoch\<rparr> in
        if (\<not> wc_execution_armed w \<or> wc_quiescent_host_boundary_depth w > 0) \<and> wc_resumed_through_epoch w < epoch
        then w\<lparr>wc_frozen_epoch := Some epoch, wc_frozen_at_host_boundary := True\<rparr>
        else w
      else w)"

definition request_resume :: "wasm_debug_control \<Rightarrow> u64 \<Rightarrow> wasm_debug_control" where
  "request_resume w epoch =
     (let w = w\<lparr>wc_resumed_through_epoch := max (wc_resumed_through_epoch w) epoch\<rparr> in
      if wc_frozen_epoch w = Some epoch \<and> wc_frozen_at_host_boundary w
      then w\<lparr>wc_frozen_epoch := None, wc_frozen_at_host_boundary := False\<rparr> else w)"

definition resume_requested :: "wasm_debug_control \<Rightarrow> u64 \<Rightarrow> bool" where
  "resume_requested w epoch \<longleftrightarrow> wc_resumed_through_epoch w \<ge> epoch"

definition mark_frozen :: "wasm_debug_control \<Rightarrow> u64 \<Rightarrow> wasm_debug_control" where
  "mark_frozen w epoch = w\<lparr>wc_frozen_epoch := Some epoch, wc_frozen_at_host_boundary := False\<rparr>"

definition mark_running :: "wasm_debug_control \<Rightarrow> u64 \<Rightarrow> wasm_debug_control" where
  "mark_running w epoch =
     (if wc_frozen_epoch w = Some epoch then w\<lparr>wc_frozen_epoch := None, wc_frozen_at_host_boundary := False\<rparr> else w)"

definition record_source_location :: "wasm_debug_control \<Rightarrow> source_location option \<Rightarrow> wasm_debug_control" where
  "record_source_location w location =
     (case location of None \<Rightarrow> w | Some _ \<Rightarrow> w\<lparr>wc_current_source_location := location\<rparr>)"

text \<open>The waits of the instance at its host boundary, while no abort is signalled.\<close>

definition boundary_blocked :: "wasm_debug_control \<Rightarrow> bool" where
  "boundary_blocked w \<longleftrightarrow> wc_frozen_at_host_boundary w \<and> wc_frozen_epoch w \<noteq> None"

definition arm_execution :: "wasm_debug_control \<Rightarrow> wasm_debug_control" where
  "arm_execution w = w\<lparr>wc_execution_armed := True\<rparr>"

definition pause_needed :: "wasm_debug_control \<Rightarrow> u64 option" where
  "pause_needed w =
     (case wc_requested_epoch w of
        None \<Rightarrow> None | Some epoch \<Rightarrow> if wc_resumed_through_epoch w \<ge> epoch then None else Some epoch)"

text \<open>\<open>pause_at_requested_epoch\<close>: the section that freezes, and the one after its wait that resumes.\<close>

definition pause_freeze :: "wasm_debug_control \<Rightarrow> wasm_debug_control" where
  "pause_freeze w =
     (case pause_needed w of
        None \<Rightarrow> w | Some epoch \<Rightarrow> w\<lparr>wc_frozen_epoch := Some epoch, wc_frozen_at_host_boundary := False\<rparr>)"

definition pause_resume :: "wasm_debug_control \<Rightarrow> wasm_debug_control" where
  "pause_resume w = w\<lparr>wc_frozen_epoch := None\<rparr>"

definition enter_quiescent_host_boundary :: "wasm_debug_control \<Rightarrow> wasm_debug_control" where
  "enter_quiescent_host_boundary w =
     (let w = w\<lparr>wc_quiescent_host_boundary_depth := wc_quiescent_host_boundary_depth w + 1\<rparr> in
      case pause_needed w of
        None \<Rightarrow> w | Some epoch \<Rightarrow> w\<lparr>wc_frozen_epoch := Some epoch, wc_frozen_at_host_boundary := True\<rparr>)"

definition leave_quiescent_host_boundary :: "wasm_debug_control \<Rightarrow> wasm_debug_control" where
  "leave_quiescent_host_boundary w =
     (let w = w\<lparr>wc_quiescent_host_boundary_depth := wc_quiescent_host_boundary_depth w - 1\<rparr> in
      if wc_quiescent_host_boundary_depth w = 0 \<and> wc_frozen_at_host_boundary w
      then w\<lparr>wc_frozen_epoch := None, wc_frozen_at_host_boundary := False\<rparr> else w)"

section \<open>Lemmas on the registry\<close>

lemma commands_differ [simp]: "freeze_command \<noteq> resume_command" "resume_command \<noteq> freeze_command"
  by (simp_all add: freeze_command_def resume_command_def)

interpretation audit_history: scoped_history same_audit_process
  by unfold_locales (auto simp: same_audit_process_def)

lemma record_acknowledgement_total: "record_acknowledgement g key participant process ack \<noteq> None"
  by (auto simp: record_acknowledgement_def validate_acknowledgement_source_def split: option.splits sum.splits if_splits)

lemma record_acknowledgement_Inr:
  "record_acknowledgement g key participant process ack = Some (g', Inr ()) \<longleftrightarrow>
     (\<exists>r. bget (dg_runtime g) key = Some r \<and> dr_epoch r = dk_epoch ack \<and> participant \<in> set (dr_expected r)
        \<and> acknowledgement_fits (dr_command r) (dk_state ack)
        \<and> g' = g\<lparr>dg_runtime := bupdate key
             (\<lambda>r. r\<lparr>dr_acknowledgements := binsert participant ack (dr_acknowledgements r)\<rparr>) (dg_runtime g)\<rparr>)"
  by (auto simp: record_acknowledgement_def validate_acknowledgement_source_def split: option.splits)

text \<open>Clearing a process leaves no trace of it and touches no other.\<close>

lemma debug_clear_process_exact:
  "bget (dg_epochs (debug_clear_process g key)) k = (if k = key then None else bget (dg_epochs g) k)"
  "bget (dg_runtime (debug_clear_process g key)) k = (if k = key then None else bget (dg_runtime g) k)"
  "bget (dg_breakpoints (debug_clear_process g key)) k = (if k = key then None else bget (dg_breakpoints g) k)"
  "dg_audit_events (debug_clear_process g key) = dg_audit_events g"
  by (simp_all add: debug_clear_process_def bget_bremove)

lemma debug_clear_process_commands:
  "bwf (dg_commands g) \<Longrightarrow>
     bget (dg_commands (debug_clear_process g key)) k = (if control_in key k then None else bget (dg_commands g) k)"
  by (auto simp: debug_clear_process_def bget_bretain split: option.split)

section \<open>Freezing and resuming an instance\<close>

text \<open>
  The control under the discipline of the coordinator, which asks to freeze an increasing epoch and to resume
  it before the next one, interleaved with the steps of the instance: \<open>control_run e b w p\<close> is a reachable
  control \<open>w\<close> with \<open>e\<close> the last epoch, \<open>b\<close> whether it is still to be resumed, and \<open>p\<close> the epoch the instance
  waits for inside \<open>pause_at_requested_epoch\<close>.
\<close>

inductive control_run :: "u64 \<Rightarrow> bool \<Rightarrow> wasm_debug_control \<Rightarrow> u64 option \<Rightarrow> bool" where
  start: "control_run 0 False wasm_debug_control_default None"
| freeze: "control_run e False w p \<Longrightarrow> e < e' \<Longrightarrow> control_run e' True (request_freeze w e') p"
| resume: "control_run e True w p \<Longrightarrow> control_run e False (request_resume w e) p"
| arm: "control_run e b w p \<Longrightarrow> control_run e b (arm_execution w) p"
| pause: "control_run e b w None \<Longrightarrow> wc_execution_armed w \<Longrightarrow> wc_quiescent_host_boundary_depth w = 0 \<Longrightarrow>
    \<not> boundary_blocked w \<Longrightarrow> control_run e b (pause_freeze w) (pause_needed w)"
| unpause: "control_run e b w (Some q) \<Longrightarrow> wc_resumed_through_epoch w \<ge> q \<Longrightarrow> control_run e b (pause_resume w) None"
| enter: "control_run e b w None \<Longrightarrow> wc_execution_armed w \<Longrightarrow> \<not> boundary_blocked w \<Longrightarrow>
    control_run e b (enter_quiescent_host_boundary w) None"
| leave: "control_run e b w None \<Longrightarrow> wc_quiescent_host_boundary_depth w > 0 \<Longrightarrow> \<not> boundary_blocked w \<Longrightarrow>
    control_run e b (leave_quiescent_host_boundary w) None"
| location: "control_run e b w p \<Longrightarrow> control_run e b (record_source_location w l) p"

definition control_ok :: "u64 \<Rightarrow> bool \<Rightarrow> wasm_debug_control \<Rightarrow> u64 option \<Rightarrow> bool" where
  "control_ok e b w p \<longleftrightarrow>
     (wc_requested_epoch w = (if e = 0 then None else Some e))
     \<and> (if b then wc_resumed_through_epoch w < e else wc_resumed_through_epoch w = e)
     \<and> (wc_frozen_at_host_boundary w \<longrightarrow> b \<and> wc_frozen_epoch w = Some e)
     \<and> (case p of
          None \<Rightarrow> True
        | Some q \<Rightarrow> wc_execution_armed w \<and> wc_quiescent_host_boundary_depth w = 0 \<and> \<not> wc_frozen_at_host_boundary w
            \<and> (q \<le> wc_resumed_through_epoch w \<or> b \<and> q = e))"

lemma control_run_ok: "control_run e b w p \<Longrightarrow> control_ok e b w p"
proof (induction rule: control_run.induct)
  case (freeze e w p e')
  then show ?case by (auto simp: control_ok_def request_freeze_def Let_def split: option.splits if_splits)
next
  case (pause e b w)
  then show ?case by (auto simp: control_ok_def pause_freeze_def pause_needed_def split: option.splits if_splits)
next
  case start
  show ?case by (simp add: control_ok_def wasm_debug_control_default_def)
next
  case (resume e w p)
  then have "wc_resumed_through_epoch w < e" by (simp add: control_ok_def)
  then have m: "max (wc_resumed_through_epoch w) e = e" by (meson max_absorb2 order.strict_implies_order)
  from \<open>wc_resumed_through_epoch w < e\<close> have le: "q \<le> e" if "q \<le> wc_resumed_through_epoch w" for q using that by (meson order.strict_implies_order order_trans)
  show ?case
  proof (cases "wc_frozen_at_host_boundary w")
    case True
    with resume.IH m show ?thesis by (simp add: control_ok_def request_resume_def Let_def split: option.splits)
  next
    case False
    with resume.IH m show ?thesis
      by (simp add: control_ok_def request_resume_def Let_def split: option.splits) (metis le order_refl)
  qed
next
  case (arm e b w p)
  then show ?case by (auto simp: control_ok_def arm_execution_def split: option.splits)
next
  case (unpause e b w q)
  then show ?case by (auto simp: control_ok_def pause_resume_def)
next
  case (enter e b w)
  then show ?case
    by (auto simp: control_ok_def enter_quiescent_host_boundary_def pause_needed_def Let_def split: option.splits if_splits)
next
  case (leave e b w)
  then show ?case by (auto simp: control_ok_def leave_quiescent_host_boundary_def Let_def)
next
  case (location e b w p l)
  then show ?case by (cases l) (auto simp: control_ok_def record_source_location_def split: option.splits)
qed

text \<open>Once the epoch is resumed every wait of the instance is over.\<close>

lemma resumed_instance_runs:
  assumes "control_run e False w p"
  shows "\<not> boundary_blocked w \<and> (case p of None \<Rightarrow> True | Some q \<Rightarrow> resume_requested w q)"
  using control_run_ok [OF assms]
  by (auto simp: control_ok_def boundary_blocked_def resume_requested_def split: option.splits)

text \<open>While the epoch is to be resumed, an instance at its host boundary or about to run guest code stays put.\<close>

lemma frozen_instance_waits:
  assumes "control_run e True w p"
  shows "wc_frozen_epoch w = Some e \<or> pause_needed w = Some e" and "\<not> resume_requested w e"
  using control_run_ok [OF assms] by (auto simp: control_ok_def pause_needed_def resume_requested_def)

end
