(* ===== verification/Spec2Isabelle.thy ===== *)
theory Spec2Isabelle
  imports CF_Admission CF_Logs CF_Debug
begin

text \<open>
  Clusterflux coordinates task attempts over enrolled nodes: a coordinator keeps identities, places and fences
  work, accounts quota and brokers artifact transfers, while nodes execute and keep the artifact bytes. This
  development models the coordinator's state with the operations on it, the core library both sides share, and
  the debug control of a Wasm instance. Paths below are relative to \<^verbatim>\<open>src/crates\<close>; \<^verbatim>\<open>service\<close> stands for
  \<^verbatim>\<open>clusterflux-coordinator/src/service\<close>, \<^verbatim>\<open>core\<close> for \<^verbatim>\<open>clusterflux-core/src\<close>.

  \<^bold>\<open>Parts and theories.\<close> Every theory has its records and data types, one definition for each operation, and the
  lemmas on them; it imports the theories of the parts it calls.
  \<^item> \<^verbatim>\<open>CF_Prelude\<close>: machine integers with their saturating operations, the ordered maps and sets of the Rust
    collections as ascending association lists, bounded histories and queues.
  \<^item> \<^verbatim>\<open>CF_Ids\<close>, \<^verbatim>\<open>CF_Auth\<close>: identifiers, digests and signed requests (\<^verbatim>\<open>core/ids.rs\<close>, \<^verbatim>\<open>digest.rs\<close>, \<^verbatim>\<open>auth.rs\<close>).
  \<^item> \<^verbatim>\<open>CF_Limits\<close>, \<^verbatim>\<open>CF_Quota\<close>: meters, log buffers and the windowed quota (\<^verbatim>\<open>core/limits.rs\<close>,
    \<^verbatim>\<open>service/quota.rs\<close>).
  \<^item> \<^verbatim>\<open>CF_Replay\<close>: nonce windows, admin and agent requests (\<^verbatim>\<open>service/replay_registry.rs\<close>, \<^verbatim>\<open>service/admin.rs\<close>,
    \<^verbatim>\<open>clusterflux-coordinator/src/agents.rs\<close>).
  \<^item> \<^verbatim>\<open>CF_Coordinator\<close>: tenants, projects, processes, node identities and sessions
    (\<^verbatim>\<open>clusterflux-coordinator/src/lib.rs\<close>, \<^verbatim>\<open>sessions.rs\<close>).
  \<^item> \<^verbatim>\<open>CF_Scheduler\<close>, \<^verbatim>\<open>CF_Nodes\<close>: capabilities, placement, the node registry and node requests
    (\<^verbatim>\<open>core/capability.rs\<close>, \<^verbatim>\<open>scheduler.rs\<close>, \<^verbatim>\<open>node_lifecycle.rs\<close>; \<^verbatim>\<open>service/node_registry.rs\<close>, \<^verbatim>\<open>nodes.rs\<close>).
  \<^item> \<^verbatim>\<open>CF_Vfs\<close>, \<^verbatim>\<open>CF_Execution\<close>: the virtual file system with restart checkpoints, and the values, specifications,
    guest requests and join results at the boundary of a task (\<^verbatim>\<open>core/vfs.rs\<close>, \<^verbatim>\<open>checkpoint.rs\<close>, \<^verbatim>\<open>execution.rs\<close>).
  \<^item> \<^verbatim>\<open>CF_Assignments\<close>, \<^verbatim>\<open>CF_Tasks\<close>, \<^verbatim>\<open>CF_Processes\<close>, \<^verbatim>\<open>CF_Logs\<close>: the durable assignment authority and the
    registries of tasks, processes and recent logs (\<^verbatim>\<open>service/task_registry.rs\<close>, \<^verbatim>\<open>process_registry.rs\<close>,
    \<^verbatim>\<open>recent_log_store.rs\<close>).
  \<^item> \<^verbatim>\<open>CF_Artifacts\<close>, \<^verbatim>\<open>CF_Transfer\<close>, \<^verbatim>\<open>CF_Interchange\<close>, \<^verbatim>\<open>CF_Admission\<close>: artifact metadata with holds and
    links, the transfer lifecycle, the requests over both, the revocation of a node in every registry, and the
    invariants of the service (\<^verbatim>\<open>service/artifact_registry.rs\<close>, \<^verbatim>\<open>interchange_registry.rs\<close>, \<^verbatim>\<open>interchange.rs\<close>,
    \<^verbatim>\<open>artifacts.rs\<close>).
  \<^item> \<^verbatim>\<open>CF_Debug\<close>: the debug registry with the checks of what participants report, and the control that freezes
    and resumes a Wasm instance (\<^verbatim>\<open>service/debug_registry.rs\<close>, \<^verbatim>\<open>debug/validation.rs\<close>;
    \<^verbatim>\<open>clusterflux-wasm-runtime/src/lib.rs\<close>).

  \<^bold>\<open>Conventions.\<close> A \<open>u64\<close> is a 64-bit word: \<open>+\<close> wraps as in a release build and the saturating operations are
  \<open>sat_add\<close> and \<open>sat_sub\<close>; lengths and \<open>usize\<close> counters are natural numbers, since they count objects in memory.
  Strings are byte lists. An operation returns its new state, with an error as a value of a sum type; a panic of
  an \<open>expect\<close> or \<open>unwrap\<close> is \<open>None\<close>, and the theorems that rule it out say so. Handlers take identifiers that
  passed the request decoding, and read the clock once.

  \<^bold>\<open>Parameters.\<close> SHA-256, the Ed25519 library, random tokens, the clocks, the JSON number conversions and the
  lengths of JSON encodings are arguments of the definitions that use them; what is relied on is a hypothesis, with a
  witness on a concrete instance.

  \<^bold>\<open>What is shown.\<close>
  \<^item> Authority: signed messages are injective and verify; admin and agent requests are never accepted twice, node
    requests not unless the node is revoked or the request was accepted ahead of its timestamp, which is proved to
    be a hole; grants are used once; sessions and tenants stay revoked and suspended.
  \<^item> Assignments: the durable authority keeps its invariant, a terminal assignment is fenced off for good, terminal
    mutations are idempotent, restarts retire every live assignment, and leases are renewed exactly.
  \<^item> Scheduling and limits: placement is optimal and only on live nodes; quota is never exceeded and charged
    exactly; log buffers, logs, summaries and checkpoints are bounded, evict only what they may, and lose nothing
    silently.
  \<^item> Artifacts and transfers: held artifacts survive, registries keep their invariants, transfers refine their
    lifecycle, end when stalled, stay within the admission limits, hold their artifact while under way, and
    complete only against the recorded digest and size.
  \<^item> Execution: validated arguments materialize exactly, and an instance runs again once its epoch is resumed.

  \<^bold>\<open>Loops.\<close> No fuel is used: the loops that evict checkpoints, attempts, summaries, log entries, transfers and
  metadata are functions with termination proofs or structural recursion. The eviction of artifact metadata is a
  partial function; \<^verbatim>\<open>CF_Artifacts\<close> proves that it returns on every registry filed under its own keys.

  \<^bold>\<open>Interfaces.\<close> Locales state what a part promises its clients: an ordered store, a bounded history, a replay
  window and the handlers that prune it, a scheduler, a lifecycle machine and a registry with an invariant. Each is
  interpreted on the definitions of the parts that provide it.

  \<^bold>\<open>Not modelled.\<close>
  \<^item> The handlers that launch, complete, cancel and join tasks, drain and release nodes, and serve debug and panel
    requests: they combine the modelled registries with the coordinator's Wasm main and with automated runs, whose
    state is not modelled.
  \<^item> Automated runs, workflow manifests and secrets; bundles, environments and source preparation; the durable
    store: they read files, git, SQL and encrypted payloads.
  \<^item> Request decoding and routing, the node daemon, the data plane between nodes, the relay, the Wasm embedding, the
    SDK and its macros, the command line, the client and the debug adapter: socket, process and file I/O around
    third-party libraries.
\<close>

end
